(* ===== verification/Prelude.thy ===== *)
theory Prelude
  imports Main "HOL-Library.Word" "HOL-Library.Monad_Syntax"
begin

text \<open>
  Shared vocabulary of the development: machine integers and byte slices as Go has them,
  durations, the option type for Go's run-time panics, and the generic interfaces
  (codecs, invariant machines) that the components instantiate.

  Conventions used by every theory:
  \<^item> a \<open>uint8\<close>, \<open>uint16\<close>, \<open>uint32\<close> is a word of that width and wraps as in Go;
  \<^item> \<open>time.Duration\<close> and \<open>time.Time\<close> are integers that count nanoseconds; the zero
    \<open>time.Time\<close> is \<open>None\<close> where the code tests \<open>IsZero\<close>;
  \<^item> a computation that can index or slice out of range has a result of type
    \<open>'a go\<close>, where \<open>None\<close> is the panic;
  \<^item> a failing operation returns a sum, \<open>Inl\<close> the error.
\<close>

unbundle bit_operations_syntax

named_theorems go_simps \<open>evaluation of Go slice and integer operations\<close>
named_theorems inv_intros \<open>preservation of component invariants\<close>

type_synonym u8 = "8 word"
type_synonym u16 = "16 word"
type_synonym u32 = "32 word"
type_synonym bytes = "8 word list"
type_synonym duration = int
type_synonym 'a go = "'a option"

subsection \<open>Durations\<close>

abbreviation microsecond :: duration where "microsecond \<equiv> 1000"
abbreviation millisecond :: duration where "millisecond \<equiv> 1000000"
abbreviation second :: duration where "second \<equiv> 1000000000"
abbreviation minute :: duration where "minute \<equiv> 60000000000"
abbreviation hour :: duration where "hour \<equiv> 3600000000000"

text \<open>Go's integer division truncates towards zero.\<close>

definition go_div :: "int \<Rightarrow> int \<Rightarrow> int" where
  "go_div a b = (if a < 0 then - ((- a) div b) else a div b)"

lemma go_div_nonneg [go_simps]: "0 \<le> a \<Longrightarrow> go_div a b = a div b"
  by (simp add: go_div_def)

lemma find_SomeD: "find P xs = Some x \<Longrightarrow> x \<in> set xs \<and> P x"
  by (metis find_Some_iff nth_mem)

subsection \<open>Slices\<close>

text \<open>
  Go panics when an index or a slice bound is out of range. A slice bound may reach up to
  the capacity; the model panics beyond the length already, so a computation that does not
  panic here does not panic in Go.
\<close>

definition idx :: "'a list \<Rightarrow> nat \<Rightarrow> 'a go" where
  "idx xs i = (if i < length xs then Some (xs ! i) else None)"

definition slice_from :: "'a list \<Rightarrow> nat \<Rightarrow> 'a list go" where
  "slice_from xs i = (if i \<le> length xs then Some (drop i xs) else None)"

definition slice_to :: "'a list \<Rightarrow> nat \<Rightarrow> 'a list go" where
  "slice_to xs j = (if j \<le> length xs then Some (take j xs) else None)"

definition slice :: "'a list \<Rightarrow> nat \<Rightarrow> nat \<Rightarrow> 'a list go" where
  "slice xs i j = (if i \<le> j \<and> j \<le> length xs then Some (take (j - i) (drop i xs)) else None)"

lemma idx_Some [go_simps]: "i < length xs \<Longrightarrow> idx xs i = Some (xs ! i)"
  by (simp add: idx_def)

lemma slice_from_Some [go_simps]: "i \<le> length xs \<Longrightarrow> slice_from xs i = Some (drop i xs)"
  by (simp add: slice_from_def)

lemma slice_to_Some [go_simps]: "j \<le> length xs \<Longrightarrow> slice_to xs j = Some (take j xs)"
  by (simp add: slice_to_def)

lemma slice_Some [go_simps]:
  "i \<le> j \<Longrightarrow> j \<le> length xs \<Longrightarrow> slice xs i j = Some (take (j - i) (drop i xs))"
  by (simp add: slice_def)

subsection \<open>Big-endian integers (encoding/binary.BigEndian)\<close>

definition put_u16 :: "u16 \<Rightarrow> bytes" where
  "put_u16 w = [ucast (drop_bit 8 w), ucast w]"

definition put_u32 :: "u32 \<Rightarrow> bytes" where
  "put_u32 w = [ucast (drop_bit 24 w), ucast (drop_bit 16 w), ucast (drop_bit 8 w), ucast w]"

definition get_u16 :: "bytes \<Rightarrow> u16 go" where
  "get_u16 b = (case b of
      x # y # _ \<Rightarrow> Some (push_bit 8 (ucast x) OR ucast y)
    | _ \<Rightarrow> None)"

definition get_u32 :: "bytes \<Rightarrow> u32 go" where
  "get_u32 b = (case b of
      w # x # y # z # _ \<Rightarrow>
        Some (push_bit 24 (ucast w) OR push_bit 16 (ucast x) OR push_bit 8 (ucast y) OR ucast z)
    | _ \<Rightarrow> None)"

lemma length_put_u16 [simp]: "length (put_u16 w) = 2"
  by (simp add: put_u16_def)

lemma length_put_u32 [simp]: "length (put_u32 w) = 4"
  by (simp add: put_u32_def)

lemma u16_bytes: "push_bit 8 (ucast (ucast (drop_bit 8 w) :: u8)) OR ucast (ucast w :: u8) = (w :: u16)"
  by (rule bit_word_eqI) (auto simp: bit_simps)

lemma u32_bytes:
  "push_bit 24 (ucast (ucast (drop_bit 24 w) :: u8)) OR push_bit 16 (ucast (ucast (drop_bit 16 w) :: u8))
     OR push_bit 8 (ucast (ucast (drop_bit 8 w) :: u8)) OR ucast (ucast w :: u8) = (w :: u32)"
  (is "?l = w")
proof (rule bit_word_eqI)
  fix n assume "n < LENGTH(32)"
  consider "n < 8" | "8 \<le> n" "n < 16" | "16 \<le> n" "n < 24" | "24 \<le> n"
    by linarith
  then show "bit ?l n = bit w n"
    by cases (use \<open>n < LENGTH(32)\<close> in \<open>auto simp: bit_simps\<close>)
qed

subsection \<open>Codecs: a fixed-width encoder and a decoder that inverts it\<close>

locale codec =
  fixes enc :: "'a \<Rightarrow> bytes" and dec :: "bytes \<Rightarrow> 'a option" and width :: nat
  assumes length_enc: "length (enc x) = width"
    and dec_enc: "dec (enc x @ rest) = Some x"
begin

lemma enc_inject: "enc x = enc y \<longleftrightarrow> x = y"
  by (metis dec_enc option.inject)

lemma enc_append_inject: "enc x @ r = enc y @ s \<longleftrightarrow> x = y \<and> r = s"
  by (metis dec_enc option.inject same_append_eq)

end

interpretation be16: codec put_u16 get_u16 2
  by unfold_locales (simp_all add: put_u16_def get_u16_def u16_bytes)

interpretation be32: codec put_u32 get_u32 4
  by unfold_locales (simp_all add: put_u32_def get_u32_def u32_bytes)

subsection \<open>Bytes bit by bit\<close>

lemma u8_bits: "n < 8 \<Longrightarrow> n = 0 \<or> n = 1 \<or> n = 2 \<or> n = 3 \<or> n = 4 \<or> n = 5 \<or> n = 6 \<or> n = (7::nat)"
  by auto

lemma u8_eqI:
  fixes a b :: u8
  assumes "bit a 0 = bit b 0" "bit a 1 = bit b 1" "bit a 2 = bit b 2" "bit a 3 = bit b 3"
    "bit a 4 = bit b 4" "bit a 5 = bit b 5" "bit a 6 = bit b 6" "bit a 7 = bit b 7"
  shows "a = b"
  by (rule bit_word_eqI) (use assms u8_bits in auto)

lemma u8_bit_range [simp]: "8 \<le> n \<Longrightarrow> bit (b :: u8) n = False"
  using bit_imp_le_length [of b n] by auto

lemma put_get_u32:
  assumes "4 \<le> length b" "get_u32 b = Some w"
  shows "put_u32 w = take 4 b"
proof -
  obtain b0 b1 b2 b3 r where b: "b = b0 # b1 # b2 # b3 # r"
    using assms(1) by (auto simp: numeral_eq_Suc Suc_le_length_iff)
  have "ucast (drop_bit 24 w) = b0" "ucast (drop_bit 16 w) = b1"
    "ucast (drop_bit 8 w) = b2" "ucast w = b3"
    using assms(2) unfolding b get_u32_def
    by (auto intro!: u8_eqI simp: bit_simps)
  then show ?thesis
    by (simp add: b put_u32_def)
qed

lemma get_u32_put [simp]: "get_u32 (put_u32 w @ r) = Some w"
  by (rule be32.dec_enc)

lemma get_u32_put_end [simp]: "get_u32 (put_u32 w) = Some w"
  using be32.dec_enc [of w "[]"] by simp

lemma get_u32_total: "4 \<le> length b \<Longrightarrow> \<exists>w. get_u32 b = Some w"
  by (auto simp: get_u32_def split: list.splits)

subsection \<open>Machines with an invariant\<close>

text \<open>
  A component whose operations all keep its invariant: the invariant then holds after any
  sequence of operations, in whatever order the callers interleave them.
\<close>

locale invariant_machine =
  fixes step :: "'s \<Rightarrow> 'e \<Rightarrow> 's" and inv :: "'s \<Rightarrow> bool"
  assumes step_inv: "inv s \<Longrightarrow> inv (step s e)"
begin

lemma run_inv: "inv s \<Longrightarrow> inv (foldl step s es)"
  by (induction es arbitrary: s) (auto intro: step_inv)

lemma run_inv_prefix: "inv s \<Longrightarrow> inv (foldl step s (take n es))"
  by (rule run_inv)

end

end
