(* ===== verification/BFD_Packet.thy ===== *)
theory BFD_Packet
  imports Prelude
begin

text \<open>
  The BFD control packet of \<open>pkg/network/bfd/packet.go\<close>: the session states, the packet
  record, its encoder \<open>Marshal\<close> and the decoder \<open>Parse\<close> with the checks of RFC 5880 6.8.6
  that need no session state.
\<close>

subsection \<open>States, diagnostics, packets\<close>

text \<open>The states of RFC 5880 4.1; the wire carries them in two bits.\<close>

datatype bfd_state = StateAdminDown | StateDown | StateInit | StateUp

fun state_code :: "bfd_state \<Rightarrow> u8" where
  "state_code StateAdminDown = 0"
| "state_code StateDown = 1"
| "state_code StateInit = 2"
| "state_code StateUp = 3"

text \<open>\<open>State(v)\<close> for the two-bit values that \<open>b[1] >> 6\<close> can have.\<close>

definition state_of :: "u8 \<Rightarrow> bfd_state" where
  "state_of v = (if v = 0 then StateAdminDown else if v = 1 then StateDown
                 else if v = 2 then StateInit else StateUp)"

type_synonym diag = u8

definition DiagNone :: diag where "DiagNone = 0"
definition DiagTimeExpired :: diag where "DiagTimeExpired = 1"
definition DiagNeighborSaysDown :: diag where "DiagNeighborSaysDown = 3"
definition DiagAdminDown :: diag where "DiagAdminDown = 7"

lemmas diag_defs = DiagNone_def DiagTimeExpired_def DiagNeighborSaysDown_def DiagAdminDown_def

definition packetLen :: nat where "packetLen = 24"

record packet =
  pDiag :: diag
  pState :: bfd_state
  pPoll :: bool
  pFinal :: bool
  pControlPlaneIndep :: bool
  pAuthPresent :: bool
  pDemand :: bool
  pMultipoint :: bool
  pDetectMult :: u8
  pMyDiscriminator :: u32
  pYourDiscriminator :: u32
  pDesiredMinTxUS :: u32
  pRequiredMinRxUS :: u32
  pRequiredMinEchoRxUS :: u32

subsection \<open>Marshal\<close>

definition flag :: "bool \<Rightarrow> u8 \<Rightarrow> u8" where
  "flag on b = (if on then b else 0)"

definition Marshal :: "packet \<Rightarrow> bytes" where
  "Marshal p =
     [push_bit 5 1 OR (pDiag p AND 0x1f),
      push_bit 6 (state_code (pState p)) OR flag (pPoll p) 0x20 OR flag (pFinal p) 0x10
        OR flag (pControlPlaneIndep p) 0x08 OR flag (pDemand p) 0x02 OR flag (pMultipoint p) 0x01,
      pDetectMult p,
      of_nat packetLen]
     @ put_u32 (pMyDiscriminator p) @ put_u32 (pYourDiscriminator p)
     @ put_u32 (pDesiredMinTxUS p) @ put_u32 (pRequiredMinRxUS p)
     @ put_u32 (pRequiredMinEchoRxUS p)"

subsection \<open>Parse\<close>

datatype parse_error = ErrShort | ErrVersion | ErrLength | ErrDetectMult | ErrMultipoint
  | ErrMyDiscr | ErrYourDiscr | ErrAuthNotWanted

text \<open>The checks of the final \<open>switch\<close>, in its order.\<close>

definition packet_checks :: "packet \<Rightarrow> parse_error + packet" where
  "packet_checks p =
     (if pDetectMult p = 0 then Inl ErrDetectMult
      else if pMultipoint p then Inl ErrMultipoint
      else if pMyDiscriminator p = 0 then Inl ErrMyDiscr
      else if pYourDiscriminator p = 0 \<and> pState p \<noteq> StateDown \<and> pState p \<noteq> StateAdminDown
        then Inl ErrYourDiscr
      else if pAuthPresent p then Inl ErrAuthNotWanted
      else Inr p)"

definition Parse :: "bytes \<Rightarrow> (parse_error + packet) go" where
  "Parse b =
     (if length b < packetLen then Some (Inl ErrShort)
      else do {
        b0 \<leftarrow> idx b 0;
        if drop_bit 5 b0 \<noteq> 1 then Some (Inl ErrVersion)
        else do {
          b1 \<leftarrow> idx b 1;
          b2 \<leftarrow> idx b 2;
          my \<leftarrow> slice_from b 4 \<bind> get_u32;
          your \<leftarrow> slice_from b 8 \<bind> get_u32;
          tx \<leftarrow> slice_from b 12 \<bind> get_u32;
          rx \<leftarrow> slice_from b 16 \<bind> get_u32;
          echo \<leftarrow> slice_from b 20 \<bind> get_u32;
          let p = \<lparr>pDiag = b0 AND 0x1f, pState = state_of (drop_bit 6 b1),
                   pPoll = (b1 AND 0x20 \<noteq> 0), pFinal = (b1 AND 0x10 \<noteq> 0),
                   pControlPlaneIndep = (b1 AND 0x08 \<noteq> 0), pAuthPresent = (b1 AND 0x04 \<noteq> 0),
                   pDemand = (b1 AND 0x02 \<noteq> 0), pMultipoint = (b1 AND 0x01 \<noteq> 0),
                   pDetectMult = b2, pMyDiscriminator = my, pYourDiscriminator = your,
                   pDesiredMinTxUS = tx, pRequiredMinRxUS = rx, pRequiredMinEchoRxUS = echo\<rparr>;
              minLen = (if pAuthPresent p then 26 else packetLen)
          in do {
            b3 \<leftarrow> idx b 3;
            if unat b3 < minLen \<or> length b < unat b3 then Some (Inl ErrLength)
            else Some (packet_checks p)
          }
        }
      })"

text \<open>What a control packet must satisfy to be sent by BOOTy and accepted by \<open>Parse\<close>.\<close>

definition wire_valid :: "packet \<Rightarrow> bool" where
  "wire_valid p \<longleftrightarrow>
     pDiag p AND 0x1f = pDiag p \<and> pDetectMult p \<noteq> 0 \<and> \<not> pMultipoint p \<and> \<not> pAuthPresent p
     \<and> pMyDiscriminator p \<noteq> 0
     \<and> (pYourDiscriminator p = 0 \<longrightarrow> pState p = StateDown \<or> pState p = StateAdminDown)"

subsection \<open>Facts on the codec\<close>

lemma length_Marshal [simp]: "length (Marshal p) = 24"
  by (simp add: Marshal_def)

lemma state_of_code [simp]: "state_of (state_code s) = s"
  by (cases s) (simp_all add: state_of_def)

lemma flags_byte:
  fixes st :: bfd_state and po fi cp de mu :: bool
  defines "b \<equiv> push_bit 6 (state_code st) OR flag po 0x20 OR flag fi 0x10
        OR flag cp 0x08 OR flag de 0x02 OR flag mu 0x01"
  shows "drop_bit 6 b = state_code st"
    and "(b AND 0x20 \<noteq> 0) = po" and "(b AND 0x10 \<noteq> 0) = fi" and "(b AND 0x08 \<noteq> 0) = cp"
    and "b AND 0x04 = 0" and "(b AND 0x02 \<noteq> 0) = de" and "(b AND 0x01 \<noteq> 0) = mu"
  unfolding b_def
  by (cases st; cases po; cases fi; cases cp; cases de; cases mu; simp add: flag_def)+

lemma diag_byte:
  "drop_bit 5 (push_bit 5 1 OR (d AND 0x1f) :: u8) = 1"
  "(push_bit 5 1 OR (d AND 0x1f) :: u8) AND 0x1f = d AND 0x1f"
  by (rule u8_eqI; simp add: bit_simps)+

lemma version_byte:
  assumes "drop_bit 5 b = (1 :: u8)"
  shows "push_bit 5 1 OR (b AND 0x1f) = b"
proof -
  have "bit b (k + 5) = (k = 0)" if "k < 3" for k
    using arg_cong [OF assms, of "\<lambda>w. bit w k"] that by (simp add: bit_simps ac_simps)
  from this [of 0] this [of 1] this [of 2]
  have "bit b 5" "\<not> bit b 6" "\<not> bit b 7"
    by simp_all
  then show ?thesis
    by (intro u8_eqI) (simp_all add: bit_simps)
qed

lemma state_code_of: "state_code (state_of v) = v" if "v < 4" for v :: u8
proof -
  have "unat v < 4"
    using that by (simp add: word_less_nat_alt)
  then consider "unat v = 0" | "unat v = 1" | "unat v = 2" | "unat v = 3"
    by linarith
  then show ?thesis
    by cases (simp_all add: state_of_def word_unat_eq_iff)
qed

lemma drop_bit_6_less: "drop_bit 6 (b :: u8) < 4"
proof -
  have "unat (drop_bit 6 b) = unat b div 64"
    by (simp only: unat_drop_bit_eq) (simp add: drop_bit_eq_div)
  moreover have "unat b < 256"
    using unsigned_less [of b, where ?'a = nat] by simp
  ultimately show ?thesis
    by (simp add: word_less_nat_alt)
qed

lemma flag_bits:
  fixes b :: u8
  shows "flag (b AND 0x20 \<noteq> 0) 0x20 = b AND 0x20" "flag (b AND 0x10 \<noteq> 0) 0x10 = b AND 0x10"
    "flag (b AND 0x08 \<noteq> 0) 0x08 = b AND 0x08" "flag (b AND 0x02 \<noteq> 0) 0x02 = b AND 0x02"
    "flag (b AND 0x01 \<noteq> 0) 0x01 = b AND 0x01"
proof -
  have "flag (b AND 2 ^ k \<noteq> 0) (2 ^ k) = b AND 2 ^ k" for k
    by (rule bit_word_eqI) (auto simp: flag_def bit_simps and_exp_eq_0_iff_not_bit)
  from this [of 5] this [of 4] this [of 3] this [of 1] this [of 0]
  show "flag (b AND 0x20 \<noteq> 0) 0x20 = b AND 0x20" "flag (b AND 0x10 \<noteq> 0) 0x10 = b AND 0x10"
    "flag (b AND 0x08 \<noteq> 0) 0x08 = b AND 0x08" "flag (b AND 0x02 \<noteq> 0) 0x02 = b AND 0x02"
    "flag (b AND 0x01 \<noteq> 0) 0x01 = b AND 0x01"
    by simp_all
qed

lemma second_byte:
  fixes b :: u8
  assumes "b AND 0x04 = 0"
  shows "push_bit 6 (drop_bit 6 b) OR (b AND 0x20) OR (b AND 0x10) OR (b AND 0x08)
     OR (b AND 0x02) OR (b AND 0x01) = b"
proof -
  have "\<not> bit b 2"
    using arg_cong [OF assms, of "\<lambda>w. bit w 2"] by (simp add: bit_simps)
  then show ?thesis
    by (intro u8_eqI) (simp_all add: bit_simps)
qed

lemma packet_checks_Inr: "packet_checks p = Inr q \<longleftrightarrow>
    q = p \<and> pDetectMult p \<noteq> 0 \<and> \<not> pMultipoint p \<and> \<not> pAuthPresent p \<and> pMyDiscriminator p \<noteq> 0
     \<and> (pYourDiscriminator p = 0 \<longrightarrow> pState p = StateDown \<or> pState p = StateAdminDown)"
  by (auto simp: packet_checks_def)

text \<open>The packet that the header bytes and the five integer fields decode to.\<close>

definition decoded :: "u8 \<Rightarrow> u8 \<Rightarrow> u8 \<Rightarrow> u32 \<Rightarrow> u32 \<Rightarrow> u32 \<Rightarrow> u32 \<Rightarrow> u32 \<Rightarrow> packet" where
  "decoded b0 b1 b2 my your tx rx echo =
     \<lparr>pDiag = b0 AND 0x1f, pState = state_of (drop_bit 6 b1),
      pPoll = (b1 AND 0x20 \<noteq> 0), pFinal = (b1 AND 0x10 \<noteq> 0),
      pControlPlaneIndep = (b1 AND 0x08 \<noteq> 0), pAuthPresent = (b1 AND 0x04 \<noteq> 0),
      pDemand = (b1 AND 0x02 \<noteq> 0), pMultipoint = (b1 AND 0x01 \<noteq> 0),
      pDetectMult = b2, pMyDiscriminator = my, pYourDiscriminator = your,
      pDesiredMinTxUS = tx, pRequiredMinRxUS = rx, pRequiredMinEchoRxUS = echo\<rparr>"

lemma Parse_layout:
  "Parse (b0 # b1 # b2 # b3 # put_u32 my @ put_u32 your @ put_u32 tx @ put_u32 rx @ put_u32 echo @ r) =
     Some (if drop_bit 5 b0 \<noteq> 1 then Inl ErrVersion
           else if unat b3 < (if b1 AND 0x04 \<noteq> 0 then 26 else 24) \<or> 24 + length r < unat b3
             then Inl ErrLength
           else packet_checks (decoded b0 b1 b2 my your tx rx echo))"
  by (simp add: Parse_def packetLen_def go_simps Let_def decoded_def)

text \<open>Any slice of at least 24 bytes has this layout.\<close>

lemma layout_cases:
  assumes "24 \<le> length b"
  obtains b0 b1 b2 b3 my your tx rx echo r where
    "b = b0 # b1 # b2 # b3 # put_u32 my @ put_u32 your @ put_u32 tx @ put_u32 rx @ put_u32 echo @ r"
proof -
  have chunk: "\<exists>w. drop k c = put_u32 w @ drop (k + 4) c" if len: "k + 4 \<le> length c" for k c
  proof -
    obtain w where "get_u32 (drop k c) = Some w"
      using get_u32_total [of "drop k c"] len by (auto simp: le_diff_conv2)
    with len have "put_u32 w = take 4 (drop k c)"
      by (intro put_get_u32) auto
    then have "drop k c = put_u32 w @ drop (k + 4) c"
      by (metis append_take_drop_id drop_drop add.commute)
    then show ?thesis ..
  qed
  obtain b0 b1 b2 b3 c where b: "b = b0 # b1 # b2 # b3 # c"
    using assms by (auto simp: numeral_eq_Suc Suc_le_length_iff)
  with assms have "20 \<le> length c"
    by simp
  then obtain my your tx rx echo where
    "c = put_u32 my @ drop 4 c" "drop 4 c = put_u32 your @ drop 8 c"
    "drop 8 c = put_u32 tx @ drop 12 c" "drop 12 c = put_u32 rx @ drop 16 c"
    "drop 16 c = put_u32 echo @ drop 20 c"
    using chunk [of 0 c] chunk [of 4 c] chunk [of 8 c] chunk [of 12 c] chunk [of 16 c] by auto
  then have "c = put_u32 my @ put_u32 your @ put_u32 tx @ put_u32 rx @ put_u32 echo @ drop 20 c"
    by metis
  with b that show ?thesis
    by blast
qed

lemma Parse_Marshal:
  assumes "wire_valid p"
  shows "Parse (Marshal p @ trail) = Some (Inr p)"
proof -
  define b0 where "b0 = (push_bit 5 1 OR (pDiag p AND 0x1f) :: u8)"
  define b1 where "b1 = push_bit 6 (state_code (pState p)) OR flag (pPoll p) 0x20 OR flag (pFinal p) 0x10
        OR flag (pControlPlaneIndep p) 0x08 OR flag (pDemand p) 0x02 OR flag (pMultipoint p) 0x01"
  have "drop_bit 5 b0 = 1"
    unfolding b0_def by (rule diag_byte)
  moreover have "b0 AND 0x1f = pDiag p"
    using assms diag_byte(2) [of "pDiag p"] by (simp only: b0_def wire_valid_def)
  moreover have "decoded b0 b1 (pDetectMult p) (pMyDiscriminator p) (pYourDiscriminator p)
      (pDesiredMinTxUS p) (pRequiredMinRxUS p) (pRequiredMinEchoRxUS p) = p"
    using assms \<open>b0 AND 0x1f = pDiag p\<close>
    unfolding decoded_def b1_def flags_byte by (simp add: wire_valid_def)
  moreover have "b1 AND 0x04 = 0"
    unfolding b1_def by (rule flags_byte)
  moreover have "packet_checks p = Inr p"
    using assms by (simp add: packet_checks_Inr wire_valid_def)
  moreover have "Marshal p @ trail = b0 # b1 # pDetectMult p # 24 # put_u32 (pMyDiscriminator p)
      @ put_u32 (pYourDiscriminator p) @ put_u32 (pDesiredMinTxUS p) @ put_u32 (pRequiredMinRxUS p)
      @ put_u32 (pRequiredMinEchoRxUS p) @ trail"
    by (simp add: Marshal_def b0_def b1_def packetLen_def)
  ultimately show ?thesis
    by (simp add: Parse_layout)
qed

lemma Parse_total: "\<exists>r. Parse b = Some r"
proof (cases "24 \<le> length b")
  case False
  then show ?thesis
    by (simp add: Parse_def packetLen_def)
next
  case True
  then show ?thesis
    by (rule layout_cases) (simp add: Parse_layout)
qed

lemma Parse_accepts:
  assumes "Parse b = Some (Inr p)"
  shows "wire_valid p" "24 \<le> unat (b ! 3)" "unat (b ! 3) \<le> length b"
    "Marshal p = (take 24 b)[3 := 24]"
proof -
  have "24 \<le> length b"
    using assms by (cases "24 \<le> length b") (simp_all add: Parse_def packetLen_def)
  then obtain b0 b1 b2 b3 my your tx rx echo r where
    b: "b = b0 # b1 # b2 # b3 # put_u32 my @ put_u32 your @ put_u32 tx @ put_u32 rx @ put_u32 echo @ r"
    by (rule layout_cases)
  let ?p = "decoded b0 b1 b2 my your tx rx echo"
  have p: "p = ?p" "drop_bit 5 b0 = 1" "b1 AND 0x04 = 0" and len: "24 \<le> unat b3" "unat b3 \<le> 24 + length r"
    and checks: "packet_checks ?p = Inr p"
    using assms unfolding b Parse_layout
    by (auto simp: packet_checks_Inr decoded_def split: if_splits)
  show "24 \<le> unat (b ! 3)" "unat (b ! 3) \<le> length b"
    using len by (simp_all add: b)
  show "wire_valid p"
    using checks p(1) by (auto simp: wire_valid_def packet_checks_Inr decoded_def and.assoc)
  show "Marshal p = (take 24 b)[3 := 24]"
    using version_byte [OF p(2)] second_byte [OF p(3)] p(1)
    by (simp add: Marshal_def decoded_def b packetLen_def flag_bits state_code_of drop_bit_6_less)
qed

subsection \<open>Properties\<close>

text \<open>C1: every packet that meets the wire rules survives the round trip: \<open>Parse\<close> returns
  exactly the packet that \<open>Marshal\<close> encoded, also when bytes follow the 24 bytes of the
  control packet in the datagram.\<close>

theorem parse_marshal:
  "wire_valid p \<Longrightarrow> Parse (Marshal p @ trail) = Some (Inr p)"
  by (rule Parse_Marshal)

definition sample_packet :: packet where
  "sample_packet = \<lparr>pDiag = 3, pState = StateInit, pPoll = True, pFinal = False,
     pControlPlaneIndep = False, pAuthPresent = False, pDemand = False, pMultipoint = False,
     pDetectMult = 3, pMyDiscriminator = 0x01020304, pYourDiscriminator = 7,
     pDesiredMinTxUS = 1000000, pRequiredMinRxUS = 150000, pRequiredMinEchoRxUS = 50000\<rparr>"

lemma sample_packet_valid: "wire_valid sample_packet"
  by (simp add: wire_valid_def sample_packet_def)

theorem parse_marshal_witness:
  "Parse (Marshal sample_packet @ [0, 1]) = Some (Inr sample_packet)"
  by (rule parse_marshal [OF sample_packet_valid])

text \<open>C5: \<open>Parse\<close> is safe on any datagram: it never reads outside the slice, and a packet
  it accepts meets the wire rules, has a length field between 24 and the datagram's length, and
  is what the first 24 bytes spell out.\<close>

theorem parse_sound:
  "\<exists>r. Parse b = Some r \<and>
     (\<forall>p. r = Inr p \<longrightarrow> wire_valid p \<and> 24 \<le> unat (b ! 3) \<and> unat (b ! 3) \<le> length b
        \<and> Marshal p = (take 24 b)[3 := 24])"
  using Parse_total [of b] Parse_accepts [of b] by blast

theorem parse_sound_witness:
  "wire_valid sample_packet \<and> Marshal sample_packet = (take 24 (Marshal sample_packet))[3 := 24]"
proof -
  have "Parse (Marshal sample_packet) = Some (Inr sample_packet)"
    using Parse_Marshal [OF sample_packet_valid, of "[]"] by simp
  then show ?thesis
    using parse_sound [of "Marshal sample_packet"] by auto
qed

end
