(* ===== verification/BFD_Session.thy ===== *)
theory BFD_Session
  imports BFD_Packet
begin

text \<open>
  The session state machine of \<open>pkg/network/bfd/session.go\<close> (RFC 5880 6.8): receive
  processing, the detection timer, the Poll Sequence and the packets a session sends. The code
  takes the time as an argument and does no I/O; the model returns the updated session.
\<close>

subsection \<open>State\<close>

record timers =
  DesiredMinTx :: duration
  RequiredMinRx :: duration
  DetectMult :: u8

definition requiredMinEchoRx :: duration where "requiredMinEchoRx = 50 * millisecond"
definition slowTx :: duration where "slowTx = second"

record session =
  timers_of :: timers
  sstate :: bfd_state
  sdiag :: diag
  localDiscr :: u32
  remoteDiscr :: u32
  remoteState :: bfd_state
  remoteMinRx :: duration
  remoteDesiredTx :: duration
  remoteDetectMult :: u8
  remoteDemand :: bool
  desiredTx :: duration
  curRx :: duration
  polling :: bool
  sendFinal :: bool
  lastRx :: "int option"

definition NewSession :: "timers \<Rightarrow> u32 \<Rightarrow> session" where
  "NewSession t discr =
     \<lparr>timers_of = t, sstate = StateDown, sdiag = DiagNone, localDiscr = discr, remoteDiscr = 0,
      remoteState = StateAdminDown, remoteMinRx = microsecond, remoteDesiredTx = 0,
      remoteDetectMult = 0, remoteDemand = False, desiredTx = max (DesiredMinTx t) slowTx,
      curRx = max (RequiredMinRx t) slowTx, polling = False, sendFinal = False, lastRx = None\<rparr>"

subsection \<open>Operations\<close>

definition us :: "u32 \<Rightarrow> duration" where
  "us v = uint v * microsecond"

definition toUS :: "duration \<Rightarrow> u32" where
  "toUS d = word_of_int (go_div d microsecond)"

definition up :: "session \<Rightarrow> session" where
  "up s =
     (let s = s\<lparr>sstate := StateUp, sdiag := DiagNone\<rparr>
      in if desiredTx s \<noteq> DesiredMinTx (timers_of s) \<or> curRx s \<noteq> RequiredMinRx (timers_of s)
         then s\<lparr>desiredTx := DesiredMinTx (timers_of s), polling := True\<rparr>
         else s)"

definition down :: "session \<Rightarrow> diag \<Rightarrow> session" where
  "down s d = s\<lparr>sstate := StateDown, sdiag := d,
                desiredTx := max (DesiredMinTx (timers_of s)) slowTx,
                curRx := max (RequiredMinRx (timers_of s)) slowTx,
                polling := False\<rparr>"

definition transition :: "session \<Rightarrow> bfd_state \<Rightarrow> session" where
  "transition s remote =
     (if remote = StateAdminDown then
        (if sstate s \<noteq> StateDown then down s DiagNeighborSaysDown else s)
      else if sstate s = StateDown \<and> remote = StateDown then s\<lparr>sstate := StateInit\<rparr>
      else if sstate s = StateDown \<and> remote = StateInit
            \<or> sstate s = StateInit \<and> (remote = StateInit \<or> remote = StateUp) then up s
      else if sstate s = StateUp \<and> remote = StateDown then down s DiagNeighborSaysDown
      else s)"

text \<open>The fields that a packet for this session sets before the state changes.\<close>

definition record_remote :: "session \<Rightarrow> packet \<Rightarrow> int \<Rightarrow> session" where
  "record_remote s p now =
     (let s = s\<lparr>remoteDiscr := pMyDiscriminator p, remoteState := pState p,
                remoteMinRx := us (pRequiredMinRxUS p), remoteDesiredTx := us (pDesiredMinTxUS p),
                remoteDetectMult := pDetectMult p, remoteDemand := pDemand p\<rparr>;
          s = (if pFinal p \<and> polling s
               then s\<lparr>polling := False, curRx := RequiredMinRx (timers_of s)\<rparr> else s);
          s = s\<lparr>lastRx := Some now\<rparr>
      in if pPoll p then s\<lparr>sendFinal := True\<rparr> else s)"

definition Receive :: "session \<Rightarrow> packet \<Rightarrow> int \<Rightarrow> session \<times> bool" where
  "Receive s p now =
     (if pYourDiscriminator p \<noteq> 0 \<and> pYourDiscriminator p \<noteq> localDiscr s then (s, False)
      else let s1 = record_remote s p now
           in if sstate s1 = StateAdminDown then (s1, False)
              else let s2 = transition s1 (pState p) in (s2, sstate s2 \<noteq> sstate s1))"

definition DetectionTime :: "session \<Rightarrow> duration" where
  "DetectionTime s = uint (remoteDetectMult s) * max (curRx s) (remoteDesiredTx s)"

definition CheckTimeout :: "session \<Rightarrow> int \<Rightarrow> session \<times> bool" where
  "CheckTimeout s now =
     (case lastRx s of
        None \<Rightarrow> (s, False)
      | Some t \<Rightarrow>
          if now - t \<le> DetectionTime s then (s, False)
          else let s = s\<lparr>remoteDiscr := 0, remoteMinRx := microsecond, remoteDemand := False\<rparr>
               in if sstate s \<noteq> StateInit \<and> sstate s \<noteq> StateUp then (s, False)
                  else (down s DiagTimeExpired, True))"

definition TxInterval :: "session \<Rightarrow> duration" where
  "TxInterval s =
     (if remoteMinRx s = 0 then 0
      else if remoteDemand s \<and> sstate s = StateUp \<and> remoteState s = StateUp \<and> \<not> polling s then 0
      else max (desiredTx s) (remoteMinRx s))"

text \<open>\<open>Packet\<close> builds the next control packet and clears a pending Final.\<close>

definition NextPacket :: "session \<Rightarrow> packet \<times> session" where
  "NextPacket s =
     (let p = \<lparr>pDiag = sdiag s, pState = sstate s, pPoll = False, pFinal = False,
               pControlPlaneIndep = False, pAuthPresent = False, pDemand = False,
               pMultipoint = False, pDetectMult = DetectMult (timers_of s),
               pMyDiscriminator = localDiscr s, pYourDiscriminator = remoteDiscr s,
               pDesiredMinTxUS = toUS (desiredTx s), pRequiredMinRxUS = toUS (curRx s),
               pRequiredMinEchoRxUS = toUS requiredMinEchoRx\<rparr>;
          p = (if polling s then p\<lparr>pRequiredMinRxUS := toUS (RequiredMinRx (timers_of s))\<rparr> else p)
      in if sendFinal s then (p\<lparr>pFinal := True\<rparr>, s\<lparr>sendFinal := False\<rparr>)
         else if polling s then (p\<lparr>pPoll := True\<rparr>, s)
         else (p, s))"

subsection \<open>Histories of a session\<close>

text \<open>
  What can happen to a session, in any order: a datagram arrives (it is parsed and handed to
  the session when \<open>Parse\<close> accepts it), the detection timer runs, a packet is sent.
\<close>

datatype session_event = Datagram bytes int | Timer int | Transmit

fun session_step :: "session \<Rightarrow> session_event \<Rightarrow> session" where
  "session_step s (Datagram b now) =
     (case Parse b of Some (Inr p) \<Rightarrow> fst (Receive s p now) | _ \<Rightarrow> s)"
| "session_step s (Timer now) = fst (CheckTimeout s now)"
| "session_step s Transmit = snd (NextPacket s)"

subsection \<open>Specification: the state table of RFC 5880\<close>

fun rfc_state :: "bfd_state \<Rightarrow> bfd_state \<Rightarrow> bfd_state" where
  "rfc_state StateAdminDown _ = StateAdminDown"
| "rfc_state _ StateAdminDown = StateDown"
| "rfc_state StateDown StateDown = StateInit"
| "rfc_state StateDown StateInit = StateUp"
| "rfc_state StateDown StateUp = StateDown"
| "rfc_state StateInit StateDown = StateInit"
| "rfc_state StateInit StateInit = StateUp"
| "rfc_state StateInit StateUp = StateUp"
| "rfc_state StateUp StateDown = StateDown"
| "rfc_state StateUp StateInit = StateUp"
| "rfc_state StateUp StateUp = StateUp"

subsection \<open>Invariant\<close>

text \<open>
  Outside Up the session advertises the slow intervals and runs no Poll Sequence; in Up it
  uses the configured transmit interval, and the slow receive interval exactly while it polls.
  Init and Up know the remote discriminator and when the last packet came, and Up has seen the
  peer in Init or Up. BOOTy never enters AdminDown.
\<close>

definition session_inv :: "session \<Rightarrow> bool" where
  "session_inv s \<longleftrightarrow>
     (let t = timers_of s in
      sstate s \<noteq> StateAdminDown
      \<and> DetectMult t \<noteq> 0 \<and> localDiscr s \<noteq> 0 \<and> sdiag s AND 0x1f = sdiag s
      \<and> (sstate s \<noteq> StateUp \<longrightarrow> desiredTx s = max (DesiredMinTx t) slowTx
            \<and> curRx s = max (RequiredMinRx t) slowTx \<and> \<not> polling s)
      \<and> (sstate s = StateUp \<longrightarrow> desiredTx s = DesiredMinTx t
            \<and> curRx s = (if polling s then max (RequiredMinRx t) slowTx else RequiredMinRx t)
            \<and> (remoteState s = StateInit \<or> remoteState s = StateUp))
      \<and> (sstate s \<noteq> StateDown \<longrightarrow> remoteDiscr s \<noteq> 0 \<and> lastRx s \<noteq> None))"

lemmas session_defs = Receive_def record_remote_def transition_def up_def down_def
  CheckTimeout_def NextPacket_def Let_def

lemma NewSession_inv [inv_intros]:
  "DetectMult t \<noteq> 0 \<Longrightarrow> d \<noteq> 0 \<Longrightarrow> session_inv (NewSession t d)"
  by (simp add: session_inv_def NewSession_def DiagNone_def)

lemma record_remote_inv:
  assumes "session_inv s" "pMyDiscriminator p \<noteq> 0"
  shows "sstate (record_remote s p now) = sstate s"
    "session_inv ((record_remote s p now)\<lparr>remoteState := remoteState s\<rparr>)"
    "remoteDiscr (record_remote s p now) \<noteq> 0" "lastRx (record_remote s p now) = Some now"
    "remoteState (record_remote s p now) = pState p"
  using assms by (auto simp: record_remote_def session_inv_def Let_def)

lemma transition_inv:
  assumes "session_inv (s\<lparr>remoteState := r\<rparr>)" "remoteDiscr s \<noteq> 0" "lastRx s \<noteq> None"
    "remoteState s = remote"
  shows "session_inv (transition s remote)"
  using assms
  by (cases "sstate s"; cases remote)
     (auto simp: transition_def up_def down_def session_inv_def Let_def diag_defs)

lemma Receive_inv [inv_intros]:
  assumes "session_inv s" "pMyDiscriminator p \<noteq> 0"
  shows "session_inv (fst (Receive s p now))"
proof -
  have "sstate s \<noteq> StateAdminDown"
    using assms(1) by (simp add: session_inv_def Let_def)
  moreover have "session_inv (transition (record_remote s p now) (pState p))"
    using record_remote_inv [OF assms, of now] by (intro transition_inv) auto
  ultimately show ?thesis
    using assms(1) record_remote_inv(1) [OF assms] by (simp add: Receive_def Let_def)
qed

lemma CheckTimeout_inv [inv_intros]: "session_inv s \<Longrightarrow> session_inv (fst (CheckTimeout s now))"
  by (cases "sstate s")
     (auto simp: CheckTimeout_def down_def session_inv_def Let_def diag_defs split: option.splits)

lemma NextPacket_inv [inv_intros]: "session_inv s \<Longrightarrow> session_inv (snd (NextPacket s))"
  by (auto simp: NextPacket_def session_inv_def Let_def)

lemma session_step_inv: "session_inv s \<Longrightarrow> session_inv (session_step s e)"
  by (cases e) (auto intro!: inv_intros dest: Parse_accepts(1) simp: wire_valid_def
      split: option.splits sum.splits)

interpretation bfd_history: invariant_machine session_step session_inv
  by unfold_locales (rule session_step_inv)

subsection \<open>Facts on single operations\<close>

lemma NextPacket_valid: "session_inv s \<Longrightarrow> wire_valid (fst (NextPacket s))"
  by (auto simp: NextPacket_def session_inv_def wire_valid_def Let_def)

lemma sstate_transition: "sstate s \<noteq> StateAdminDown \<Longrightarrow> sstate (transition s r) = rfc_state (sstate s) r"
  by (cases "sstate s"; cases r) (simp_all add: transition_def up_def down_def Let_def)

lemma sstate_record_remote [simp]: "sstate (record_remote s p now) = sstate s"
  by (simp add: record_remote_def Let_def)

lemma localDiscr_ops [simp]:
  "localDiscr (record_remote s p now) = localDiscr s" "localDiscr (transition s r) = localDiscr s"
  "localDiscr (snd (NextPacket s)) = localDiscr s"
  by (simp_all add: record_remote_def transition_def up_def down_def NextPacket_def Let_def)

text \<open>One packet from a session to its peer: what \<open>a\<close> sends next, over the wire, into \<open>b\<close>.\<close>

definition deliver :: "session \<Rightarrow> session \<Rightarrow> int \<Rightarrow> session \<times> session" where
  "deliver a b now =
     (let (p, a') = NextPacket a in (a', session_step b (Datagram (Marshal p) now)))"

definition exchange :: "session \<times> session \<Rightarrow> int \<Rightarrow> session \<times> session" where
  "exchange ab now =
     (let (a, b) = deliver (fst ab) (snd ab) now; (b, a) = deliver b a now in (a, b))"

lemma deliver_eq:
  "session_inv a \<Longrightarrow> deliver a b now = (snd (NextPacket a), fst (Receive b (fst (NextPacket a)) now))"
  using Parse_Marshal [OF NextPacket_valid, of a "[]"] by (simp add: deliver_def split_beta Let_def)

lemma deliver_inv:
  assumes "session_inv a" "session_inv b"
  shows "session_inv (fst (deliver a b now))" "session_inv (snd (deliver a b now))"
  using assms session_step_inv [OF assms(2)]
  by (simp_all add: deliver_def split_beta Let_def inv_intros del: session_step.simps)

text \<open>
  Two sessions of the same link: each knows the other's discriminator or has forgotten it.
  Delivery keeps the link, moves the receiver by the RFC table, and passes Poll and Final on.
\<close>

definition linked :: "session \<Rightarrow> session \<Rightarrow> bool" where
  "linked a b \<longleftrightarrow> session_inv a \<and> session_inv b
     \<and> remoteDiscr a \<in> {0, localDiscr b} \<and> remoteDiscr b \<in> {0, localDiscr a}"

lemma linked_sym: "linked a b \<longleftrightarrow> linked b a"
  by (auto simp: linked_def)

lemma Receive_linked:
  fixes now :: int
  assumes "sstate b \<noteq> StateAdminDown" "pYourDiscriminator p \<in> {0, localDiscr b}"
  defines "b' \<equiv> fst (Receive b p now)"
  shows "sstate b' = rfc_state (sstate b) (pState p)" "remoteDiscr b' = pMyDiscriminator p"
    "localDiscr b' = localDiscr b" "timers_of b' = timers_of b"
    "sstate b = StateUp \<Longrightarrow> sstate b' = StateUp \<Longrightarrow> polling b' = (polling b \<and> \<not> pFinal p)"
    "sendFinal b' = (sendFinal b \<or> pPoll p)"
proof -
  have b': "b' = transition (record_remote b p now) (pState p)"
    using assms(1,2) by (auto simp: b'_def Receive_def Let_def)
  show "sstate b' = rfc_state (sstate b) (pState p)"
    using assms(1) by (simp add: b' sstate_transition)
  show "remoteDiscr b' = pMyDiscriminator p" "localDiscr b' = localDiscr b" "timers_of b' = timers_of b"
    "sendFinal b' = (sendFinal b \<or> pPoll p)"
    by (simp_all add: b' transition_def record_remote_def up_def down_def Let_def)
  show "sstate b = StateUp \<Longrightarrow> sstate b' = StateUp \<Longrightarrow> polling b' = (polling b \<and> \<not> pFinal p)"
    by (auto simp: b' transition_def record_remote_def up_def down_def Let_def split: if_splits)
qed

lemma NextPacket_fields:
  "pState (fst (NextPacket s)) = sstate s" "pMyDiscriminator (fst (NextPacket s)) = localDiscr s"
  "pYourDiscriminator (fst (NextPacket s)) = remoteDiscr s" "pFinal (fst (NextPacket s)) = sendFinal s"
  "pPoll (fst (NextPacket s)) = (polling s \<and> \<not> sendFinal s)"
  "snd (NextPacket s) = s\<lparr>sendFinal := False\<rparr>"
  by (simp_all add: NextPacket_def Let_def)

lemma deliver_linked:
  fixes now :: int
  assumes "linked a b"
  defines "a' \<equiv> fst (deliver a b now)" and "b' \<equiv> snd (deliver a b now)"
  shows "linked a' b'" "a' = a\<lparr>sendFinal := False\<rparr>" "sstate b' = rfc_state (sstate b) (sstate a)"
    "timers_of b' = timers_of b" "sendFinal b' = (sendFinal b \<or> (polling a \<and> \<not> sendFinal a))"
    "sstate b = StateUp \<Longrightarrow> sstate b' = StateUp \<Longrightarrow> polling b' = (polling b \<and> \<not> sendFinal a)"
proof -
  have inv: "session_inv a" "session_inv b"
    and "pYourDiscriminator (fst (NextPacket a)) \<in> {0, localDiscr b}" "sstate b \<noteq> StateAdminDown"
    using assms(1) by (auto simp: linked_def NextPacket_fields session_inv_def Let_def)
  note R = Receive_linked [OF this(4,3), of now, unfolded NextPacket_fields]
  have ab: "a' = a\<lparr>sendFinal := False\<rparr>" "b' = fst (Receive b (fst (NextPacket a)) now)"
    by (simp_all add: a'_def b'_def deliver_eq [OF inv(1)] NextPacket_fields)
  show "a' = a\<lparr>sendFinal := False\<rparr>" by (rule ab)
  show "sstate b' = rfc_state (sstate b) (sstate a)" "timers_of b' = timers_of b"
    "sendFinal b' = (sendFinal b \<or> (polling a \<and> \<not> sendFinal a))"
    "sstate b = StateUp \<Longrightarrow> sstate b' = StateUp \<Longrightarrow> polling b' = (polling b \<and> \<not> sendFinal a)"
    by (simp_all add: ab R)
  show "linked a' b'"
    using assms(1) deliver_inv [OF inv, of now] by (auto simp: linked_def ab R a'_def [symmetric] b'_def [symmetric])
qed

text \<open>How one exchange moves the states and the Poll and Final flags of two sessions.\<close>

lemma exchange_linked:
  fixes now :: int
  assumes "linked a b"
  defines "a' \<equiv> fst (exchange (a, b) now)" and "b' \<equiv> snd (exchange (a, b) now)"
  shows "linked a' b'" "timers_of a' = timers_of a" "timers_of b' = timers_of b"
    "sstate b' = rfc_state (sstate b) (sstate a)" "sstate a' = rfc_state (sstate a) (sstate b')"
    "sstate a = StateUp \<Longrightarrow> sstate b = StateUp \<Longrightarrow>
       polling b' = (polling b \<and> \<not> sendFinal a) \<and> sendFinal b' = False
       \<and> polling a' = (polling a \<and> \<not> (sendFinal b \<or> (polling a \<and> \<not> sendFinal a)))
       \<and> sendFinal a' = (polling b' \<and> \<not> (sendFinal b \<or> (polling a \<and> \<not> sendFinal a)))"
proof -
  define a1 b1 where "a1 = fst (deliver a b now)" and "b1 = snd (deliver a b now)"
  note D = deliver_linked [OF assms(1), of now, folded a1_def b1_def]
  note E = deliver_linked [OF D(1) [unfolded linked_sym [of a1]], of now]
  have ab: "a' = snd (deliver b1 a1 now)" "b' = fst (deliver b1 a1 now)"
    by (simp_all add: a'_def b'_def exchange_def a1_def b1_def split_beta Let_def)
  show "linked a' b'" using E(1) by (simp add: ab linked_sym)
  show "timers_of a' = timers_of a" "timers_of b' = timers_of b"
    "sstate b' = rfc_state (sstate b) (sstate a)" "sstate a' = rfc_state (sstate a) (sstate b')"
    using D E by (simp_all add: ab)
  assume "sstate a = StateUp" "sstate b = StateUp"
  then show "polling b' = (polling b \<and> \<not> sendFinal a) \<and> sendFinal b' = False
       \<and> polling a' = (polling a \<and> \<not> (sendFinal b \<or> (polling a \<and> \<not> sendFinal a)))
       \<and> sendFinal a' = (polling b' \<and> \<not> (sendFinal b \<or> (polling a \<and> \<not> sendFinal a)))"
    using D E by (auto simp: ab)
qed

definition both_up :: "session \<times> session \<Rightarrow> bool" where
  "both_up ab \<longleftrightarrow> sstate (fst ab) = StateUp \<and> sstate (snd ab) = StateUp"

definition quiet :: "session \<times> session \<Rightarrow> bool" where
  "quiet ab \<longleftrightarrow> \<not> polling (fst ab) \<and> \<not> polling (snd ab) \<and> \<not> sendFinal (fst ab) \<and> \<not> sendFinal (snd ab)"

abbreviation linked_pair :: "session \<times> session \<Rightarrow> bool" where
  "linked_pair ab \<equiv> linked (fst ab) (snd ab)"

lemma exchange_pair:
  assumes "linked_pair ab"
  shows "linked_pair (exchange ab now)"
    "sstate (snd (exchange ab now)) = rfc_state (sstate (snd ab)) (sstate (fst ab))"
    "sstate (fst (exchange ab now)) = rfc_state (sstate (fst ab)) (sstate (snd (exchange ab now)))"
    "timers_of (fst (exchange ab now)) = timers_of (fst ab)"
    "timers_of (snd (exchange ab now)) = timers_of (snd ab)"
  using exchange_linked(1-5) [of "fst ab" "snd ab" now] assms by simp_all

lemma exchange_up: "linked_pair ab \<Longrightarrow> both_up ab \<Longrightarrow> both_up (exchange ab now)"
  by (simp add: both_up_def exchange_pair)

lemma exchange_quiet: "linked_pair ab \<Longrightarrow> both_up ab \<Longrightarrow> quiet ab \<Longrightarrow> quiet (exchange ab now)"
  using exchange_linked(6) [of "fst ab" "snd ab" now] by (simp add: both_up_def quiet_def)

lemma three_exchanges_up:
  assumes "linked_pair ab"
  shows "both_up (exchange (exchange (exchange ab t1) t2) t3)"
proof -
  have "sstate (fst ab) \<noteq> StateAdminDown" "sstate (snd ab) \<noteq> StateAdminDown"
    using assms by (simp_all add: linked_def session_inv_def Let_def)
  then show ?thesis
    using assms by (cases "sstate (fst ab)"; cases "sstate (snd ab)") (simp_all add: both_up_def exchange_pair)
qed

lemma three_exchanges_quiet:
  assumes "linked_pair ab" "both_up ab"
  shows "quiet (exchange (exchange (exchange ab t1) t2) t3)"
proof -
  let ?x = "exchange ab t1" and ?y = "exchange (exchange ab t1) t2"
  have "linked_pair ?x" "both_up ?x" "linked_pair ?y" "both_up ?y"
    using assms by (simp_all add: exchange_pair exchange_up)
  with assms show ?thesis
    using exchange_linked(6) [of "fst ab" "snd ab" t1] exchange_linked(6) [of "fst ?x" "snd ?x" t2]
      exchange_linked(6) [of "fst ?y" "snd ?y" t3]
    by (auto simp: both_up_def quiet_def)
qed

lemma exchanges_keep:
  assumes "linked_pair ab"
  shows "linked_pair (foldl exchange ab ts)"
    "timers_of (fst (foldl exchange ab ts)) = timers_of (fst ab)"
    "timers_of (snd (foldl exchange ab ts)) = timers_of (snd ab)"
  using assms by (induction ts arbitrary: ab) (simp_all add: exchange_pair)

lemma exchanges_keep_up:
  assumes "linked_pair ab" "both_up ab" "quiet ab"
  shows "both_up (foldl exchange ab ts) \<and> quiet (foldl exchange ab ts)"
  using assms by (induction ts arbitrary: ab) (simp_all add: exchange_pair exchange_up exchange_quiet)

lemma exchanges_converge:
  assumes "linked_pair ab" "6 \<le> length ts"
  shows "both_up (foldl exchange ab ts) \<and> quiet (foldl exchange ab ts)"
proof -
  obtain t1 t2 t3 t4 t5 t6 us where ts: "ts = t1 # t2 # t3 # t4 # t5 # t6 # us"
    using assms(2) by (auto simp: numeral_eq_Suc Suc_le_length_iff)
  let ?u = "exchange (exchange (exchange ab t1) t2) t3"
  have u: "linked_pair ?u" "both_up ?u"
    using assms(1) by (simp_all add: exchange_pair three_exchanges_up)
  let ?q = "exchange (exchange (exchange ?u t4) t5) t6"
  have "linked_pair ?q" "both_up ?q" "quiet ?q"
    using u by (simp_all add: exchange_pair exchange_up three_exchanges_quiet)
  then have "both_up (foldl exchange ?q us) \<and> quiet (foldl exchange ?q us)"
    by (rule exchanges_keep_up)
  then show ?thesis
    by (simp add: ts)
qed

subsection \<open>Properties\<close>


definition sample_timers :: timers where
  "sample_timers = \<lparr>DesiredMinTx = 150 * millisecond, RequiredMinRx = 150 * millisecond, DetectMult = 3\<rparr>"

lemma sample_timers_mult [simp]: "DetectMult sample_timers \<noteq> 0"
  by (simp add: sample_timers_def)


text \<open>C6: in every history, the next packet of a session meets the checks of the receiver: the
  peer's \<open>Parse\<close> accepts its encoding and returns the same packet; it never carries Poll and
  Final together.\<close>

theorem session_packets_accepted:
  assumes "DetectMult t \<noteq> 0" and "d \<noteq> 0"
  shows "let p = fst (NextPacket (foldl session_step (NewSession t d) es)) in
     Parse (Marshal p) = Some (Inr p) \<and> \<not> (pPoll p \<and> pFinal p)"
proof -
  have "session_inv (foldl session_step (NewSession t d) es)"
    using assms by (intro bfd_history.run_inv NewSession_inv)
  from Parse_Marshal [OF NextPacket_valid [OF this], of "[]"] show ?thesis
    by (simp add: Let_def NextPacket_fields)
qed

theorem session_packets_accepted_witness:
  "Parse (Marshal (fst (NextPacket (NewSession sample_timers 7)))) =
     Some (Inr (fst (NextPacket (NewSession sample_timers 7))))"
  using session_packets_accepted [of sample_timers 7 "[]"] by (simp add: Let_def)


text \<open>C3: two linked sessions recover from any pair of states: six lossless exchanges bring both
  Up, end both Poll Sequences and leave both with their configured intervals, and they stay so.\<close>

theorem sessions_converge:
  assumes "linked a b" and "6 \<le> length ts"
  shows "let (a', b') = foldl exchange (a, b) ts in
     sstate a' = StateUp \<and> sstate b' = StateUp \<and> \<not> polling a' \<and> \<not> polling b'
     \<and> desiredTx a' = DesiredMinTx (timers_of a) \<and> curRx a' = RequiredMinRx (timers_of a)
     \<and> desiredTx b' = DesiredMinTx (timers_of b) \<and> curRx b' = RequiredMinRx (timers_of b)"
proof -
  define ab' where "ab' = foldl exchange (a, b) ts"
  have "both_up ab'" "quiet ab'" and l: "linked_pair ab'"
    and "timers_of (fst ab') = timers_of a" "timers_of (snd ab') = timers_of b"
    using exchanges_converge [of "(a, b)" ts] exchanges_keep [of "(a, b)" ts] assms by (auto simp: ab'_def)
  then show ?thesis
    unfolding ab'_def [symmetric]
    by (auto simp: split_beta both_up_def quiet_def linked_def session_inv_def Let_def)
qed

theorem sessions_converge_witness:
  "linked (NewSession sample_timers 7) (NewSession sample_timers 9)
   \<and> sstate (fst (foldl exchange (NewSession sample_timers 7, NewSession sample_timers 9) [1, 2, 3, 4, 5, 6])) = StateUp"
proof -
  have l: "linked (NewSession sample_timers 7) (NewSession sample_timers 9)"
    unfolding linked_def by (auto intro!: NewSession_inv) (simp_all add: NewSession_def)
  show ?thesis
    using l sessions_converge [OF l, of "[1, 2, 3, 4, 5, 6]"] by (simp add: Let_def split_beta)
qed

text \<open>the detection timer of a session that heard its peer at \<open>t\<close>: within the detection
  time nothing changes; after it, an Init or Up session goes Down with diagnostic 1, falls back
  to intervals of at least a second and forgets the peer's discriminator, and the caller is told
  of the change.\<close>

theorem detection_timeout:
  assumes "lastRx s = Some t"
  shows "(now - t \<le> uint (remoteDetectMult s) * max (curRx s) (remoteDesiredTx s) \<longrightarrow>
            CheckTimeout s now = (s, False))
     \<and> (now - t > uint (remoteDetectMult s) * max (curRx s) (remoteDesiredTx s) \<longrightarrow>
            (let (s', changed) = CheckTimeout s now in
             changed = (sstate s \<in> {StateInit, StateUp})
             \<and> remoteDiscr s' = 0 \<and> remoteMinRx s' = microsecond
             \<and> (changed \<longrightarrow> sstate s' = StateDown \<and> sdiag s' = DiagTimeExpired
                   \<and> second \<le> desiredTx s' \<and> second \<le> curRx s' \<and> \<not> polling s')
             \<and> (\<not> changed \<longrightarrow> sstate s' = sstate s)))"
  using assms by (auto simp: CheckTimeout_def DetectionTime_def down_def slowTx_def Let_def)

theorem detection_timeout_witness:
  "snd (CheckTimeout ((NewSession sample_timers 7)\<lparr>sstate := StateUp, lastRx := Some 0\<rparr>) 5) = True"
  using detection_timeout [of "(NewSession sample_timers 7)\<lparr>sstate := StateUp, lastRx := Some 0\<rparr>" 0 5]
  by (simp add: NewSession_def Let_def split_beta)

end
