(* ===== verification/BFD_Manager.thy ===== *)
theory BFD_Manager
  imports Complex_Main BFD_Session
begin

text \<open>
  The session manager of \<open>pkg/network/bfd/manager_linux.go\<close>: adding, replacing and finding
  sessions, the receive path from a datagram to a session's queue, and the loop of one session
  as a step function over its events. Runs are shared between the manager's map and the
  listeners, so they live in a store and are referred to by address. Sockets, random draws and
  the clock are inputs.
\<close>

subsection \<open>Addresses and peers\<close>

text \<open>\<open>netip.Addr\<close>: the zero value, an IPv4 address, an IPv6 address with a zone.\<close>

datatype ip_addr = NoAddr | Addr4 u32 | Addr6 "128 word" string

fun Is6 :: "ip_addr \<Rightarrow> bool" where
  "Is6 (Addr6 _ _) = True"
| "Is6 _ = False"

fun Is4In6 :: "ip_addr \<Rightarrow> bool" where
  "Is4In6 (Addr6 w _) = (drop_bit 32 w = 0xffff)"
| "Is4In6 _ = False"

fun WithoutZone :: "ip_addr \<Rightarrow> ip_addr" where
  "WithoutZone (Addr6 w _) = Addr6 w []"
| "WithoutZone a = a"

record peer =
  Name :: string
  Addr :: ip_addr
  Device :: string
  Multihop :: bool
  Timers :: timers

definition portSingleHop :: nat where "portSingleHop = 3784"
definition portMultihop :: nat where "portMultihop = 4784"
definition minMultihopTTL :: int where "minMultihopTTL = 254"

record listenerKey =
  device :: string
  v6 :: bool
  port :: nat

definition keyOf :: "peer \<Rightarrow> listenerKey" where
  "keyOf p = \<lparr>device = Device p, v6 = (Is6 (Addr p) \<and> \<not> Is4In6 (Addr p)),
              port = (if Multihop p then portMultihop else portSingleHop)\<rparr>"

subsection \<open>The manager\<close>

record run =
  run_peer :: peer
  run_sess :: session
  run_rx :: "packet list"
  run_stop :: bool

text \<open>
  \<open>runs\<close> is the map by local discriminator, in the order a \<open>range\<close> visits it;
  \<open>listeners\<close> gives each open socket its runs; \<open>store\<close> holds the run objects.
\<close>

record manager =
  runs :: "(u32 \<times> nat) list"
  listeners :: "(listenerKey \<times> nat list) list"
  store :: "nat \<Rightarrow> run option"
  fresh :: nat

definition NewManager :: manager where
  "NewManager = \<lparr>runs = [], listeners = [], store = Map.empty, fresh = 0\<rparr>"

datatype bfd_error = InvalidTimers | OpenTx | OpenListener | ErrNoSession

text \<open>
  \<open>newDiscriminator\<close> draws until a value is nonzero and unused; \<open>None\<close> means that the
  given draws are used up and the loop goes on.
\<close>

fun newDiscriminator :: "u32 list \<Rightarrow> (u32 \<times> nat) list \<Rightarrow> u32 option" where
  "newDiscriminator [] rs = None"
| "newDiscriminator (d # ds) rs =
     (if d \<noteq> 0 \<and> map_of rs d = None then Some d else newDiscriminator ds rs)"

definition listen :: "manager \<Rightarrow> listenerKey \<Rightarrow> bool \<Rightarrow> bfd_error + manager" where
  "listen m key sock =
     (if map_of (listeners m) key \<noteq> None then Inr m
      else if \<not> sock then Inl OpenListener
      else Inr (m\<lparr>listeners := (key, []) # listeners m\<rparr>))"

definition add_run :: "(listenerKey \<times> nat list) list \<Rightarrow> listenerKey \<Rightarrow> nat \<Rightarrow> (listenerKey \<times> nat list) list" where
  "add_run ls key r = map (\<lambda>(k, rs). (k, if k = key then rs @ [r] else rs)) ls"

text \<open>
  \<open>Add\<close>: \<open>tx\<close> and \<open>sock\<close> say whether the send and the receive socket open. The outer
  option is the draw loop of \<open>newDiscriminator\<close>.
\<close>

definition Add :: "manager \<Rightarrow> peer \<Rightarrow> u32 list \<Rightarrow> bool \<Rightarrow> bool \<Rightarrow> (bfd_error option \<times> manager) option" where
  "Add m p draws tx sock =
     (if DetectMult (Timers p) = 0 \<or> DesiredMinTx (Timers p) \<le> 0 \<or> RequiredMinRx (Timers p) \<le> 0
      then Some (Some InvalidTimers, m)
      else case newDiscriminator draws (runs m) of
        None \<Rightarrow> None
      | Some discr \<Rightarrow>
          if \<not> tx then Some (Some OpenTx, m)
          else case listen m (keyOf p) sock of
            Inl e \<Rightarrow> Some (Some e, m)
          | Inr m' \<Rightarrow>
              let r = fresh m';
                  obj = \<lparr>run_peer = p, run_sess = NewSession (Timers p) discr, run_rx = [], run_stop = False\<rparr>
              in Some (None, m'\<lparr>listeners := add_run (listeners m') (keyOf p) r,
                                 runs := (discr, r) # runs m',
                                 store := (store m')(r \<mapsto> obj),
                                 fresh := Suc r\<rparr>))"

definition Listen :: "manager \<Rightarrow> peer \<Rightarrow> bool \<Rightarrow> bfd_error option \<times> manager" where
  "Listen m p sock = (case listen m (keyOf p) sock of Inl e \<Rightarrow> (Some e, m) | Inr m' \<Rightarrow> (None, m'))"

definition run_name :: "manager \<Rightarrow> nat \<Rightarrow> string option" where
  "run_name m r = map_option (\<lambda>o'. Name (run_peer o')) (store m r)"

text \<open>
  \<open>Replace\<close> deletes every run of that name from the map, remembers the last one the
  iteration saw, takes it off the listeners, stops it, and adds the peer under its new name and
  address.
\<close>

definition Replace :: "manager \<Rightarrow> string \<Rightarrow> string \<Rightarrow> ip_addr \<Rightarrow> u32 list \<Rightarrow> bool \<Rightarrow> bool
    \<Rightarrow> (bfd_error option \<times> manager) option" where
  "Replace m old name addr draws tx sock =
     (let hits = filter (\<lambda>(d, r). run_name m r = Some old) (runs m);
          m1 = m\<lparr>runs := filter (\<lambda>(d, r). run_name m r \<noteq> Some old) (runs m)\<rparr>
      in if hits = [] then Some (Some ErrNoSession, m1)
         else let r = snd (last hits);
                  m2 = m1\<lparr>listeners := map (\<lambda>(k, rs). (k, filter (\<lambda>x. x \<noteq> r) rs)) (listeners m1)\<rparr>
              in case store m2 r of
                   None \<Rightarrow> None
                 | Some obj \<Rightarrow>
                     let m3 = m2\<lparr>store := (store m2)(r \<mapsto> obj\<lparr>run_stop := True\<rparr>)\<rparr>
                     in Add m3 ((run_peer obj)\<lparr>Name := name, Addr := addr\<rparr>) draws tx sock)"

subsection \<open>The receive path\<close>

definition lookup :: "manager \<Rightarrow> nat list \<Rightarrow> packet \<Rightarrow> ip_addr \<Rightarrow> nat option" where
  "lookup m lruns p src =
     (if pYourDiscriminator p \<noteq> 0 then map_of (runs m) (pYourDiscriminator p)
      else find (\<lambda>r. case store m r of
                       None \<Rightarrow> False
                     | Some obj \<Rightarrow> WithoutZone (Addr (run_peer obj)) = WithoutZone src) lruns)"

text \<open>One iteration of \<open>receive\<close> after a successful read: the TTL check of RFC 5881 and
  RFC 5883, the parser, the lookup, and a send to the queue that holds 16 packets.\<close>

definition receive_one :: "manager \<Rightarrow> listenerKey \<Rightarrow> bytes \<Rightarrow> ip_addr \<Rightarrow> int \<Rightarrow> manager" where
  "receive_one m key buf src ttl =
     (if (port key = portSingleHop \<and> ttl \<noteq> 255) \<or> (port key = portMultihop \<and> ttl < minMultihopTTL) then m
      else case Parse buf of
        Some (Inr p) \<Rightarrow>
          (case map_of (listeners m) key of
             None \<Rightarrow> m
           | Some lruns \<Rightarrow>
               (case lookup m lruns p src of
                  None \<Rightarrow> m
                | Some r \<Rightarrow>
                    (case store m r of
                       None \<Rightarrow> m
                     | Some obj \<Rightarrow>
                         if length (run_rx obj) < 16
                         then m\<lparr>store := (store m)(r \<mapsto> obj\<lparr>run_rx := run_rx obj @ [p]\<rparr>)\<rparr>
                         else m)))
      | _ \<Rightarrow> m)"

subsection \<open>The loop of one session\<close>

text \<open>
  \<open>jitter\<close>: the interval less 0 to 25 percent, or less 10 to 25 percent with multiplier 1.
  \<open>rnd\<close> is the draw of \<open>rand.Float64\<close>, between 0 (included) and 1 (excluded). The
  floating-point product is modelled by exact rational arithmetic.
\<close>

definition jitter :: "duration \<Rightarrow> u8 \<Rightarrow> rat \<Rightarrow> duration" where
  "jitter iv mult rnd =
     (let lo = 3 / 4; span = (if mult = 1 then 15 / 100 else 1 / 4)
      in \<lfloor>of_int iv * (lo + rnd * span)\<rfloor>)"

datatype out = Send packet | Changed bfd_state bfd_state diag

record run_loop =
  sess :: session
  nextTx_at :: int
  detect_at :: int
  ended :: bool

definition sendNow :: "session \<Rightarrow> session \<times> out list" where
  "sendNow s = (let (p, s') = NextPacket s in (s', [Send p]))"

definition received :: "session \<Rightarrow> packet \<Rightarrow> int \<Rightarrow> session \<times> out list" where
  "received s p now =
     (let from = sstate s;
          (s1, changed) = Receive s p now;
          o1 = (if changed then [Changed from (sstate s1) (sdiag s1)] else [])
      in if changed \<or> sendFinal s1
         then let (s2, o2) = sendNow s1 in (s2, o1 @ o2)
         else (s1, o1))"

definition periodic :: "session \<Rightarrow> session \<times> out list" where
  "periodic s = (if TxInterval s > 0 then sendNow s else (s, []))"

definition nextTx :: "session \<Rightarrow> u8 \<Rightarrow> rat \<Rightarrow> duration" where
  "nextTx s mult rnd = (if TxInterval s \<le> 0 then slowTx else jitter (TxInterval s) mult rnd)"

text \<open>The events of the \<open>select\<close>: the manager stops, \<open>Replace\<close> stops the run, a packet
  from the queue, the detection timer, the transmit timer.\<close>

datatype loop_event = CtxDone | StopRun | RxPacket packet int rat | DetectTimer int | TxTimer int rat

definition rearm :: "run_loop \<Rightarrow> u8 \<Rightarrow> int \<Rightarrow> rat \<Rightarrow> run_loop" where
  "rearm l mult now rnd =
     (if TxInterval (sess l) > 0 \<and> nextTx_at l - now > TxInterval (sess l)
      then l\<lparr>nextTx_at := now + nextTx (sess l) mult rnd\<rparr> else l)"

fun loop_body :: "u8 \<Rightarrow> run_loop \<Rightarrow> loop_event \<Rightarrow> run_loop \<times> out list" where
  "loop_body mult l CtxDone =
     (let (p, s) = NextPacket (sess l)
      in (l\<lparr>sess := s, ended := True\<rparr>, [Send (p\<lparr>pState := StateAdminDown, pDiag := DiagAdminDown\<rparr>)]))"
| "loop_body mult l StopRun = (l\<lparr>ended := True\<rparr>, [])"
| "loop_body mult l (RxPacket p now rnd) =
     (let (s, os) = received (sess l) p now;
          l = rearm (l\<lparr>sess := s\<rparr>) mult now rnd
      in (l\<lparr>detect_at := now + DetectionTime s\<rparr>, os))"
| "loop_body mult l (DetectTimer now) =
     (let from = sstate (sess l);
          (s1, fired) = CheckTimeout (sess l) now;
          (s2, os) = (if fired then let (s2, o2) = sendNow s1
                                    in (s2, Changed from (sstate s1) (sdiag s1) # o2)
                      else (s1, []))
      in (l\<lparr>sess := s2, detect_at := now + hour\<rparr>, os))"
| "loop_body mult l (TxTimer now rnd) =
     (let (s, os) = periodic (sess l)
      in (l\<lparr>sess := s, nextTx_at := now + nextTx s mult rnd\<rparr>, os))"

definition loop_step :: "u8 \<Rightarrow> run_loop \<Rightarrow> loop_event \<Rightarrow> run_loop \<times> out list" where
  "loop_step mult l e = (if ended l then (l, []) else loop_body mult l e)"

subsection \<open>Histories of a manager and their invariant\<close>

datatype manager_op = OpAdd peer "u32 list" bool bool
  | OpReplace string string ip_addr "u32 list" bool bool
  | OpListen peer bool
  | OpDatagram listenerKey bytes ip_addr int

definition applied :: "manager \<Rightarrow> (bfd_error option \<times> manager) option \<Rightarrow> manager" where
  "applied m r = (case r of None \<Rightarrow> m | Some (_, m') \<Rightarrow> m')"

fun manager_step :: "manager \<Rightarrow> manager_op \<Rightarrow> manager" where
  "manager_step m (OpAdd p ds tx sock) = applied m (Add m p ds tx sock)"
| "manager_step m (OpReplace old nm a ds tx sock) = applied m (Replace m old nm a ds tx sock)"
| "manager_step m (OpListen p sock) = snd (Listen m p sock)"
| "manager_step m (OpDatagram k b src ttl) = receive_one m k b src ttl"

definition runs_inv :: "manager \<Rightarrow> bool" where
  "runs_inv m \<longleftrightarrow> distinct (map fst (runs m)) \<and>
     (\<forall>d r. (d, r) \<in> set (runs m) \<longrightarrow>
        d \<noteq> 0 \<and> (\<exists>obj. store m r = Some obj \<and> localDiscr (run_sess obj) = d))"

definition store_inv :: "manager \<Rightarrow> bool" where
  "store_inv m \<longleftrightarrow> (\<forall>r obj. store m r = Some obj \<longrightarrow>
     r < fresh m \<and> length (run_rx obj) \<le> 16 \<and> (\<forall>p \<in> set (run_rx obj). wire_valid p))"

definition listeners_inv :: "manager \<Rightarrow> bool" where
  "listeners_inv m \<longleftrightarrow> distinct (map fst (listeners m)) \<and>
     (\<forall>k rs r. (k, rs) \<in> set (listeners m) \<longrightarrow> r \<in> set rs \<longrightarrow>
        (\<exists>obj. store m r = Some obj \<and> keyOf (run_peer obj) = k))"

definition manager_inv :: "manager \<Rightarrow> bool" where
  "manager_inv m \<longleftrightarrow> runs_inv m \<and> store_inv m \<and> listeners_inv m"

lemmas manager_inv_defs = manager_inv_def runs_inv_def store_inv_def listeners_inv_def

lemma NewManager_inv [inv_intros]: "manager_inv NewManager"
  by (simp add: manager_inv_defs NewManager_def)

lemma newDiscriminator_fresh:
  "newDiscriminator ds rs = Some d \<Longrightarrow> d \<noteq> 0 \<and> d \<notin> fst ` set rs"
  by (induction ds rs rule: newDiscriminator.induct) (auto simp: map_of_eq_None_iff split: if_splits)

lemma newDiscriminator_finds:
  "\<exists>d \<in> set ds. d \<noteq> 0 \<and> d \<notin> fst ` set rs \<Longrightarrow> \<exists>d. newDiscriminator ds rs = Some d"
  by (induction ds rs rule: newDiscriminator.induct) (auto simp: map_of_eq_None_iff)

lemma inv_cong:
  "runs m' = runs m \<Longrightarrow> store m' = store m \<Longrightarrow> runs_inv m' = runs_inv m"
  "store m' = store m \<Longrightarrow> fresh m' = fresh m \<Longrightarrow> store_inv m' = store_inv m"
  by (simp_all add: runs_inv_def store_inv_def)

lemma listen_frame: "listen m k sock = Inr m' \<Longrightarrow> runs m' = runs m \<and> store m' = store m \<and> fresh m' = fresh m"
  by (auto simp: listen_def split: if_splits)

lemma listen_inv:
  assumes "manager_inv m" "listen m k sock = Inr m'"
  shows "manager_inv m'"
proof -
  have "listeners_inv m'"
    using assms by (auto simp: manager_inv_def listeners_inv_def listen_def map_of_eq_None_iff split: if_splits)
  then show ?thesis
    using assms(1) listen_frame [OF assms(2)] inv_cong [of m' m] by (simp add: manager_inv_def)
qed

lemma map_fst_add_run [simp]: "map fst (add_run ls k r) = map fst ls"
  by (simp add: add_run_def o_def split_beta)

lemma add_run_member: "(k', rs) \<in> set (add_run ls k r) \<Longrightarrow> r' \<in> set rs \<Longrightarrow>
    (k' = k \<and> r' = r) \<or> (\<exists>rs'. (k', rs') \<in> set ls \<and> r' \<in> set rs')"
  by (auto simp: add_run_def split: if_splits)

lemma store_fresh: "store_inv m \<Longrightarrow> store m (fresh m) = None"
  by (cases "store m (fresh m)") (auto simp: store_inv_def)

lemma insert_run_inv:
  fixes obj :: run
  assumes inv: "manager_inv m" and d: "d \<noteq> 0" "d \<notin> fst ` set (runs m)" "localDiscr (run_sess obj) = d"
    and rx: "run_rx obj = []"
  defines "m' \<equiv> m\<lparr>listeners := add_run (listeners m) (keyOf (run_peer obj)) (fresh m),
      runs := (d, fresh m) # runs m, store := (store m)(fresh m \<mapsto> obj), fresh := Suc (fresh m)\<rparr>"
  shows "manager_inv m'"
proof -
  have old: "store m (fresh m) = None"
    using inv by (simp add: manager_inv_def store_fresh)
  have "runs_inv m'"
    unfolding runs_inv_def
  proof (intro conjI allI impI)
    show "distinct (map fst (runs m'))"
      using inv d by (simp add: manager_inv_def runs_inv_def m'_def)
  next
    fix d' r assume a: "(d', r) \<in> set (runs m')"
    then consider "d' = d" "r = fresh m" | "(d', r) \<in> set (runs m)"
      by (auto simp: m'_def)
    then show "d' \<noteq> 0" "\<exists>obj. store m' r = Some obj \<and> localDiscr (run_sess obj) = d'"
      using inv d old by (cases; force simp: manager_inv_def runs_inv_def m'_def)+
  qed
  moreover have "store_inv m'"
    using inv rx by (auto simp: manager_inv_def store_inv_def m'_def less_Suc_eq)
  moreover have "listeners_inv m'"
    unfolding listeners_inv_def
  proof (intro conjI allI impI)
    show "distinct (map fst (listeners m'))"
      using inv by (simp add: manager_inv_def listeners_inv_def m'_def)
  next
    fix k rs r assume a: "(k, rs) \<in> set (listeners m')" "r \<in> set rs"
    then consider "k = keyOf (run_peer obj)" "r = fresh m" | rs' where "(k, rs') \<in> set (listeners m)" "r \<in> set rs'"
      unfolding m'_def by (auto dest!: add_run_member)
    then show "\<exists>obj. store m' r = Some obj \<and> keyOf (run_peer obj) = k"
    proof cases
      case 2
      then obtain o' where "store m r = Some o'" "keyOf (run_peer o') = k"
        using inv unfolding manager_inv_def listeners_inv_def by blast
      with old show ?thesis
        by (auto simp: m'_def)
    qed (simp add: m'_def)
  qed
  ultimately show ?thesis
    by (simp add: manager_inv_def)
qed

lemma Add_inv: "manager_inv m \<Longrightarrow> manager_inv (applied m (Add m p ds tx sock))"
proof -
  assume inv: "manager_inv m"
  have "manager_inv (m'\<lparr>listeners := add_run (listeners m') (keyOf p) (fresh m'),
      runs := (d, fresh m') # runs m',
      store := (store m')(fresh m' \<mapsto> \<lparr>run_peer = p, run_sess = NewSession (Timers p) d,
         run_rx = [], run_stop = False\<rparr>), fresh := Suc (fresh m')\<rparr>)"
    if "newDiscriminator ds (runs m) = Some d" "listen m (keyOf p) sock = Inr m'" for d m'
    using newDiscriminator_fresh [OF that(1)] listen_frame [OF that(2)] listen_inv [OF inv that(2)]
      insert_run_inv [of m' d "\<lparr>run_peer = p, run_sess = NewSession (Timers p) d, run_rx = [], run_stop = False\<rparr>"]
    by (simp add: NewSession_def)
  with inv show ?thesis
    by (auto simp: Add_def applied_def Let_def split: option.splits sum.splits)
qed

lemma Listen_inv: "manager_inv m \<Longrightarrow> manager_inv (snd (Listen m p sock))"
  by (auto simp: Listen_def listen_inv split: sum.splits)

lemma update_run_inv:
  assumes "manager_inv m" "store m r = Some obj" "run_peer obj' = run_peer obj"
    "localDiscr (run_sess obj') = localDiscr (run_sess obj)"
    "length (run_rx obj') \<le> 16" "\<forall>p \<in> set (run_rx obj'). wire_valid p"
  shows "manager_inv (m\<lparr>store := (store m)(r \<mapsto> obj')\<rparr>)"
  using assms unfolding manager_inv_defs by (auto simp: Ball_def) (metis option.inject)+

definition ttl_ok :: "listenerKey \<Rightarrow> int \<Rightarrow> bool" where
  "ttl_ok key ttl \<longleftrightarrow> (port key = portSingleHop \<longrightarrow> ttl = 255) \<and> (port key = portMultihop \<longrightarrow> 254 \<le> ttl)"

lemma receive_one_cases:
  obtains "receive_one m key buf src ttl = m"
  | p lruns r obj where "ttl_ok key ttl" "Parse buf = Some (Inr p)" "map_of (listeners m) key = Some lruns"
      "lookup m lruns p src = Some r" "store m r = Some obj" "length (run_rx obj) < 16"
      "receive_one m key buf src ttl = m\<lparr>store := (store m)(r \<mapsto> obj\<lparr>run_rx := run_rx obj @ [p]\<rparr>)\<rparr>"
proof (cases "receive_one m key buf src ttl = m")
  case False
  then have t: "ttl_ok key ttl"
    by (auto simp: receive_one_def ttl_ok_def minMultihopTTL_def split: if_splits)
  obtain p where p: "Parse buf = Some (Inr p)"
    using False by (auto simp: receive_one_def split: if_splits option.splits sum.splits)
  obtain lruns where l: "map_of (listeners m) key = Some lruns"
    using False p by (auto simp: receive_one_def split: if_splits option.splits)
  obtain r where r: "lookup m lruns p src = Some r"
    using False p l by (auto simp: receive_one_def split: if_splits option.splits)
  obtain obj where ob: "store m r = Some obj"
    using False p l r by (auto simp: receive_one_def split: if_splits option.splits)
  from False p l r ob have "length (run_rx obj) < 16"
    "receive_one m key buf src ttl = m\<lparr>store := (store m)(r \<mapsto> obj\<lparr>run_rx := run_rx obj @ [p]\<rparr>)\<rparr>"
    by (auto simp: receive_one_def split: if_splits)
  with t p l r ob that(2) show ?thesis
    by blast
qed (rule that(1))

lemma receive_one_inv: "manager_inv m \<Longrightarrow> manager_inv (receive_one m k b src ttl)"
proof (cases rule: receive_one_cases [of m k b src ttl])
  case (2 p lruns r obj)
  assume inv: "manager_inv m"
  then have "\<forall>q \<in> set (run_rx obj). wire_valid q"
    using 2(5) unfolding manager_inv_def store_inv_def by blast
  with inv 2 Parse_accepts(1) [OF 2(2)] show ?thesis
    by (auto intro!: update_run_inv)
qed simp

lemma drop_runs_inv: "manager_inv m \<Longrightarrow> manager_inv (m\<lparr>runs := filter P (runs m)\<rparr>)"
  by (auto simp: manager_inv_defs distinct_map_filter)

lemma unlist_inv:
  "manager_inv m \<Longrightarrow> manager_inv (m\<lparr>listeners := map (\<lambda>(k, rs). (k, filter P rs)) (listeners m)\<rparr>)"
  by (auto simp: manager_inv_defs o_def split_beta)

lemma retire_run_inv:
  assumes "manager_inv m" "store m r = Some obj"
  shows "manager_inv (m\<lparr>listeners := map (\<lambda>(k, rs). (k, filter P rs)) (listeners m),
    store := (store m)(r \<mapsto> obj\<lparr>run_stop := True\<rparr>)\<rparr>)"
proof -
  have "length (run_rx obj) \<le> 16" "\<forall>p \<in> set (run_rx obj). wire_valid p"
    using assms unfolding manager_inv_def store_inv_def by blast+
  then show ?thesis
    using unlist_inv [OF assms(1), of P] assms(2)
    by (intro update_run_inv [of "m\<lparr>listeners := map (\<lambda>(k, rs). (k, filter P rs)) (listeners m)\<rparr>" r obj, simplified]) auto
qed

lemma Add_Some_inv: "manager_inv m \<Longrightarrow> Add m p ds tx sock = Some (e, m') \<Longrightarrow> manager_inv m'"
  using Add_inv [of m p ds tx sock] by (simp add: applied_def)

lemma Replace_inv:
  assumes "manager_inv m"
  shows "manager_inv (applied m (Replace m old nm a ds tx sock))"
proof (cases "Replace m old nm a ds tx sock")
  case (Some r)
  define m1 where "m1 = m\<lparr>runs := filter (\<lambda>(d, r). run_name m r \<noteq> Some old) (runs m)\<rparr>"
  have m1: "manager_inv m1"
    unfolding m1_def using assms by (rule drop_runs_inv)
  show ?thesis
    using Some m1
    by (auto simp: Replace_def Let_def applied_def m1_def [symmetric]
        split: if_splits option.splits prod.splits intro: Add_Some_inv [OF retire_run_inv [OF m1]])
qed (simp add: applied_def assms)

lemma manager_step_inv: "manager_inv m \<Longrightarrow> manager_inv (manager_step m op)"
  by (cases op) (simp_all add: Add_inv Replace_inv Listen_inv receive_one_inv)

interpretation bfd_manager: invariant_machine manager_step manager_inv
  by unfold_locales (rule manager_step_inv)

subsection \<open>Facts on the loop\<close>

lemma jitter_bounds:
  assumes "0 \<le> iv" "0 \<le> rnd" "rnd < 1"
  shows "jitter iv mult rnd \<le> iv" "3 * iv < 4 * (jitter iv mult rnd + 1)"
proof -
  let ?f = "3 / 4 + rnd * (if mult = 1 then 15 / 100 else 1 / 4) :: rat"
  have f: "3 / 4 \<le> ?f" "?f \<le> 1"
    using assms by auto
  have iv: "(0::rat) \<le> of_int iv"
    using assms(1) by simp
  have "of_int iv * ?f \<le> of_int iv * 1"
    using iv f by (intro mult_left_mono) auto
  then show "jitter iv mult rnd \<le> iv"
    by (simp add: jitter_def Let_def floor_le_iff del: mult_1_right)
  have "of_int iv * (3 / 4) \<le> of_int iv * ?f"
    using iv f by (intro mult_left_mono) auto
  moreover have "of_int iv * ?f < of_int (jitter iv mult rnd) + 1"
    using floor_correct [of "of_int iv * ?f"] unfolding jitter_def Let_def by simp
  ultimately have "of_int (3 * iv) < (of_int (4 * (jitter iv mult rnd + 1)) :: rat)"
    by simp
  then show "3 * iv < 4 * (jitter iv mult rnd + 1)"
    by (simp only: of_int_less_iff)
qed

lemma TxInterval_sendFinal [simp]: "TxInterval (s\<lparr>sendFinal := b\<rparr>) = TxInterval s"
  by (simp add: TxInterval_def)

lemma nextTx_le:
  "0 < TxInterval s \<Longrightarrow> 0 \<le> rnd \<Longrightarrow> rnd < 1 \<Longrightarrow> nextTx s mult rnd \<le> TxInterval s"
  using jitter_bounds(1) [of "TxInterval s" rnd mult] by (simp add: nextTx_def)

lemma Receive_sendFinal_cleared: "sendFinal (fst (sendNow s)) = False"
  by (simp add: sendNow_def split_beta Let_def NextPacket_fields)

lemma received_outputs:
  fixes now :: int
  defines "R s p \<equiv> Receive s p now"
  shows "snd (received s p now) =
     (if snd (R s p) then [Changed (sstate s) (sstate (fst (R s p))) (sdiag (fst (R s p)))] else [])
     @ (if snd (R s p) \<or> sendFinal (fst (R s p)) then [Send (fst (NextPacket (fst (R s p))))] else [])"
    "sendFinal (fst (received s p now)) = False"
  by (simp_all add: received_def sendNow_def split_beta Let_def R_def NextPacket_fields)

subsection \<open>Properties\<close>

text \<open>C8: in any history of a manager, a datagram changes the manager only when its TTL passes
  the check of its port and \<open>Parse\<close> accepts it; then exactly one session gets the packet at the
  end of its queue: the session whose local discriminator the packet names, or, when it names
  none, a session of that receive socket whose peer has the source address.\<close>

theorem datagram_routing:
  fixes ops key buf src ttl
  defines "m \<equiv> foldl manager_step NewManager ops"
  assumes "receive_one m key buf src ttl \<noteq> m"
  shows "\<exists>p r obj. ttl_ok key ttl \<and> Parse buf = Some (Inr p) \<and> store m r = Some obj
     \<and> receive_one m key buf src ttl = m\<lparr>store := (store m)(r \<mapsto> obj\<lparr>run_rx := run_rx obj @ [p]\<rparr>)\<rparr>
     \<and> length (run_rx obj) < 16
     \<and> (if pYourDiscriminator p \<noteq> 0 then localDiscr (run_sess obj) = pYourDiscriminator p
        else WithoutZone (Addr (run_peer obj)) = WithoutZone src \<and> keyOf (run_peer obj) = key)"
proof (cases rule: receive_one_cases [of m key buf src ttl])
  case 1
  with assms show ?thesis by simp
next
  case (2 p lruns r obj)
  have inv: "manager_inv m"
    unfolding m_def by (intro bfd_manager.run_inv NewManager_inv)
  have "if pYourDiscriminator p \<noteq> 0 then localDiscr (run_sess obj) = pYourDiscriminator p
        else WithoutZone (Addr (run_peer obj)) = WithoutZone src \<and> keyOf (run_peer obj) = key"
  proof (cases "pYourDiscriminator p = 0")
    case True
    then have "find (\<lambda>r. case store m r of None \<Rightarrow> False
        | Some obj \<Rightarrow> WithoutZone (Addr (run_peer obj)) = WithoutZone src) lruns = Some r"
      using 2(4) by (simp add: lookup_def)
    then have "r \<in> set lruns" "WithoutZone (Addr (run_peer obj)) = WithoutZone src"
      using 2(5) by (auto simp: find_Some_iff)
    then show ?thesis
      using True inv 2(3,5) map_of_SomeD [OF 2(3)] unfolding manager_inv_def listeners_inv_def by fastforce
  next
    case False
    then have "(pYourDiscriminator p, r) \<in> set (runs m)"
      using 2(4) by (auto simp: lookup_def dest: map_of_SomeD)
    with False show ?thesis
      using inv 2(5) unfolding manager_inv_def runs_inv_def by fastforce
  qed
  with 2 show ?thesis by blast
qed

definition sample_peer :: peer where
  "sample_peer = \<lparr>Name = ''leaf1'', Addr = Addr4 0x0a000001, Device = ''eth0'', Multihop = False, Timers = sample_timers\<rparr>"

theorem datagram_routing_witness:
  "\<exists>p r obj. Parse (Marshal (sample_packet\<lparr>pYourDiscriminator := 5\<rparr>)) = Some (Inr p)
     \<and> store (foldl manager_step NewManager [OpAdd sample_peer [0, 5] True True]) r = Some obj
     \<and> localDiscr (run_sess obj) = pYourDiscriminator p"
proof -
  let ?q = "sample_packet\<lparr>pYourDiscriminator := 5\<rparr>"
  let ?m = "foldl manager_step NewManager [OpAdd sample_peer [0, 5] True True]"
  have "wire_valid ?q"
    by (simp add: wire_valid_def sample_packet_def)
  from Parse_Marshal [OF this, of "[]"] have q: "Parse (Marshal ?q) = Some (Inr ?q)"
    by simp
  have m: "?m = \<lparr>runs = [(5, 0)], listeners = [(keyOf sample_peer, [0])],
      store = [0 \<mapsto> \<lparr>run_peer = sample_peer, run_sess = NewSession sample_timers 5, run_rx = [], run_stop = False\<rparr>],
      fresh = 1\<rparr>"
    by (simp add: NewManager_def Add_def applied_def listen_def add_run_def sample_peer_def sample_timers_def Let_def)
  have "receive_one ?m (keyOf sample_peer) (Marshal ?q) (Addr4 0x0a000001) 255 \<noteq> ?m"
    unfolding m receive_one_def q
    by (simp add: keyOf_def sample_peer_def portSingleHop_def portMultihop_def lookup_def sample_packet_def fun_eq_iff)
  from datagram_routing [OF this] show ?thesis
    using q by (auto simp: sample_packet_def)
qed

text \<open>C9: the session loop answers at once and keeps its pace: after a packet, a state change
  or a pending Poll is answered by exactly one packet and no Final stays pending; and after any
  received packet and any transmit timer the next periodic packet is due within the transmit
  interval in force.\<close>

theorem loop_answers_in_time:
  assumes "\<not> ended l" and "0 \<le> rnd" and "rnd < 1"
  shows "(let (l', os) = loop_step mult l (RxPacket p now rnd); (s1, changed) = Receive (sess l) p now in
       \<not> sendFinal (sess l')
       \<and> length (filter (\<lambda>x. \<exists>q. x = Send q) os) = (if changed \<or> sendFinal s1 then 1 else 0)
       \<and> (0 < TxInterval (sess l') \<longrightarrow> nextTx_at l' - now \<le> TxInterval (sess l')))
    \<and> (let (l', os) = loop_step mult l (TxTimer now rnd) in
       0 < TxInterval (sess l') \<longrightarrow> nextTx_at l' - now \<le> TxInterval (sess l') \<and> (\<exists>q. os = [Send q]))"
proof -
  have le: "0 < TxInterval s \<Longrightarrow> nextTx s mult rnd \<le> TxInterval s" for s
    using nextTx_le assms by blast
  have "let (l', os) = loop_step mult l (RxPacket p now rnd); (s1, changed) = Receive (sess l) p now in
       \<not> sendFinal (sess l')
       \<and> length (filter (\<lambda>x. \<exists>q. x = Send q) os) = (if changed \<or> sendFinal s1 then 1 else 0)
       \<and> (0 < TxInterval (sess l') \<longrightarrow> nextTx_at l' - now \<le> TxInterval (sess l'))"
    using assms(1) le by (auto simp: loop_step_def split_beta Let_def rearm_def received_outputs)
  moreover have "let (l', os) = loop_step mult l (TxTimer now rnd) in
       0 < TxInterval (sess l') \<longrightarrow> nextTx_at l' - now \<le> TxInterval (sess l') \<and> (\<exists>q. os = [Send q])"
    using assms(1) le
    by (auto simp: loop_step_def split_beta Let_def periodic_def sendNow_def NextPacket_fields)
  ultimately show ?thesis by blast
qed

theorem loop_answers_in_time_witness:
  "let l = \<lparr>sess = NewSession sample_timers 7, nextTx_at = hour, detect_at = hour, ended = False\<rparr>;
       (l', os) = loop_step 3 l (TxTimer 0 (1/2)) in
     nextTx_at l' \<le> second \<and> nextTx_at l' = 875 * millisecond"
proof -
  let ?l = "\<lparr>sess = NewSession sample_timers 7, nextTx_at = hour, detect_at = hour, ended = False\<rparr>"
  have "TxInterval (NewSession sample_timers 7) = second"
    by (simp add: TxInterval_def NewSession_def sample_timers_def slowTx_def)
  then show ?thesis
    using loop_answers_in_time [of ?l "1/2" 3 sample_packet 0]
    by (simp add: loop_step_def Let_def split_beta periodic_def sendNow_def nextTx_def jitter_def NextPacket_fields
        TxInterval_def NewSession_def go_div_def)
qed

text \<open>C10: the shutdown of the manager takes the peer down: the loop ends with exactly one
  packet, the peer's \<open>Parse\<close> accepts it, and a peer session of the link goes to Down at once,
  before its detection time; the ended loop sends nothing more.\<close>

theorem shutdown_tells_peer:
  assumes "linked (sess l) peer" and "\<not> ended l"
  shows "\<exists>l' p. loop_step mult l CtxDone = (l', [Send p]) \<and> Parse (Marshal p) = Some (Inr p)
     \<and> sstate (fst (Receive peer p now)) = StateDown
     \<and> (\<forall>e. loop_step mult l' e = (l', []))"
proof -
  let ?p = "(fst (NextPacket (sess l)))\<lparr>pState := StateAdminDown, pDiag := DiagAdminDown\<rparr>"
  have l: "loop_step mult l CtxDone = (l\<lparr>sess := snd (NextPacket (sess l)), ended := True\<rparr>, [Send ?p])"
    using assms(2) by (simp add: loop_step_def split_beta Let_def)
  from assms(1) have inv: "session_inv (sess l)" "sstate peer \<noteq> StateAdminDown"
    "pYourDiscriminator ?p \<in> {0, localDiscr peer}"
    by (auto simp: linked_def session_inv_def Let_def NextPacket_fields)
  have "wire_valid ?p"
    using NextPacket_valid [OF inv(1)] by (simp add: wire_valid_def DiagAdminDown_def)
  from Parse_Marshal [OF this, of "[]"] have "Parse (Marshal ?p) = Some (Inr ?p)" by simp
  moreover have "sstate (fst (Receive peer ?p now)) = StateDown"
    using Receive_linked(1) [OF inv(2,3)] inv(2) by (cases "sstate peer") simp_all
  ultimately show ?thesis
    using l by (force simp: loop_step_def)
qed

theorem shutdown_tells_peer_witness:
  "\<exists>l' p. loop_step 3 \<lparr>sess = NewSession sample_timers 7, nextTx_at = 0, detect_at = hour, ended = False\<rparr> CtxDone
       = (l', [Send p]) \<and> sstate (fst (Receive (NewSession sample_timers 9) p 0)) = StateDown"
proof -
  have "linked (NewSession sample_timers 7) (NewSession sample_timers 9)"
    using NewSession_inv [of sample_timers 7] NewSession_inv [of sample_timers 9]
    by (simp add: linked_def) (simp add: NewSession_def)
  then show ?thesis
    using shutdown_tells_peer [of "\<lparr>sess = NewSession sample_timers 7, nextTx_at = 0, detect_at = hour, ended = False\<rparr>"
        "NewSession sample_timers 9" 3 0]
    by fastforce
qed

end
