(* ===== verification/Watchdog.thy ===== *)
theory Watchdog
  imports Prelude
begin

text \<open>
  The hardware watchdog of a run (package watchdog): the Linux character device and the BMC
  timer behind the interface \<open>Device\<close>, the supervisor that pets the device while the active
  step makes progress, and the global tracker that the provisioning steps call.

  A device is its Go fields plus the log of what it wrote to the hardware. The outcome of an
  I/O operation is an argument (\<open>True\<close> the operation succeeded). \<open>Tick\<close> of the source runs
  \<open>check\<close> under the lock and pets after the lock is released; a history therefore has one
  event for each half, so that \<open>Handoff\<close> can come between them.
\<close>

subsection \<open>Devices\<close>

datatype errno = ENOENT | EOTHER

datatype wd_error = ErrClosed | ErrNoDevice | ErrIO | ErrOpen errno | ErrTimeout "errno option"
  | ErrJoin "wd_error list"

text \<open>What reaches the hardware: a byte written to the device file, the close of the file, an
  IPMI command with its function, command byte and data.\<close>

datatype wd_io = WriteByte char | CloseFile | Ipmi u8 u8 bytes

record 'd device_ops =
  dev_name :: "'d \<Rightarrow> string"
  dev_timeout :: "'d \<Rightarrow> duration"
  dev_keepalive :: "'d \<Rightarrow> bool \<Rightarrow> 'd \<times> wd_error option"
  dev_stop :: "'d \<Rightarrow> bool \<Rightarrow> bool \<Rightarrow> 'd \<times> wd_error option"
  dev_release :: "'d \<Rightarrow> bool \<Rightarrow> 'd \<times> wd_error option"

definition magicClose :: char where "magicClose = CHR ''V''"
definition keepaliveByte :: char where "keepaliveByte = CHR 0x0A"

record fileDevice =
  fpath :: string
  ftimeout :: duration
  f_open :: bool
  f_log :: "wd_io list"

definition file_keepalive :: "fileDevice \<Rightarrow> bool \<Rightarrow> fileDevice \<times> wd_error option" where
  "file_keepalive d ok =
     (if \<not> f_open d then (d, Some ErrClosed)
      else (d\<lparr>f_log := f_log d @ [WriteByte keepaliveByte]\<rparr>, if ok then None else Some ErrIO))"

definition file_stop :: "fileDevice \<Rightarrow> bool \<Rightarrow> bool \<Rightarrow> fileDevice \<times> wd_error option" where
  "file_stop d wok cok =
     (if \<not> f_open d then (d, None)
      else (d\<lparr>f_log := f_log d @ [WriteByte magicClose, CloseFile], f_open := False\<rparr>,
            if wok \<and> cok then None else Some ErrIO))"

definition file_release :: "fileDevice \<Rightarrow> bool \<Rightarrow> fileDevice \<times> wd_error option" where
  "file_release d cok =
     (if \<not> f_open d then (d, None)
      else (d\<lparr>f_log := f_log d @ [CloseFile], f_open := False\<rparr>, if cok then None else Some ErrIO))"

definition file_ops :: "fileDevice device_ops" where
  "file_ops = \<lparr>dev_name = fpath, dev_timeout = ftimeout, dev_keepalive = file_keepalive,
               dev_stop = file_stop, dev_release = file_release\<rparr>"

text \<open>\<open>openDevice\<close>: what the system answers to the open and to the ioctl of a path is an
  argument. The result carries the writes to the file, also on failure.\<close>

record wd_sys =
  sys_open :: "errno option"
  sys_timeout :: "errno + int"

definition openDevice :: "string \<Rightarrow> wd_sys \<Rightarrow> (wd_error \<times> wd_io list) + fileDevice" where
  "openDevice path sys =
     (case sys_open sys of
        Some e \<Rightarrow> Inl (ErrOpen e, [])
      | None \<Rightarrow>
         (case sys_timeout sys of
            Inl e \<Rightarrow> Inl (ErrTimeout (Some e), [WriteByte magicClose, CloseFile])
          | Inr applied \<Rightarrow>
              if applied \<le> 0 then Inl (ErrTimeout None, [WriteByte magicClose, CloseFile])
              else Inr \<lparr>fpath = path, ftimeout = applied * second, f_open = True, f_log = []\<rparr>))"

definition is_not_exist :: "wd_error \<Rightarrow> bool" where
  "is_not_exist e = (e = ErrOpen ENOENT \<or> e = ErrTimeout (Some ENOENT))"

fun open_first :: "string list \<Rightarrow> (string \<Rightarrow> wd_sys) \<Rightarrow> wd_error list \<Rightarrow> wd_error + fileDevice" where
  "open_first [] sys errs = Inl (if errs = [] then ErrNoDevice else ErrJoin errs)"
| "open_first (path # paths) sys errs =
     (case openDevice path (sys path) of
        Inr dev \<Rightarrow> Inr dev
      | Inl (e, _) \<Rightarrow> open_first paths sys (if is_not_exist e then errs else errs @ [e]))"

definition OpenFirst :: "string list \<Rightarrow> (string \<Rightarrow> wd_sys) \<Rightarrow> wd_error + fileDevice" where
  "OpenFirst paths sys = open_first paths sys []"

text \<open>The BMC watchdog and its IPMI commands.\<close>

record bmcDevice =
  btimeout :: duration
  b_log :: "wd_io list"

definition MaxWatchdogTimeout :: duration where "MaxWatchdogTimeout = 0xffff * 100 * millisecond"

definition netFnApp :: u8 where "netFnApp = 0x06"
definition cmdResetWatchdog :: u8 where "cmdResetWatchdog = 0x22"
definition cmdSetWatchdog :: u8 where "cmdSetWatchdog = 0x24"
definition watchdogUseSMSOS :: u8 where "watchdogUseSMSOS = 0x04"
definition watchdogActionNone :: u8 where "watchdogActionNone = 0x00"
definition watchdogActionReset :: u8 where "watchdogActionReset = 0x01"
definition watchdogClearSMSOS :: u8 where "watchdogClearSMSOS = 0x10"

definition setWatchdog :: "u8 \<Rightarrow> duration \<Rightarrow> wd_io" where
  "setWatchdog action timeout =
     (let count = word_of_int (go_div timeout (100 * millisecond)) :: u16
      in Ipmi netFnApp cmdSetWatchdog
           [watchdogUseSMSOS, action, 0, watchdogClearSMSOS, ucast count, ucast (drop_bit 8 count)])"

definition ResetWatchdog :: wd_io where
  "ResetWatchdog = Ipmi netFnApp cmdResetWatchdog []"

definition StopWatchdog :: wd_io where
  "StopWatchdog = setWatchdog watchdogActionNone MaxWatchdogTimeout"

definition SetWatchdog :: "duration \<Rightarrow> bool \<Rightarrow> bool \<Rightarrow> wd_error option \<times> wd_io list" where
  "SetWatchdog timeout ok1 ok2 =
     (if timeout \<le> 0 \<or> timeout > MaxWatchdogTimeout then (Some ErrIO, [])
      else if \<not> ok1 then (Some ErrIO, [setWatchdog watchdogActionReset timeout])
      else (if ok2 then None else Some ErrIO, [setWatchdog watchdogActionReset timeout, ResetWatchdog]))"

definition OpenBMC :: "duration \<Rightarrow> bool \<Rightarrow> bool \<Rightarrow> wd_error + bmcDevice" where
  "OpenBMC timeout ok1 ok2 =
     (case SetWatchdog timeout ok1 ok2 of
        (Some e, _) \<Rightarrow> Inl e
      | (None, cmds) \<Rightarrow> Inr \<lparr>btimeout = timeout, b_log = cmds\<rparr>)"

definition bmc_keepalive :: "bmcDevice \<Rightarrow> bool \<Rightarrow> bmcDevice \<times> wd_error option" where
  "bmc_keepalive d ok = (d\<lparr>b_log := b_log d @ [ResetWatchdog]\<rparr>, if ok then None else Some ErrIO)"

definition bmc_stop :: "bmcDevice \<Rightarrow> bool \<Rightarrow> bool \<Rightarrow> bmcDevice \<times> wd_error option" where
  "bmc_stop d ok _ = (d\<lparr>b_log := b_log d @ [StopWatchdog]\<rparr>, if ok then None else Some ErrIO)"

definition bmc_release :: "bmcDevice \<Rightarrow> bool \<Rightarrow> bmcDevice \<times> wd_error option" where
  "bmc_release d _ = (d, None)"

definition bmc_ops :: "bmcDevice device_ops" where
  "bmc_ops = \<lparr>dev_name = (\<lambda>_. ''ipmi-bmc''), dev_timeout = btimeout, dev_keepalive = bmc_keepalive,
              dev_stop = bmc_stop, dev_release = bmc_release\<rparr>"

subsection \<open>The supervisor\<close>

definition DefaultStepBudgets :: "(string \<times> duration) list" where
  "DefaultStepBudgets =
     [(''wipe-disks'', 48 * hour), (''decommission-wipe'', 48 * hour),
      (''collect-firmware'', hour), (''setup-mellanox'', hour), (''setup-raid'', hour),
      (''setup-nvme-namespaces'', hour), (''apply-partition-layout'', hour), (''grow-partition'', hour),
      (''stream-image'', hour), (''mirror-root'', hour), (''check-filesystem'', hour),
      (''resize-filesystem'', hour), (''run-machine-commands'', hour), (''run-post-provision-cmds'', hour)]"

record 'd supervisor =
  wdev :: 'd
  winterval :: duration
  wdefault :: duration
  wbudgets :: "string \<Rightarrow> duration option"
  wstep :: string
  wlast :: "int option"
  wstalled :: bool
  wclosed :: bool

definition NewSupervisor ::
    "'d device_ops \<Rightarrow> 'd \<Rightarrow> duration \<Rightarrow> (string \<times> duration) list \<Rightarrow> 'd supervisor" where
  "NewSupervisor ops dev budget budgets =
     \<lparr>wdev = dev, winterval = max (go_div (dev_timeout ops dev) 3) second,
      wdefault = (if budget \<le> 0 then dev_timeout ops dev else budget),
      wbudgets = map_of DefaultStepBudgets ++ map_of budgets,
      wstep = '''', wlast = None, wstalled = False, wclosed = False\<rparr>"

definition wd_Step :: "'d supervisor \<Rightarrow> string \<Rightarrow> int \<Rightarrow> 'd supervisor" where
  "wd_Step s name now = s\<lparr>wstep := name, wlast := Some now\<rparr>"

definition wd_Progress :: "'d supervisor \<Rightarrow> int \<Rightarrow> 'd supervisor" where
  "wd_Progress s now = s\<lparr>wlast := Some now\<rparr>"

definition wd_Idle :: "'d supervisor \<Rightarrow> int \<Rightarrow> 'd supervisor" where
  "wd_Idle s now = s\<lparr>wstep := '''', wlast := Some now\<rparr>"

definition budget :: "'d supervisor \<Rightarrow> string \<Rightarrow> duration" where
  "budget s st = (case wbudgets s st of Some b \<Rightarrow> b | None \<Rightarrow> wdefault s)"

text \<open>\<open>Time.Sub\<close> of the zero time saturates at the largest duration.\<close>

definition since :: "int \<Rightarrow> int option \<Rightarrow> duration" where
  "since now t = (case t of Some t \<Rightarrow> now - t | None \<Rightarrow> 2 ^ 63 - 1)"

definition check :: "'d supervisor \<Rightarrow> int \<Rightarrow> 'd supervisor \<times> bool \<times> string" where
  "check s now =
     (if wclosed s then (s, False, '''')
      else if wstep s \<noteq> '''' \<and> since now (wlast s) > budget s (wstep s) then
        (if wstalled s then (s, False, '''') else (s\<lparr>wstalled := True\<rparr>, False, wstep s))
      else (s\<lparr>wstalled := False\<rparr>, True, ''''))"

definition wd_pet :: "'d device_ops \<Rightarrow> 'd supervisor \<Rightarrow> bool \<Rightarrow> 'd supervisor \<times> bool" where
  "wd_pet ops s ok = (let (d, e) = dev_keepalive ops (wdev s) ok in (s\<lparr>wdev := d\<rparr>, e = None))"

text \<open>\<open>Tick\<close> returns the supervisor, whether it pet, and the step it reports to \<open>onStall\<close>.\<close>

definition Tick :: "'d device_ops \<Rightarrow> 'd supervisor \<Rightarrow> int \<Rightarrow> bool \<Rightarrow> 'd supervisor \<times> bool \<times> string option" where
  "Tick ops s now ok =
     (let (s, pet, stalledStep) = check s now;
          cb = (if stalledStep \<noteq> '''' then Some stalledStep else None)
      in if \<not> pet then (s, False, cb)
         else let (s, ok) = wd_pet ops s ok in (s, ok, cb))"

definition Handoff :: "'d device_ops \<Rightarrow> 'd supervisor \<Rightarrow> bool \<Rightarrow> bool \<Rightarrow> bool \<Rightarrow> 'd supervisor \<times> wd_error option" where
  "Handoff ops s keep wok cok =
     (if wclosed s then (s, None)
      else let s = s\<lparr>wclosed := True\<rparr>;
               (d, e) = (if keep then dev_release ops (wdev s) cok else dev_stop ops (wdev s) wok cok)
           in (s\<lparr>wdev := d\<rparr>, e))"

subsection \<open>The global tracker\<close>

text \<open>The active tracker is \<open>None\<close> when the watchdog is off.\<close>

type_synonym 'd tracker = "'d supervisor option"

definition Activate :: "'d supervisor option \<Rightarrow> 'd tracker" where
  "Activate t = t"

definition track_Step :: "'d tracker \<Rightarrow> string \<Rightarrow> int \<Rightarrow> 'd tracker" where
  "track_Step t name now = (case t of None \<Rightarrow> None | Some s \<Rightarrow> Some (wd_Step s name now))"

definition track_Progress :: "'d tracker \<Rightarrow> int \<Rightarrow> 'd tracker" where
  "track_Progress t now = (case t of None \<Rightarrow> None | Some s \<Rightarrow> Some (wd_Progress s now))"

definition track_Idle :: "'d tracker \<Rightarrow> int \<Rightarrow> 'd tracker" where
  "track_Idle t now = (case t of None \<Rightarrow> None | Some s \<Rightarrow> Some (wd_Idle s now))"

definition track_Handoff :: "'d device_ops \<Rightarrow> 'd tracker \<Rightarrow> bool \<Rightarrow> bool \<Rightarrow> bool \<Rightarrow> 'd tracker \<times> wd_error option" where
  "track_Handoff ops t keep wok cok =
     (case t of None \<Rightarrow> (None, None)
      | Some s \<Rightarrow> (let (s, e) = Handoff ops s keep wok cok in (Some s, e)))"

text \<open>\<open>ProgressRunner.Run\<close>: the result of the inner command, and progress in any case.\<close>

definition ProgressRunner_Run :: "'r \<Rightarrow> 'd tracker \<Rightarrow> int \<Rightarrow> 'r \<times> 'd tracker" where
  "ProgressRunner_Run result t now = (result, track_Progress t now)"

subsection \<open>Histories\<close>

text \<open>
  The steps of a run, the goroutine of \<open>Run\<close> and the handoff, in any interleaving. The state
  is the supervisor and whether a \<open>Tick\<close> has passed \<open>check\<close> and has its keepalive still to do;
  the one goroutine starts no other \<open>Tick\<close> meanwhile.
\<close>

datatype wd_event = EvStep string int | EvProgress int | EvIdle int | EvCheck int | EvPet bool
  | EvHandoff bool bool bool

fun sup_event :: "'d device_ops \<Rightarrow> 'd supervisor \<times> bool \<Rightarrow> wd_event \<Rightarrow> 'd supervisor \<times> bool" where
  "sup_event ops (s, pending) (EvStep name now) = (wd_Step s name now, pending)"
| "sup_event ops (s, pending) (EvProgress now) = (wd_Progress s now, pending)"
| "sup_event ops (s, pending) (EvIdle now) = (wd_Idle s now, pending)"
| "sup_event ops (s, pending) (EvCheck now) =
     (if pending then (s, pending) else let (s, pet, _) = check s now in (s, pet))"
| "sup_event ops (s, pending) (EvPet ok) = (if pending then fst (wd_pet ops s ok) else s, False)"
| "sup_event ops (s, pending) (EvHandoff keep wok cok) = (fst (Handoff ops s keep wok cok), pending)"

abbreviation sup_run :: "'d device_ops \<Rightarrow> 'd supervisor \<times> bool \<Rightarrow> wd_event list \<Rightarrow> 'd supervisor \<times> bool" where
  "sup_run ops \<equiv> foldl (sup_event ops)"

text \<open>\<open>Tick\<close> without interleaving is the two events in a row.\<close>

lemma Tick_events:
  "sup_run ops (s, False) [EvCheck now, EvPet ok] = (fst (Tick ops s now ok), False)"
  by (simp add: Tick_def Let_def split_beta)

text \<open>The specification reads the step, the time of the last progress and the handoff off the
  events, the newest first.\<close>

fun active_step :: "wd_event list \<Rightarrow> string" where
  "active_step [] = ''''"
| "active_step (EvStep name _ # es) = name"
| "active_step (EvIdle _ # es) = ''''"
| "active_step (_ # es) = active_step es"

fun last_progress :: "wd_event list \<Rightarrow> int option" where
  "last_progress [] = None"
| "last_progress (EvStep _ t # es) = Some t"
| "last_progress (EvIdle t # es) = Some t"
| "last_progress (EvProgress t # es) = Some t"
| "last_progress (_ # es) = last_progress es"

fun handed_off :: "wd_event list \<Rightarrow> bool" where
  "handed_off [] = False"
| "handed_off (EvHandoff _ _ _ # es) = True"
| "handed_off (_ # es) = handed_off es"

lemma check_frame [simp]:
  "wstep (fst (check s now)) = wstep s" "wlast (fst (check s now)) = wlast s"
  "wclosed (fst (check s now)) = wclosed s" "wdev (fst (check s now)) = wdev s"
  "wbudgets (fst (check s now)) = wbudgets s" "wdefault (fst (check s now)) = wdefault s"
  by (simp_all add: check_def)

lemma wd_pet_frame [simp]:
  "wstep (fst (wd_pet ops s ok)) = wstep s" "wlast (fst (wd_pet ops s ok)) = wlast s"
  "wclosed (fst (wd_pet ops s ok)) = wclosed s" "wbudgets (fst (wd_pet ops s ok)) = wbudgets s"
  "wdefault (fst (wd_pet ops s ok)) = wdefault s"
  by (simp_all add: wd_pet_def split_beta Let_def)

lemma Handoff_frame [simp]:
  "wstep (fst (Handoff ops s k w c)) = wstep s" "wlast (fst (Handoff ops s k w c)) = wlast s"
  "wclosed (fst (Handoff ops s k w c))" "wbudgets (fst (Handoff ops s k w c)) = wbudgets s"
  "wdefault (fst (Handoff ops s k w c)) = wdefault s"
  by (simp_all add: Handoff_def split_beta Let_def)

text \<open>The supervisor implements the specification.\<close>

lemma sup_run_refines:
  fixes ops dev b bs evs
  defines "s0 \<equiv> NewSupervisor ops dev b bs"
  defines "s \<equiv> fst (sup_run ops (s0, False) evs)"
  shows "wstep s = active_step (rev evs) \<and> wlast s = last_progress (rev evs) \<and> wclosed s = handed_off (rev evs)
    \<and> wbudgets s = wbudgets s0 \<and> wdefault s = wdefault s0"
  unfolding s_def
proof (induction evs rule: rev_induct)
  case Nil
  show ?case by (simp add: s0_def NewSupervisor_def)
next
  case (snoc e evs)
  obtain s1 p where "sup_run ops (s0, False) evs = (s1, p)" by fastforce
  with snoc show ?case
    by (cases e) (auto simp: wd_Step_def wd_Progress_def wd_Idle_def split_beta Let_def)
qed

subsection \<open>What a device promises\<close>

definition is_pet :: "wd_io \<Rightarrow> bool" where
  "is_pet x = (x = WriteByte keepaliveByte \<or> x = ResetWatchdog)"

definition pets :: "wd_io list \<Rightarrow> nat" where
  "pets log = length (filter is_pet log)"

lemma pets_append [simp]: "pets (xs @ ys) = pets xs + pets ys"
  by (simp add: pets_def)

text \<open>Events that bring no progress: a check past the budget of the active step, the pending
  keepalive, a handoff.\<close>

definition overdue :: "'d supervisor \<Rightarrow> wd_event \<Rightarrow> bool" where
  "overdue s e = (case e of EvCheck now \<Rightarrow> since now (wlast s) > budget s (wstep s)
     | EvPet _ \<Rightarrow> True | EvHandoff _ _ _ \<Rightarrow> True | _ \<Rightarrow> False)"

lemma overdue_frame:
  assumes "overdue s e"
  shows "wstep (fst (sup_event ops (s, p) e)) = wstep s" "overdue (fst (sup_event ops (s, p) e)) = overdue s"
proof -
  let ?s = "fst (sup_event ops (s, p) e)"
  have "wstep ?s = wstep s \<and> wlast ?s = wlast s \<and> wbudgets ?s = wbudgets s \<and> wdefault ?s = wdefault s"
    using assms by (cases e) (simp_all add: overdue_def split_beta Let_def)
  then show "wstep ?s = wstep s" "overdue ?s = overdue s"
    by (simp_all only: overdue_def budget_def fun_eq_iff simp_thms)
qed

text \<open>Only \<open>Keepalive\<close> pets, once per call.\<close>

locale wdt_device =
  fixes ops :: "'d device_ops" and log :: "'d \<Rightarrow> wd_io list"
  assumes keepalive_pets: "pets (log (fst (dev_keepalive ops d ok))) \<le> pets (log d) + 1"
    and stop_pets: "pets (log (fst (dev_stop ops d wok cok))) = pets (log d)"
    and release_pets: "pets (log (fst (dev_release ops d cok))) = pets (log d)"
begin

text \<open>An event without progress leaves the sum of the pets done and the pet pending as it was,
  or lowers it.\<close>

lemma overdue_pets:
  assumes "wstep s \<noteq> []" "overdue s e"
  shows "pets (log (wdev (fst (sup_event ops (s, p) e)))) + (if snd (sup_event ops (s, p) e) then 1 else 0)
       \<le> pets (log (wdev s)) + (if p then 1 else 0)"
proof (cases e)
  case (EvCheck now)
  with assms show ?thesis by (simp add: overdue_def check_def)
next
  case (EvPet ok)
  then show ?thesis using keepalive_pets [of "wdev s" ok] by (simp add: wd_pet_def split_beta)
next
  case (EvHandoff k w c)
  then show ?thesis
    using stop_pets [of "wdev s" w c] release_pets [of "wdev s" c] by (simp add: Handoff_def split_beta Let_def)
qed (use assms in \<open>simp_all add: overdue_def\<close>)

lemma overdue_run:
  "wstep s \<noteq> [] \<Longrightarrow> \<forall>e\<in>set es. overdue s e \<Longrightarrow>
   pets (log (wdev (fst (sup_run ops (s, p) es)))) \<le> pets (log (wdev s)) + (if p then 1 else 0)"
proof (induction es arbitrary: s p)
  case (Cons e es)
  obtain s1 p1 where e: "sup_event ops (s, p) e = (s1, p1)" by fastforce
  have "wstep s1 \<noteq> []" "\<forall>e\<in>set es. overdue s1 e"
    using Cons.prems overdue_frame [of s e ops p] e by simp_all
  from Cons.IH [OF this, of p1] overdue_pets [of s e p] Cons.prems show ?case
    by (simp add: e)
qed simp

end

interpretation file_wdt: wdt_device file_ops f_log
  by unfold_locales
    (simp_all add: file_ops_def file_keepalive_def file_stop_def file_release_def pets_def is_pet_def
      magicClose_def keepaliveByte_def ResetWatchdog_def)

interpretation bmc_wdt: wdt_device bmc_ops b_log
  by unfold_locales
    (simp_all add: bmc_ops_def bmc_keepalive_def bmc_stop_def bmc_release_def pets_def is_pet_def
      StopWatchdog_def setWatchdog_def ResetWatchdog_def Let_def cmdSetWatchdog_def cmdResetWatchdog_def)

subsection \<open>After the handoff\<close>

text \<open>A closed file device takes no more writes, and a closed supervisor does not touch its
  device except for a keepalive that was already on its way.\<close>

lemma closed_file:
  "wclosed s \<Longrightarrow> \<not> f_open (wdev s) \<Longrightarrow>
   wdev (fst (sup_run file_ops (s, p) es)) = wdev s"
proof (induction es arbitrary: s p)
  case (Cons e es)
  obtain s1 p1 where e: "sup_event file_ops (s, p) e = (s1, p1)" by fastforce
  then have "wclosed s1 \<and> wdev s1 = wdev s"
    using Cons.prems
    by (cases e) (auto simp: wd_Step_def wd_Progress_def wd_Idle_def check_def wd_pet_def Handoff_def
        file_ops_def file_keepalive_def split: if_splits)
  with Cons show ?case by (simp add: e)
qed simp

lemma closed_bmc:
  "wclosed s \<Longrightarrow> \<exists>xs. b_log (wdev (fst (sup_run bmc_ops (s, p) es))) = b_log (wdev s) @ xs \<and> set xs \<subseteq> {ResetWatchdog}"
proof (induction es arbitrary: s p)
  case (Cons e es)
  obtain s1 p1 where e: "sup_event bmc_ops (s, p) e = (s1, p1)" by fastforce
  then have "wclosed s1 \<and> (\<exists>xs. b_log (wdev s1) = b_log (wdev s) @ xs \<and> set xs \<subseteq> {ResetWatchdog})"
    using Cons.prems
    by (cases e) (auto simp: wd_Step_def wd_Progress_def wd_Idle_def check_def wd_pet_def Handoff_def
        bmc_ops_def bmc_keepalive_def split: if_splits)
  with Cons.IH [of s1 p1] show ?case
    by (fastforce simp: e)
qed simp

text \<open>The file of a supervisor that was not handed off is open, and only keepalives went to it.\<close>

lemma open_file:
  "f_open (wdev s) \<Longrightarrow> \<forall>k w c. EvHandoff k w c \<notin> set es \<Longrightarrow>
   f_open (wdev (fst (sup_run file_ops (s, p) es)))
   \<and> (\<exists>xs. f_log (wdev (fst (sup_run file_ops (s, p) es))) = f_log (wdev s) @ xs
       \<and> set xs \<subseteq> {WriteByte keepaliveByte})
   \<and> wclosed (fst (sup_run file_ops (s, p) es)) = wclosed s"
proof (induction es arbitrary: s p)
  case (Cons e es)
  obtain s1 p1 where e: "sup_event file_ops (s, p) e = (s1, p1)" by fastforce
  then have "f_open (wdev s1) \<and> wclosed s1 = wclosed s
      \<and> (\<exists>xs. f_log (wdev s1) = f_log (wdev s) @ xs \<and> set xs \<subseteq> {WriteByte keepaliveByte})"
    using Cons.prems
    by (cases e) (auto simp: wd_Step_def wd_Progress_def wd_Idle_def check_def wd_pet_def
        file_ops_def file_keepalive_def split: if_splits)
  with Cons.IH [of s1 p1] Cons.prems show ?case
    by (fastforce simp: e)
qed simp

text \<open>The answers of the checks of a history, and the rule they follow: \<open>rep\<close> says whether the
  present stall was reported.\<close>

fun check_outputs :: "'d device_ops \<Rightarrow> 'd supervisor \<times> bool \<Rightarrow> wd_event list \<Rightarrow> (bool \<times> string) list" where
  "check_outputs ops sp [] = []"
| "check_outputs ops sp (e # es) =
     (case e of EvCheck now \<Rightarrow> if snd sp then [] else [snd (check (fst sp) now)] | _ \<Rightarrow> [])
     @ check_outputs ops (sup_event ops sp e) es"

fun reports_once :: "bool \<Rightarrow> (bool \<times> string) list \<Rightarrow> bool" where
  "reports_once rep [] = True"
| "reports_once rep ((pet, st) # os) =
     (if pet then st = '''' \<and> reports_once False os
      else (st = '''') = rep \<and> reports_once True os)"

lemma check_outputs_reports:
  "\<not> wclosed s \<Longrightarrow> \<forall>k w c. EvHandoff k w c \<notin> set es \<Longrightarrow> reports_once (wstalled s) (check_outputs ops (s, p) es)"
proof (induction es arbitrary: s p)
  case (Cons e es)
  obtain s1 p1 where e: "sup_event ops (s, p) e = (s1, p1)" by fastforce
  have c1: "\<not> wclosed s1"
    using Cons.prems e
    by (cases e) (auto simp: wd_Step_def wd_Progress_def wd_Idle_def check_def wd_pet_def split_beta Let_def split: if_splits)
  have IH: "reports_once (wstalled s1) (check_outputs ops (s1, p1) es)"
    using Cons.IH [OF c1] Cons.prems by simp
  show ?case
  proof (cases "\<exists>now. e = EvCheck now \<and> \<not> p")
    case True
    then obtain now where "e = EvCheck now" "\<not> p" by blast
    with e IH Cons.prems show ?thesis
      by (auto simp: check_def split: if_splits)
  next
    case False
    then have "wstalled s1 = wstalled s"
      using e Cons.prems
      by (cases e) (auto simp: wd_Step_def wd_Progress_def wd_Idle_def wd_pet_def split_beta Let_def split: if_splits)
    with False IH e show ?thesis
      by (cases e) auto
  qed
qed simp

lemma open_first_find:
  "open_first paths sys errs =
     (case find (\<lambda>p. \<not> isl (openDevice p (sys p))) paths of
        Some p \<Rightarrow> Inr (projr (openDevice p (sys p)))
      | None \<Rightarrow> let errs = errs @ filter (\<lambda>e. \<not> is_not_exist e) (map (\<lambda>p. fst (projl (openDevice p (sys p)))) paths)
                in Inl (if errs = [] then ErrNoDevice else ErrJoin errs))"
proof (induction paths arbitrary: errs)
  case (Cons p paths)
  then show ?case
    by (cases "openDevice p (sys p)") (auto simp: split_beta Let_def split: option.split)
qed simp

subsection \<open>Properties\<close>

text \<open>C11: after any history of steps, progress, ticks and handoffs, the supervisor pets exactly
  when it was not handed off and either no step is active or the last progress of the run is
  within the budget of the active step: the operator's budget, else the built-in one, else the
  default.\<close>

theorem tick_pets_iff_progress:
  "fst (snd (check (fst (sup_run ops (NewSupervisor ops dev b bs, False) evs)) now)) \<longleftrightarrow>
     \<not> handed_off (rev evs) \<and>
     (active_step (rev evs) = '''' \<or>
      since now (last_progress (rev evs)) \<le>
        (case map_of bs (active_step (rev evs)) of Some x \<Rightarrow> x
         | None \<Rightarrow> (case map_of DefaultStepBudgets (active_step (rev evs)) of Some x \<Rightarrow> x
            | None \<Rightarrow> if b \<le> 0 then dev_timeout ops dev else b)))"
  using sup_run_refines [of ops dev b bs evs]
  by (auto simp: check_def budget_def NewSupervisor_def map_add_def split: option.splits)

text \<open>C13: a step over its budget stops the petting, in any interleaving: as long as no step, idle
  or progress call comes, the checks past the budget and the handoff write no keepalive to the
  device, beyond the one that may have been on its way.\<close>

theorem stalled_step_not_petted:
  fixes dev b bs evs
  defines "sp \<equiv> sup_run file_ops (NewSupervisor file_ops dev b bs, False) evs"
  assumes "active_step (rev evs) \<noteq> ''''" and "\<forall>e\<in>set es. overdue (fst sp) e"
  shows "pets (f_log (wdev (fst (sup_run file_ops sp es)))) \<le> pets (f_log (wdev (fst sp))) + (if snd sp then 1 else 0)"
  using assms(2,3) sup_run_refines [of file_ops dev b bs evs] file_wdt.overdue_run [of "fst sp" es "snd sp"]
  by (simp add: sp_def)

definition sample_device :: fileDevice where
  "sample_device = \<lparr>fpath = ''/dev/watchdog0'', ftimeout = minute, f_open = True, f_log = []\<rparr>"

theorem stalled_step_not_petted_witness:
  "pets (f_log (wdev (fst (sup_run file_ops
      (sup_run file_ops (NewSupervisor file_ops sample_device 0 [], False) [EvStep ''stream-image'' 0, EvCheck second, EvPet True])
      [EvCheck (2 * hour), EvPet True, EvCheck (3 * hour), EvPet True])))) \<le> 1"
  using stalled_step_not_petted [of "[EvStep ''stream-image'' 0, EvCheck second, EvPet True]"
      "[EvCheck (2 * hour), EvPet True, EvCheck (3 * hour), EvPet True]" sample_device 0 "[]"]
  by (simp add: overdue_def wd_Step_def NewSupervisor_def check_def budget_def since_def DefaultStepBudgets_def
      wd_pet_def file_ops_def file_keepalive_def sample_device_def pets_def map_add_def)

text \<open>a stall is reported to the caller once: over a history without handoff, the first check
  that finds the step over its budget reports it, the next ones report nothing, and only after
  a check that pets again is a new stall reported.\<close>

theorem stall_reported_once:
  assumes "\<forall>keep wok cok. EvHandoff keep wok cok \<notin> set evs"
  shows "reports_once False (check_outputs ops (NewSupervisor ops dev b bs, False) evs)"
  using check_outputs_reports [of "NewSupervisor ops dev b bs" evs ops False] assms
  by (simp add: NewSupervisor_def)

theorem stall_reported_once_witness:
  "let evs = [EvStep ''setup-raid'' 0, EvCheck second, EvPet True, EvCheck (2 * hour), EvCheck (3 * hour),
              EvProgress (3 * hour), EvCheck (3 * hour)];
       os = check_outputs file_ops (NewSupervisor file_ops sample_device 0 [], False) evs in
     reports_once False os \<and> os = [(True, ''''), (False, ''setup-raid''), (False, ''''), (True, '''')]"
  using stall_reported_once [of "[EvStep ''setup-raid'' 0, EvCheck second, EvPet True, EvCheck (2 * hour), EvCheck (3 * hour),
              EvProgress (3 * hour), EvCheck (3 * hour)]" file_ops sample_device 0 "[]"]
  by (simp add: wd_Step_def wd_Progress_def NewSupervisor_def check_def budget_def since_def DefaultStepBudgets_def
      wd_pet_def file_ops_def file_keepalive_def sample_device_def map_add_def)

text \<open>C16: the handoff is final, also when it comes between a check and its keepalive. For a device
  file, after any history the handoff writes the magic close only when the watchdog is not kept,
  closes the file, and nothing is written after it. For the BMC, the last command that programs
  the timer after a handoff that does not keep it has no action, so a late keepalive arms nothing.\<close>

theorem handoff_is_final:
  assumes "f_open dev" and "\<forall>k w c. EvHandoff k w c \<notin> set evs"
  shows "(\<exists>xs. set xs \<subseteq> {WriteByte keepaliveByte}
      \<and> f_log (wdev (fst (sup_run file_ops (NewSupervisor file_ops dev b bs, False) (evs @ EvHandoff keep wok cok # es))))
         = f_log dev @ xs @ (if keep then [CloseFile] else [WriteByte magicClose, CloseFile]))
    \<and> (\<exists>log xs. set xs \<subseteq> {ResetWatchdog}
      \<and> b_log (wdev (fst (sup_run bmc_ops (NewSupervisor bmc_ops bmc b bs, False) (evs @ EvHandoff False wok cok # es))))
         = log @ setWatchdog watchdogActionNone MaxWatchdogTimeout # xs)"
proof
  obtain s p where s: "sup_run file_ops (NewSupervisor file_ops dev b bs, False) evs = (s, p)" by fastforce
  have o: "f_open (wdev s)" "\<not> wclosed s" "\<exists>xs. f_log (wdev s) = f_log dev @ xs \<and> set xs \<subseteq> {WriteByte keepaliveByte}"
    using open_file [of "NewSupervisor file_ops dev b bs" evs False] assms s by (simp_all add: NewSupervisor_def)
  let ?s = "fst (Handoff file_ops s keep wok cok)"
  have h: "\<not> f_open (wdev ?s)" "wclosed ?s"
    "f_log (wdev ?s) = f_log (wdev s) @ (if keep then [CloseFile] else [WriteByte magicClose, CloseFile])"
    using o by (simp_all add: Handoff_def split_beta Let_def file_ops_def file_stop_def file_release_def)
  from closed_file [OF h(2,1), of p es] h(3) o(3) show "\<exists>xs. set xs \<subseteq> {WriteByte keepaliveByte}
      \<and> f_log (wdev (fst (sup_run file_ops (NewSupervisor file_ops dev b bs, False) (evs @ EvHandoff keep wok cok # es))))
         = f_log dev @ xs @ (if keep then [CloseFile] else [WriteByte magicClose, CloseFile])"
    by (auto simp: s)
next
  obtain s p where s: "sup_run bmc_ops (NewSupervisor bmc_ops bmc b bs, False) evs = (s, p)" by fastforce
  have "handed_off es = (\<exists>k w c. EvHandoff k w c \<in> set es)" for es
    by (induction es rule: handed_off.induct) auto
  then have "\<not> wclosed s"
    using sup_run_refines [of bmc_ops bmc b bs evs] assms(2) s by simp
  then have "b_log (wdev (fst (Handoff bmc_ops s False wok cok))) = b_log (wdev s) @ [StopWatchdog]"
    by (simp add: Handoff_def split_beta Let_def bmc_ops_def bmc_stop_def)
  with closed_bmc [of "fst (Handoff bmc_ops s False wok cok)" p es]
  show "\<exists>log xs. set xs \<subseteq> {ResetWatchdog}
      \<and> b_log (wdev (fst (sup_run bmc_ops (NewSupervisor bmc_ops bmc b bs, False) (evs @ EvHandoff False wok cok # es))))
         = log @ setWatchdog watchdogActionNone MaxWatchdogTimeout # xs"
    by (force simp: s StopWatchdog_def)
qed

theorem handoff_is_final_witness:
  "\<exists>xs. set xs \<subseteq> {WriteByte keepaliveByte}
      \<and> f_log (wdev (fst (sup_run file_ops (NewSupervisor file_ops sample_device 0 [], False)
           ([EvCheck 0] @ EvHandoff False True True # [EvPet True]))))
         = xs @ [WriteByte magicClose, CloseFile]"
  using handoff_is_final [of sample_device "[EvCheck 0]" 0 "[]" False True True "[EvPet True]"]
  by (auto simp: sample_device_def)

text \<open>\<open>OpenFirst\<close> returns the first device that opens and accepts a timeout. Otherwise it
  returns \<open>ErrNoDevice\<close> when every path is missing, else the errors of the others in order; a
  device that was opened and not returned has been disarmed with the magic close and closed.\<close>

theorem open_first_spec:
  "OpenFirst paths sys =
     (case find (\<lambda>p. \<not> isl (openDevice p (sys p))) paths of
        Some p \<Rightarrow> Inr (projr (openDevice p (sys p)))
      | None \<Rightarrow> let errs = filter (\<lambda>e. \<not> is_not_exist e) (map (\<lambda>p. fst (projl (openDevice p (sys p)))) paths)
                in Inl (if errs = [] then ErrNoDevice else ErrJoin errs))
   \<and> (case openDevice p (sys p) of Inr dev \<Rightarrow> f_open dev \<and> ftimeout dev > 0
      | Inl (e, io) \<Rightarrow> if sys_open (sys p) = None then io = [WriteByte magicClose, CloseFile] else io = [])"
  using open_first_find [of paths sys "[]"]
  by (auto simp: OpenFirst_def openDevice_def split: option.split sum.split)

end
