(* ===== verification/Go_Strings.thy ===== *)
theory Go_Strings
  imports Prelude "HOL-Library.Sublist"
begin

text \<open>
  Go strings as lists of bytes, and the functions of the packages \<open>strings\<close>, \<open>unicode\<close> and
  \<open>unicode/utf8\<close> that the components use. The character classes are those of ASCII: the keys,
  names and configuration values that the code inspects with them are ASCII.
\<close>

subsection \<open>Characters and strings\<close>

definition byte_in :: "nat \<Rightarrow> nat \<Rightarrow> char \<Rightarrow> bool" where
  "byte_in lo hi c = (lo \<le> of_char c \<and> of_char c \<le> hi)"

definition IsLower :: "char \<Rightarrow> bool" where "IsLower = byte_in 97 122"
definition IsUpper :: "char \<Rightarrow> bool" where "IsUpper = byte_in 65 90"
definition IsDigit :: "char \<Rightarrow> bool" where "IsDigit = byte_in 48 57"
definition IsLetter :: "char \<Rightarrow> bool" where "IsLetter c = (IsLower c \<or> IsUpper c)"

definition ToLower :: "string \<Rightarrow> string" where
  "ToLower s = map (\<lambda>c. if IsUpper c then char_of (of_char c + 32 :: nat) else c) s"

definition Contains :: "string \<Rightarrow> string \<Rightarrow> bool" where
  "Contains s w = sublist w s"

definition HasSuffix :: "string \<Rightarrow> string \<Rightarrow> bool" where
  "HasSuffix s w = suffix w s"

text \<open>\<open>strings.FieldsFunc\<close>: the maximal runs of characters that are no separators; \<open>cur\<close> is the
  run in progress.\<close>

fun FieldsFunc :: "(char \<Rightarrow> bool) \<Rightarrow> string \<Rightarrow> string \<Rightarrow> string list" where
  "FieldsFunc sep cur [] = (if cur = [] then [] else [cur])"
| "FieldsFunc sep cur (c # cs) =
     (if sep c then (if cur = [] then [] else [cur]) @ FieldsFunc sep [] cs
      else FieldsFunc sep (cur @ [c]) cs)"

text \<open>\<open>strings.TrimSpace\<close> and \<open>strings.Fields\<close> split at white space.\<close>

definition IsSpace :: "char \<Rightarrow> bool" where
  "IsSpace c = (byte_in 9 13 c \<or> byte_in 32 32 c)"

definition TrimSpace :: "string \<Rightarrow> string" where
  "TrimSpace s = rev (dropWhile IsSpace (rev (dropWhile IsSpace s)))"

definition HasPrefix :: "string \<Rightarrow> string \<Rightarrow> bool" where
  "HasPrefix s w = prefix w s"

definition ContainsAny :: "string \<Rightarrow> string \<Rightarrow> bool" where
  "ContainsAny s cs = (\<exists>c\<in>set cs. c \<in> set s)"

text \<open>\<open>strings.Split\<close>, \<open>strings.SplitN\<close> (with a positive count) and \<open>strings.Join\<close> at a separator of
  one character.\<close>

fun Split :: "char \<Rightarrow> string \<Rightarrow> string list" where
  "Split c [] = [[]]"
| "Split c (x # xs) =
     (if x = c then [] # Split c xs else (case Split c xs of y # ys \<Rightarrow> (x # y) # ys | [] \<Rightarrow> [[x]]))"

fun SplitN :: "nat \<Rightarrow> char \<Rightarrow> string \<Rightarrow> string list" where
  "SplitN (Suc (Suc n)) c s =
     (if c \<in> set s then takeWhile (\<lambda>x. x \<noteq> c) s # SplitN (Suc n) c (tl (dropWhile (\<lambda>x. x \<noteq> c) s)) else [s])"
| "SplitN n c s = (if n = 0 then [] else [s])"

fun Join :: "string \<Rightarrow> string list \<Rightarrow> string" where
  "Join sep [] = []"
| "Join sep [x] = x"
| "Join sep (x # y # zs) = x @ sep @ Join sep (y # zs)"

lemma Split_not_Nil [simp]: "Split c s \<noteq> []"
  by (induction s) (auto split: list.splits)

lemma Split_parts: "l \<in> set (Split c s) \<Longrightarrow> c \<notin> set l"
  by (induction s arbitrary: l) (auto split: list.splits if_splits)

lemma Split_no_sep [simp]: "c \<notin> set x \<Longrightarrow> Split c x = [x]"
  by (induction x) auto

lemma Split_append_sep: "c \<notin> set x \<Longrightarrow> Split c (x @ c # y) = x # Split c y"
  by (induction x) auto

lemma Split_Join:
  "ls \<noteq> [] \<Longrightarrow> \<forall>l\<in>set ls. c \<notin> set l \<Longrightarrow> Split c (Join [c] ls) = ls"
  by (induction "[c]" ls rule: Join.induct) (auto simp: Split_append_sep)

lemma Join_Split [simp]: "Join [c] (Split c s) = s"
proof (induction s)
  case (Cons x xs)
  obtain y ys where "Split c xs = y # ys" by (cases "Split c xs") auto
  with Cons show ?case by (cases ys) auto
qed simp

subsection \<open>Decimal numbers (fmt with the verb d)\<close>

fun digits :: "nat \<Rightarrow> string" where
  "digits n = (if n < 10 then [char_of (48 + n)] else digits (n div 10) @ [char_of (48 + n mod 10)])"

definition fmt_d :: "int \<Rightarrow> string" where
  "fmt_d i = (if i < 0 then CHR ''-'' # digits (nat (- i)) else digits (nat i))"

subsection \<open>UTF-8 (strings.ToValidUTF8 with an empty replacement)\<close>

abbreviation tail_byte :: "char \<Rightarrow> bool" where
  "tail_byte \<equiv> byte_in 0x80 0xBF"

text \<open>The length of the encoded rune at the start of a string, 0 when there is none.\<close>

fun rune_len :: "string \<Rightarrow> nat" where
  "rune_len [] = 0"
| "rune_len (c # cs) =
     (if byte_in 0 0x7F c then 1
      else if byte_in 0xC2 0xDF c then
        (case cs of c1 # _ \<Rightarrow> if tail_byte c1 then 2 else 0 | _ \<Rightarrow> 0)
      else if byte_in 0xE0 0xEF c then
        (case cs of c1 # c2 # _ \<Rightarrow>
           if byte_in (if byte_in 0xE0 0xE0 c then 0xA0 else 0x80) (if byte_in 0xED 0xED c then 0x9F else 0xBF) c1
              \<and> tail_byte c2 then 3 else 0
         | _ \<Rightarrow> 0)
      else if byte_in 0xF0 0xF4 c then
        (case cs of c1 # c2 # c3 # _ \<Rightarrow>
           if byte_in (if byte_in 0xF0 0xF0 c then 0x90 else 0x80) (if byte_in 0xF4 0xF4 c then 0x8F else 0xBF) c1
              \<and> tail_byte c2 \<and> tail_byte c3 then 4 else 0
         | _ \<Rightarrow> 0)
      else 0)"

lemma rune_len_le: "rune_len s \<le> length s"
  by (induction s rule: rune_len.induct) (auto split: list.splits)

function toValidUTF8 :: "string \<Rightarrow> string" where
  "toValidUTF8 [] = []"
| "toValidUTF8 (c # cs) =
     (let n = rune_len (c # cs)
      in if n = 0 then toValidUTF8 cs
         else take n (c # cs) @ toValidUTF8 (drop n (c # cs)))"
  by pat_completeness auto
termination
  by (relation "measure length") (auto simp: less_Suc_eq_le)

lemma length_toValidUTF8: "length (toValidUTF8 s) \<le> length s"
proof (induction s rule: toValidUTF8.induct)
  case (2 c cs)
  show ?case
  proof (cases "rune_len (c # cs) = 0")
    case True
    then show ?thesis using "2.IH"(1) by (simp del: rune_len.simps)
  next
    case False
    then have "length (toValidUTF8 (drop (rune_len (c # cs)) (c # cs))) \<le> length (c # cs) - rune_len (c # cs)"
      using "2.IH"(2) by (simp only: length_drop) simp
    with False rune_len_le [of "c # cs"] show ?thesis
      by (simp add: Let_def del: rune_len.simps)
  qed
qed simp

end
