(* ===== verification/Log_Ring.thy ===== *)
theory Log_Ring
  imports Go_Strings
begin

text \<open>
  The remote log buffer (caprf/loghandler.go): the bounded ring between the log handler and the
  sender goroutine, its eviction by rank, and the sender with its drop summaries.

  A Go string is its list of bytes. \<open>push\<close> indexes the entries and the drop counters; an index
  out of range is the panic \<open>None\<close>. The condition variable of \<open>pop\<close> is the result \<open>Waits\<close>.
\<close>

subsection \<open>The ring\<close>

text \<open>\<open>slog\<close> levels: debug -4, info 0, warn 4, error 8.\<close>

definition levelRank :: "int \<Rightarrow> nat" where
  "levelRank l = (if l < 0 then 0 else if l < 4 then 1 else if l < 8 then 2 else 3)"

record ringEntry =
  rank :: nat
  line :: string

record logRing =
  entries :: "ringEntry list"
  ring_bytes :: int
  maxLines :: int
  maxBytes :: int
  ring_closed :: bool
  dropped :: "int list"

definition newLogRing :: "int \<Rightarrow> int \<Rightarrow> logRing" where
  "newLogRing lines bytes =
     \<lparr>entries = [], ring_bytes = 0, maxLines = max lines 1, maxBytes = max bytes 1,
      ring_closed = False, dropped = [0, 0, 0, 0]\<rparr>"

definition count_drop :: "int list \<Rightarrow> nat \<Rightarrow> int list go" where
  "count_drop ds k = (if k < length ds then Some (ds[k := ds ! k + 1]) else None)"

text \<open>The scan for the oldest line of the lowest rank.\<close>

definition victim :: "ringEntry list \<Rightarrow> nat" where
  "victim es = foldl (\<lambda>v i. if rank (es ! i) < rank (es ! v) then i else v) 0 [0..<length es]"

text \<open>One pass of the eviction loop deletes a line; \<open>Inl\<close> is the early return.\<close>

function evict :: "logRing \<Rightarrow> nat \<Rightarrow> int \<Rightarrow> (logRing + logRing) go" where
  "evict r k n =
     (if int (length (entries r)) \<ge> maxLines r \<or> ring_bytes r + n > maxBytes r then
        do { let v = victim (entries r);
             e \<leftarrow> idx (entries r) v;
             if rank e > k then do { ds \<leftarrow> count_drop (dropped r) k; Some (Inl (r\<lparr>dropped := ds\<rparr>)) }
             else do { ds \<leftarrow> count_drop (dropped r) (rank e);
                       if v < length (entries r) then
                         evict (r\<lparr>dropped := ds, ring_bytes := ring_bytes r - int (length (line e)),
                                  entries := take v (entries r) @ drop (Suc v) (entries r)\<rparr>) k n
                       else None } }
      else Some (Inr r))"
  by pat_completeness auto
termination
  by (relation "measure (\<lambda>(r, _, _). length (entries r))") auto

definition cut_line :: "logRing \<Rightarrow> string \<Rightarrow> string" where
  "cut_line r l = (if int (length l) > maxBytes r then toValidUTF8 (take (nat (maxBytes r)) l) else l)"

definition push :: "logRing \<Rightarrow> nat \<Rightarrow> string \<Rightarrow> logRing go" where
  "push r k l =
     (let l = cut_line r l in
      if ring_closed r then Some r
      else case evict r k (int (length l)) of
             None \<Rightarrow> None
           | Some (Inl r) \<Rightarrow> Some r
           | Some (Inr r) \<Rightarrow> Some (r\<lparr>entries := entries r @ [\<lparr>rank = k, line = l\<rparr>],
                                   ring_bytes := ring_bytes r + int (length l)\<rparr>))"

datatype pop_result = Waits | Closed | Popped ringEntry

definition pop :: "logRing \<Rightarrow> logRing \<times> pop_result" where
  "pop r = (case entries r of
      [] \<Rightarrow> (r, if ring_closed r then Closed else Waits)
    | e # es \<Rightarrow> (r\<lparr>entries := es, ring_bytes := ring_bytes r - int (length (line e))\<rparr>, Popped e))"

definition drop_line :: "logRing \<Rightarrow> nat \<Rightarrow> logRing go" where
  "drop_line r k = do { ds \<leftarrow> count_drop (dropped r) k; Some (r\<lparr>dropped := ds\<rparr>) }"

definition droppedTotal :: "logRing \<Rightarrow> int" where
  "droppedTotal r = dropped r ! 0 + dropped r ! 1 + dropped r ! 2 + dropped r ! 3"

definition close_ring :: "logRing \<Rightarrow> logRing" where
  "close_ring r = r\<lparr>ring_closed := True\<rparr>"

subsection \<open>The sender\<close>

text \<open>
  One pass of the loop of \<open>send\<close>: the state is the ring, the drops already reported, whether the
  goroutine returned, and what reached the server. What \<open>ShipLog\<close> answers to a line is an
  argument, as is whether the context is cancelled by then. \<open>shipDropSummary\<close> compares
  the counters, ships their difference and advances \<open>reported\<close> when it arrived.
\<close>

datatype shipped = ShipLine ringEntry | ShipSummary "int list"

record sender =
  ring :: logRing
  reported :: "int list"
  sent :: "shipped list"
  finished :: bool

definition levelNames :: "string list" where
  "levelNames = [''debug'', ''info'', ''warn'', ''error'']"

definition summary_line :: "int list \<Rightarrow> string" where
  "summary_line ds =
     ''[WARN] remote log handler dropped lines code=BOOTY-LOG-001''
     @ concat (map (\<lambda>(name, d). '' '' @ name @ ''='' @ fmt_d d) (zip levelNames ds))"

definition minus_counts :: "int list \<Rightarrow> int list \<Rightarrow> int list" where
  "minus_counts a b = map2 (-) a b"

definition shipDropSummary :: "sender \<Rightarrow> bool \<Rightarrow> bool \<Rightarrow> sender" where
  "shipDropSummary s cancelled ok =
     (let now = dropped (ring s) in
      if now = reported s \<or> cancelled then s
      else if ok then s\<lparr>sent := sent s @ [ShipSummary (minus_counts now (reported s))], reported := now\<rparr>
      else s)"

definition send_pass :: "sender \<Rightarrow> bool \<Rightarrow> bool \<Rightarrow> bool \<Rightarrow> bool \<Rightarrow> sender go" where
  "send_pass s cancelled ok cancelled2 ok2 =
     (if finished s then Some s
      else if cancelled then Some (s\<lparr>finished := True\<rparr>)
      else case pop (ring s) of
             (_, Waits) \<Rightarrow> Some s
           | (r, Closed) \<Rightarrow> Some ((shipDropSummary (s\<lparr>ring := r\<rparr>) cancelled2 ok2)\<lparr>finished := True\<rparr>)
           | (r, Popped e) \<Rightarrow>
               if \<not> ok then do { r \<leftarrow> drop_line r (rank e); Some (s\<lparr>ring := r\<rparr>) }
               else Some (shipDropSummary (s\<lparr>ring := r, sent := sent s @ [ShipLine e]\<rparr>) cancelled2 ok2))"

definition new_sender :: "int \<Rightarrow> int \<Rightarrow> sender" where
  "new_sender lines bytes =
     \<lparr>ring = newLogRing lines bytes, reported = [0, 0, 0, 0], sent = [], finished = False\<rparr>"

text \<open>\<open>newRemoteHandler\<close> chooses the bounds: 1000 lines when none is given.\<close>

definition defaultBufferBytes :: int where "defaultBufferBytes = 4 * 2 ^ 20"

definition newRemoteHandler :: "int \<Rightarrow> int \<Rightarrow> sender" where
  "newRemoteHandler lines bytes = new_sender (if lines \<le> 0 then 1000 else lines) bytes"

subsection \<open>Histories\<close>

text \<open>Log calls, passes of the sender and the close, in any interleaving; the ring's mutex makes
  each of them one step. The field \<open>accepted\<close> records every line handed to \<open>push\<close> before the
  close, after the cut.\<close>

datatype log_event = LogCall int string | SendPass bool bool bool bool | CloseLog

record log_state =
  snd_of :: sender
  accepted :: "ringEntry list"

fun log_step :: "log_state \<Rightarrow> log_event \<Rightarrow> log_state go" where
  "log_step st (LogCall level msg) =
     (let s = snd_of st; r = ring s; k = levelRank level in
      do { r' \<leftarrow> push r k msg;
           Some (st\<lparr>snd_of := s\<lparr>ring := r'\<rparr>,
                    accepted := (if ring_closed r then accepted st
                                 else accepted st @ [\<lparr>rank = k, line = cut_line r msg\<rparr>])\<rparr>) })"
| "log_step st (SendPass c ok c2 ok2) =
     do { s \<leftarrow> send_pass (snd_of st) c ok c2 ok2;
          Some (st\<lparr>snd_of := s\<rparr>) }"
| "log_step st CloseLog = Some (st\<lparr>snd_of := (snd_of st)\<lparr>ring := close_ring (ring (snd_of st))\<rparr>\<rparr>)"

fun log_run :: "log_state \<Rightarrow> log_event list \<Rightarrow> log_state go" where
  "log_run st [] = Some st"
| "log_run st (e # es) = do { st' \<leftarrow> log_step st e; log_run st' es }"

definition log_init :: "int \<Rightarrow> int \<Rightarrow> log_state" where
  "log_init lines bytes = \<lparr>snd_of = newRemoteHandler lines bytes, accepted = []\<rparr>"

subsection \<open>The invariant of the ring\<close>

definition ring_inv :: "logRing \<Rightarrow> bool" where
  "ring_inv r \<longleftrightarrow>
     ring_bytes r = (\<Sum>e\<leftarrow>entries r. int (length (line e)))
     \<and> int (length (entries r)) \<le> maxLines r \<and> ring_bytes r \<le> maxBytes r
     \<and> 1 \<le> maxLines r \<and> 1 \<le> maxBytes r \<and> length (dropped r) = 4
     \<and> (\<forall>e\<in>set (entries r). rank e < 4)"

lemma foldl_victim:
  "v < length es \<Longrightarrow> \<forall>i\<in>set is. i < length es \<Longrightarrow>
   let w = foldl (\<lambda>v i. if rank (es ! i) < rank (es ! v) then i else v) v is in
   w < length es \<and> rank (es ! w) \<le> rank (es ! v) \<and> (\<forall>i\<in>set is. rank (es ! w) \<le> rank (es ! i))"
proof (induction "is" arbitrary: v)
  case (Cons i "is")
  then show ?case
    using Cons.IH [of "if rank (es ! i) < rank (es ! v) then i else v"]
    by (fastforce simp: Let_def)
qed simp

lemma victim_min:
  assumes "es \<noteq> []"
  shows "victim es < length es" "\<forall>e\<in>set es. rank (es ! victim es) \<le> rank e"
  using foldl_victim [of 0 es "[0..<length es]"] assms
  by (auto simp: victim_def Let_def in_set_conv_nth)

definition lines_of :: "nat \<Rightarrow> ringEntry list \<Rightarrow> int" where
  "lines_of j es = int (length (filter (\<lambda>e. rank e = j) es))"

lemma lines_of_simps [simp]:
  "lines_of j [] = 0" "lines_of j (e # es) = (if rank e = j then 1 else 0) + lines_of j es"
  "lines_of j (xs @ ys) = lines_of j xs + lines_of j ys"
  by (simp_all add: lines_of_def)

lemma lines_of_nonneg [simp]: "0 \<le> lines_of j es"
  by (simp add: lines_of_def)

lemma split_at: "v < length es \<Longrightarrow> es = take v es @ es ! v # drop (Suc v) es"
  by (simp add: id_take_nth_drop)

text \<open>What the loop does from \<open>r\<close> to \<open>r'\<close> for a new line of rank \<open>k\<close>: it deletes lines, counts
  each by its rank, and deletes none that ranks above the new line or above a line it keeps.\<close>

definition evicts :: "nat \<Rightarrow> logRing \<Rightarrow> logRing \<Rightarrow> bool" where
  "evicts k r r' \<longleftrightarrow>
     ring_inv r' \<and> subseq (entries r') (entries r)
     \<and> maxLines r' = maxLines r \<and> maxBytes r' = maxBytes r \<and> ring_closed r' = ring_closed r
     \<and> (\<forall>j<4. dropped r' ! j = dropped r ! j + lines_of j (entries r) - lines_of j (entries r'))
     \<and> (\<forall>j. lines_of j (entries r') < lines_of j (entries r) \<longrightarrow> j \<le> k \<and> (\<forall>e\<in>set (entries r'). j \<le> rank e))"

lemma evicts_refl: "ring_inv r \<Longrightarrow> evicts k r r"
  by (simp add: evicts_def)

lemma evict_one:
  fixes v r
  defines "e \<equiv> entries r ! v"
  defines "r1 \<equiv> r\<lparr>dropped := (dropped r)[rank e := dropped r ! rank e + 1],
      ring_bytes := ring_bytes r - int (length (line e)),
      entries := take v (entries r) @ drop (Suc v) (entries r)\<rparr>"
  assumes "ring_inv r" "v < length (entries r)" "\<forall>e'\<in>set (entries r). rank e \<le> rank e'" "rank e \<le> k"
  shows "evicts k r r1"
proof -
  obtain xs ys where es: "entries r = xs @ e # ys" and tv: "take v (entries r) = xs" "drop (Suc v) (entries r) = ys"
    using split_at [OF assms(4)] by (simp add: e_def)
  have r1: "r1 = r\<lparr>dropped := (dropped r)[rank e := dropped r ! rank e + 1],
      ring_bytes := ring_bytes r - int (length (line e)), entries := xs @ ys\<rparr>"
    by (simp add: r1_def tv)
  have "length (dropped r) = 4" "rank e < 4"
    using assms(3) es by (auto simp: ring_inv_def)
  moreover have "subseq (xs @ ys) (xs @ e # ys)"
    by (intro list_emb_append_mono list_emb_Cons subseq_order.refl)
  ultimately show ?thesis
    using assms(3,5,6) unfolding evicts_def r1
    by (auto simp: ring_inv_def es nth_list_update split: if_splits)
qed

lemma evicts_trans:
  assumes "evicts k r r1" "evicts k r1 r2"
  shows "evicts k r r2"
proof -
  have "set (entries r2) \<subseteq> set (entries r1)"
    using assms(2) by (auto simp: evicts_def elim: list_emb_set)
  moreover have "lines_of j (entries r2) < lines_of j (entries r) \<Longrightarrow>
      lines_of j (entries r2) < lines_of j (entries r1) \<or> lines_of j (entries r1) < lines_of j (entries r)" for j
    by linarith
  ultimately show ?thesis
    using assms unfolding evicts_def by (auto intro: subseq_order.trans) blast+
qed

declare evict.simps [simp del]

lemma evict_result:
  assumes "ring_inv r" "0 \<le> n" "n \<le> maxBytes r" "k < 4"
  shows "(\<exists>r'. evict r k n = Some (Inr r') \<and> evicts k r r'
           \<and> int (length (entries r')) < maxLines r' \<and> ring_bytes r' + n \<le> maxBytes r')
       \<or> (\<exists>r'. evict r k n = Some (Inl (r'\<lparr>dropped := (dropped r')[k := dropped r' ! k + 1]\<rparr>)) \<and> evicts k r r'
           \<and> (\<forall>e\<in>set (entries r'). k < rank e))"
  using assms
proof (induction "length (entries r)" arbitrary: r rule: less_induct)
  case less
  let ?full = "int (length (entries r)) \<ge> maxLines r \<or> ring_bytes r + n > maxBytes r"
  show ?case
  proof (cases ?full)
    case False
    with less.prems have "evict r k n = Some (Inr r)" by (subst evict.simps) simp
    with False less.prems show ?thesis by (auto intro: evicts_refl)
  next
    case True
    define v where "v = victim (entries r)"
    define e where "e = entries r ! v"
    have "entries r \<noteq> []"
      using True less.prems by (auto simp: ring_inv_def)
    then have v: "v < length (entries r)" "\<forall>e'\<in>set (entries r). rank e \<le> rank e'"
      using victim_min by (auto simp: v_def e_def)
    have e4: "rank e < length (dropped r)" "k < length (dropped r)"
      using less.prems v by (auto simp: ring_inv_def e_def)
    show ?thesis
    proof (cases "rank e > k")
      case True
      with \<open>?full\<close> have "evict r k n = Some (Inl (r\<lparr>dropped := (dropped r)[k := dropped r ! k + 1]\<rparr>))"
        using v e4 by (subst evict.simps) (simp add: count_drop_def idx_Some v_def [symmetric] e_def [symmetric])
      with True v less.prems(1) show ?thesis by (fastforce intro: evicts_refl)
    next
      case False
      define r1 where "r1 = r\<lparr>dropped := (dropped r)[rank e := dropped r ! rank e + 1],
          ring_bytes := ring_bytes r - int (length (line e)),
          entries := take v (entries r) @ drop (Suc v) (entries r)\<rparr>"
      have eq: "evict r k n = evict r1 k n"
        using \<open>?full\<close> False v e4
        by (subst evict.simps) (simp add: count_drop_def idx_Some v_def [symmetric] e_def [symmetric] r1_def)
      have ev: "evicts k r r1"
        using evict_one [of r v k] less.prems v False by (simp add: e_def r1_def)
      then have inv: "ring_inv r1" "maxBytes r1 = maxBytes r" by (auto simp: evicts_def)
      have "length (entries r1) < length (entries r)"
        using v(1) by (simp add: r1_def)
      from less.hyps [OF this] inv less.prems show ?thesis
        unfolding eq using evicts_trans [OF ev] by auto
    qed
  qed
qed

lemma length_cut_line: "1 \<le> maxBytes r \<Longrightarrow> int (length (cut_line r l)) \<le> maxBytes r"
  using length_toValidUTF8 [of "take (nat (maxBytes r)) l"] by (simp add: cut_line_def le_nat_iff)

text \<open>The whole of \<open>push\<close>: it never panics; the line is queued at the end or dropped, after
  the deletions of the loop.\<close>

lemma push_result:
  assumes "ring_inv r" "k < 4"
  obtains "ring_closed r" "push r k l = Some r"
  | r' where "\<not> ring_closed r" "evicts k r r'"
      "push r k l = Some (r'\<lparr>entries := entries r' @ [\<lparr>rank = k, line = cut_line r l\<rparr>],
                           ring_bytes := ring_bytes r' + int (length (cut_line r l))\<rparr>)"
      "int (length (entries r')) < maxLines r'" "ring_bytes r' + int (length (cut_line r l)) \<le> maxBytes r'"
  | r' where "\<not> ring_closed r" "evicts k r r'" "\<forall>e\<in>set (entries r'). k < rank e"
      "push r k l = Some (r'\<lparr>dropped := (dropped r')[k := dropped r' ! k + 1]\<rparr>)"
proof (cases "ring_closed r")
  case True
  then show ?thesis using that(1) by (simp add: push_def)
next
  case False
  have "int (length (cut_line r l)) \<le> maxBytes r"
    using assms(1) length_cut_line by (simp add: ring_inv_def)
  from evict_result [OF assms(1) _ this assms(2)] that(2,3) False show ?thesis
    by (fastforce simp: push_def Let_def)
qed

lemma push_inv:
  assumes "ring_inv r" "k < 4"
  shows "\<exists>r'. push r k l = Some r' \<and> ring_inv r'"
  by (cases rule: push_result [OF assms, of l]) (use assms in \<open>auto simp: evicts_def ring_inv_def\<close>)

lemma levelRank_less [simp]: "levelRank l < 4"
  by (simp add: levelRank_def)

subsection \<open>The invariant of a history\<close>

definition sent_lines :: "sender \<Rightarrow> ringEntry list" where
  "sent_lines s = concat (map (\<lambda>x. case x of ShipLine e \<Rightarrow> [e] | _ \<Rightarrow> []) (sent s))"

definition summaries :: "sender \<Rightarrow> int list list" where
  "summaries s = concat (map (\<lambda>x. case x of ShipSummary d \<Rightarrow> [d] | _ \<Rightarrow> []) (sent s))"

definition reports_inv :: "sender \<Rightarrow> bool" where
  "reports_inv s \<longleftrightarrow> length (reported s) = 4
     \<and> (\<forall>j<4. reported s ! j = (\<Sum>d\<leftarrow>summaries s. d ! j) \<and> reported s ! j \<le> dropped (ring s) ! j)"

definition log_inv :: "log_state \<Rightarrow> bool" where
  "log_inv st \<longleftrightarrow>
     (let s = snd_of st; r = ring s in
      ring_inv r \<and> reports_inv s
      \<and> (\<forall>j<4. lines_of j (accepted st) = lines_of j (entries r) + lines_of j (sent_lines s) + dropped r ! j)
      \<and> subseq (sent_lines s @ entries r) (accepted st))"

lemma log_init_inv: "log_inv (log_init lines bytes)"
  by (simp add: log_inv_def log_init_def newRemoteHandler_def new_sender_def newLogRing_def ring_inv_def
      reports_inv_def sent_lines_def summaries_def nth_Cons' Let_def)

text \<open>A summary touches neither the ring nor the lines.\<close>

lemma shipDropSummary_frame [simp]:
  "ring (shipDropSummary s c ok) = ring s" "sent_lines (shipDropSummary s c ok) = sent_lines s"
  by (simp_all add: shipDropSummary_def Let_def sent_lines_def)

lemma shipDropSummary_reports:
  assumes "reports_inv s" "length (dropped (ring s)) = 4"
  shows "reports_inv (shipDropSummary s c ok)"
  using assms
  by (auto simp: shipDropSummary_def Let_def reports_inv_def summaries_def minus_counts_def)

lemma ring_update_frame [simp]:
  "sent_lines (s\<lparr>ring := x\<rparr>) = sent_lines s" "summaries (s\<lparr>ring := x\<rparr>) = summaries s"
  by (simp_all add: sent_lines_def summaries_def)

lemma evicts_log_inv:
  assumes "log_inv st" "evicts k (ring (snd_of st)) r'"
  shows "log_inv (st\<lparr>snd_of := (snd_of st)\<lparr>ring := r'\<rparr>\<rparr>)"
proof -
  let ?s = "snd_of st"
  have "subseq (entries r') (entries (ring ?s))"
    using assms(2) by (simp add: evicts_def)
  then have "subseq (sent_lines ?s @ entries r') (sent_lines ?s @ entries (ring ?s))"
    by (intro list_emb_append_mono) simp_all
  moreover have "subseq (sent_lines ?s @ entries (ring ?s)) (accepted st)"
    using assms(1) by (simp add: log_inv_def Let_def)
  ultimately have sub: "subseq (sent_lines ?s @ entries r') (accepted st)"
    by (rule subseq_order.trans)
  have le: "lines_of j (entries r') \<le> lines_of j (entries (ring ?s))" for j
    using list_emb_length [OF subseq_filter [OF \<open>subseq (entries r') _\<close>]] unfolding lines_of_def by simp
  have d: "dropped r' ! j = dropped (ring ?s) ! j + lines_of j (entries (ring ?s)) - lines_of j (entries r')"
    if "j < 4" for j
    using assms(2) that by (simp add: evicts_def)
  have "reports_inv (?s\<lparr>ring := r'\<rparr>)"
    using assms(1) le d by (simp add: log_inv_def reports_inv_def Let_def) (metis add_increasing2 diff_ge_0_iff_ge add_diff_eq)
  with sub assms d show ?thesis
    by (simp add: log_inv_def Let_def evicts_def)
qed

lemma LogCall_inv:
  assumes "log_inv st"
  shows "\<exists>st'. log_step st (LogCall level msg) = Some st' \<and> log_inv st'"
proof -
  let ?s = "snd_of st" and ?k = "levelRank level"
  have inv: "ring_inv (ring ?s)"
    using assms by (simp add: log_inv_def Let_def)
  show ?thesis
  proof (cases rule: push_result [OF inv levelRank_less [of level], of msg])
    case 1
    with assms show ?thesis by (simp add: Let_def)
  next
    case (2 r')
    let ?e = "\<lparr>rank = ?k, line = cut_line (ring ?s) msg\<rparr>"
    have "subseq (sent_lines ?s @ entries r' @ [?e]) (accepted st @ [?e])"
      if "subseq (sent_lines ?s @ entries r') (accepted st)"
      using list_emb_append_mono [OF that subseq_order.refl [of "[?e]"]] by simp
    with evicts_log_inv [OF assms 2(2)] 2 push_inv [OF inv levelRank_less [of level], of msg] show ?thesis
      by (auto simp: Let_def log_inv_def reports_inv_def)
  next
    case (3 r')
    have "subseq (sent_lines ?s @ entries r') (accepted st @ [e])"
      if "subseq (sent_lines ?s @ entries r') (accepted st)" for e
      using list_emb_append_mono [OF that, of "[]" "[e]"] by simp
    moreover have "length (dropped r') = 4" using 3(2) by (simp add: evicts_def ring_inv_def)
    ultimately show ?thesis
      using evicts_log_inv [OF assms 3(2)] 3 push_inv [OF inv levelRank_less [of level], of msg]
      by (force simp: Let_def log_inv_def reports_inv_def nth_list_update)
  qed
qed

lemma pop_inv:
  assumes "ring_inv r" "pop r = (r', x)"
  shows "ring_inv r'"
  using assms by (auto simp: pop_def ring_inv_def split: list.splits)

lemma finished_frame [simp]:
  "log_inv (st\<lparr>snd_of := s\<lparr>finished := b\<rparr>\<rparr>) = log_inv (st\<lparr>snd_of := s\<rparr>)"
  by (simp add: log_inv_def reports_inv_def sent_lines_def summaries_def Let_def)

lemma shipDropSummary_log_inv:
  "log_inv (st\<lparr>snd_of := s\<rparr>) \<Longrightarrow> log_inv (st\<lparr>snd_of := shipDropSummary s c ok\<rparr>)"
  using shipDropSummary_reports [of s c ok] by (simp add: log_inv_def Let_def ring_inv_def)

text \<open>The oldest line leaves the ring: it is shipped, or counted as dropped.\<close>

lemma popped_log_inv:
  assumes "log_inv st" "entries (ring (snd_of st)) = e # es"
  defines "s \<equiv> snd_of st"
  defines "r \<equiv> (ring s)\<lparr>entries := es, ring_bytes := ring_bytes (ring s) - int (length (line e))\<rparr>"
  shows "pop (ring s) = (r, Popped e)"
    "log_inv (st\<lparr>snd_of := s\<lparr>ring := r, sent := sent s @ [ShipLine e]\<rparr>\<rparr>)"
    "\<exists>r'. drop_line r (rank e) = Some r' \<and> log_inv (st\<lparr>snd_of := s\<lparr>ring := r'\<rparr>\<rparr>)"
proof -
  show pop: "pop (ring s) = (r, Popped e)"
    using assms(2) by (simp add: pop_def r_def s_def)
  have k: "rank e < 4" "length (dropped (ring s)) = 4" and r: "ring_inv r"
    using assms(1,2) pop_inv [OF _ pop] by (auto simp: log_inv_def ring_inv_def Let_def s_def)
  show "log_inv (st\<lparr>snd_of := s\<lparr>ring := r, sent := sent s @ [ShipLine e]\<rparr>\<rparr>)"
    using assms(1,2) r by (auto simp: log_inv_def reports_inv_def Let_def sent_lines_def summaries_def s_def r_def)
  let ?r' = "r\<lparr>dropped := (dropped r)[rank e := dropped r ! rank e + 1]\<rparr>"
  have "subseq (sent_lines s @ es) (sent_lines s @ e # es)"
    by (intro list_emb_append_mono list_emb_Cons subseq_order.refl)
  then have "subseq (sent_lines s @ es) (accepted st)"
    using assms(1,2) subseq_order.trans by (fastforce simp: log_inv_def Let_def s_def)
  moreover have "ring_inv ?r'"
    using r by (simp add: ring_inv_def)
  moreover have "reports_inv (s\<lparr>ring := ?r'\<rparr>)"
    using assms(1) k by (auto simp: log_inv_def reports_inv_def Let_def s_def r_def nth_list_update)
  ultimately have "log_inv (st\<lparr>snd_of := s\<lparr>ring := ?r'\<rparr>\<rparr>)"
    using assms(1,2) k by (simp add: log_inv_def Let_def s_def r_def nth_list_update)
  moreover have "drop_line r (rank e) = Some ?r'"
    using k by (simp add: drop_line_def count_drop_def r_def)
  ultimately show "\<exists>r'. drop_line r (rank e) = Some r' \<and> log_inv (st\<lparr>snd_of := s\<lparr>ring := r'\<rparr>\<rparr>)"
    by blast
qed

lemma SendPass_inv:
  assumes "log_inv st"
  shows "\<exists>st'. log_step st (SendPass c ok c2 ok2) = Some st' \<and> log_inv st'"
proof (cases "entries (ring (snd_of st))")
  case Nil
  then show ?thesis
    using assms shipDropSummary_log_inv [of "snd_of st" st c2 ok2] by (simp add: send_pass_def pop_def)
next
  case (Cons e es)
  note P = popped_log_inv [OF assms Cons]
  show ?thesis
    using P(3) assms shipDropSummary_log_inv [OF P(2)] by (auto simp: send_pass_def P(1))
qed

lemma log_step_inv: "log_inv st \<Longrightarrow> \<exists>st'. log_step st e = Some st' \<and> log_inv st'"
proof (cases e)
  case CloseLog
  assume "log_inv st"
  with CloseLog show ?thesis
    by (auto simp: close_ring_def log_inv_def reports_inv_def ring_inv_def Let_def)
qed (use LogCall_inv SendPass_inv in blast)+

lemma log_run_inv: "log_inv st \<Longrightarrow> \<exists>st'. log_run st es = Some st' \<and> log_inv st'"
proof (induction es arbitrary: st)
  case (Cons e es)
  from log_step_inv [OF Cons.prems, of e] Cons.IH show ?case by fastforce
qed simp

text \<open>A shipped summary at the end of the flush leaves nothing unreported.\<close>

lemma final_pass_reports:
  assumes "log_inv st" "ring_closed (ring (snd_of st))" "entries (ring (snd_of st)) = []" "\<not> finished (snd_of st)"
    and "log_step st (SendPass False ok False True) = Some st'"
  shows "reported (snd_of st') = dropped (ring (snd_of st'))" "finished (snd_of st')"
  using assms by (auto simp: send_pass_def pop_def shipDropSummary_def Let_def)

subsection \<open>Properties\<close>




text \<open>eviction keeps the important lines: when a log call loses lines of rank \<open>j\<close>, queued or
  new, then the new line ranks \<open>j\<close> or above and every line left in the buffer ranks at least
  \<open>j\<close>; so no warning or error is lost while a debug or info line stays queued.\<close>

theorem push_drops_lowest:
  assumes "log_run (log_init lines bytes) es = Some st" and "r = ring (snd_of st)"
    and "push r (levelRank level) msg = Some r'" and "j < 4" and "dropped r' ! j > dropped r ! j"
  shows "j \<le> levelRank level \<and> (\<forall>e\<in>set (entries r'). j \<le> rank e)"
proof -
  have inv: "ring_inv r"
    using log_run_inv [OF log_init_inv, of lines bytes es] assms(1,2) by (auto simp: log_inv_def Let_def)
  have le: "lines_of i (entries r1) < lines_of i (entries r)"
    if "evicts (levelRank level) r r1" "i < 4" "dropped r1 ! i > dropped r ! i" for r1 i
    using that by (auto simp: evicts_def)
  show ?thesis
  proof (cases rule: push_result [OF inv levelRank_less [of level], of msg])
    case 1
    then show ?thesis using assms(3,5) by simp
  next
    case (2 r1)
    with assms(3-5) le [OF 2(2), of j] show ?thesis by (auto simp: evicts_def)
  next
    case (3 r1)
    then have "length (dropped r1) = 4" by (simp add: evicts_def ring_inv_def)
    with 3 assms(3-5) le [OF 3(2), of j] show ?thesis
      by (cases "j = levelRank level") (force simp: evicts_def)+
  qed
qed

theorem push_drops_lowest_witness:
  "let r' = \<lparr>entries = [\<lparr>rank = 3, line = ''boom''\<rparr>], ring_bytes = 4, maxLines = 1, maxBytes = 100,
             ring_closed = False, dropped = [0, 1, 0, 0]\<rparr> in
   push (ring (snd_of \<lparr>snd_of = (newRemoteHandler 1 100)\<lparr>ring := (newLogRing 1 100)\<lparr>entries := [\<lparr>rank = 1, line = ''hi''\<rparr>], ring_bytes := 2\<rparr>\<rparr>,
       accepted = [\<lparr>rank = 1, line = ''hi''\<rparr>]\<rparr>)) (levelRank 8) ''boom'' = Some r'
   \<and> (\<forall>e\<in>set (entries r'). 1 \<le> rank e)"
proof -
  let ?st = "\<lparr>snd_of = (newRemoteHandler 1 100)\<lparr>ring := (newLogRing 1 100)\<lparr>entries := [\<lparr>rank = 1, line = ''hi''\<rparr>], ring_bytes := 2\<rparr>\<rparr>,
       accepted = [\<lparr>rank = 1, line = ''hi''\<rparr>]\<rparr>"
  let ?r = "\<lparr>entries = [\<lparr>rank = 3, line = ''boom''\<rparr>], ring_bytes = 4, maxLines = 1, maxBytes = 100,
             ring_closed = False, dropped = [0, 1, 0, 0]\<rparr>"
  have 1: "log_run (log_init 1 100) [LogCall 0 ''hi''] = Some ?st"
    by (simp add: log_init_def newRemoteHandler_def new_sender_def newLogRing_def push_def cut_line_def levelRank_def
        evict.simps Let_def)
  have 2: "push (ring (snd_of ?st)) (levelRank 8) ''boom'' = Some ?r"
    by (simp add: newRemoteHandler_def new_sender_def newLogRing_def push_def cut_line_def levelRank_def
        evict.simps victim_def idx_def count_drop_def Let_def)
  from push_drops_lowest [OF 1 refl 2, of 1] 2 show ?thesis
    by (simp add: newRemoteHandler_def new_sender_def newLogRing_def)
qed

text \<open>the drop summaries are exact: in every history the summaries that reached the server
  add up, per level, to the drops reported so far, which never exceed the drops counted; when
  the flush ends with a delivered summary, every drop has been reported once.\<close>

theorem drop_summaries_exact:
  "\<exists>st. log_run (log_init lines bytes) es = Some st
     \<and> (\<forall>j<4. (\<Sum>d\<leftarrow>summaries (snd_of st). d ! j) \<le> dropped (ring (snd_of st)) ! j)
     \<and> (ring_closed (ring (snd_of st)) \<and> entries (ring (snd_of st)) = [] \<and> \<not> finished (snd_of st) \<longrightarrow>
        (\<exists>st'. log_step st (SendPass False ok False True) = Some st' \<and> finished (snd_of st')
           \<and> (\<forall>j<4. (\<Sum>d\<leftarrow>summaries (snd_of st'). d ! j) = dropped (ring (snd_of st')) ! j)))"
proof -
  obtain st where st: "log_run (log_init lines bytes) es = Some st" "log_inv st"
    using log_run_inv [OF log_init_inv, of lines bytes es] by blast
  have rep: "j < 4 \<Longrightarrow> (\<Sum>d\<leftarrow>summaries (snd_of x). d ! j) = reported (snd_of x) ! j \<and>
      reported (snd_of x) ! j \<le> dropped (ring (snd_of x)) ! j" if "log_inv x" for x j
    using that by (auto simp: log_inv_def reports_inv_def Let_def)
  obtain st' where st': "log_step st (SendPass False ok False True) = Some st'" "log_inv st'"
    using SendPass_inv [OF st(2)] by blast
  show ?thesis
    using st rep [OF st(2)] rep [OF st'(2)] st'(1) final_pass_reports [OF st(2) _ _ _ st'(1)] by fastforce
qed

theorem drop_summaries_exact_witness:
  "\<exists>st st'. log_run (log_init 1 100) [LogCall 0 ''a'', SendPass False False False True, CloseLog] = Some st
     \<and> log_step st (SendPass False True False True) = Some st' \<and> finished (snd_of st')
     \<and> (\<Sum>d\<leftarrow>summaries (snd_of st'). d ! 1) = dropped (ring (snd_of st')) ! 1"
proof -
  let ?st = "\<lparr>snd_of = (newRemoteHandler 1 100)\<lparr>ring := (newLogRing 1 100)\<lparr>dropped := [0, 1, 0, 0], ring_closed := True\<rparr>\<rparr>,
       accepted = [\<lparr>rank = 1, line = ''a''\<rparr>]\<rparr>"
  have st: "log_run (log_init 1 100) [LogCall 0 ''a'', SendPass False False False True, CloseLog] = Some ?st"
    by (simp add: log_init_def newRemoteHandler_def new_sender_def newLogRing_def push_def cut_line_def levelRank_def
        evict.simps send_pass_def pop_def drop_line_def count_drop_def close_ring_def Let_def)
  have "ring_closed (ring (snd_of ?st)) \<and> entries (ring (snd_of ?st)) = [] \<and> \<not> finished (snd_of ?st)"
    by (simp add: newRemoteHandler_def new_sender_def newLogRing_def)
  with drop_summaries_exact [of 1 100 "[LogCall 0 ''a'', SendPass False False False True, CloseLog]" True]
  obtain st' where "log_step ?st (SendPass False True False True) = Some st'" "finished (snd_of st')"
    "\<forall>j<4. (\<Sum>d\<leftarrow>summaries (snd_of st'). d ! j) = dropped (ring (snd_of st')) ! j"
    unfolding st option.inject by blast
  then show ?thesis
    by (intro exI [of _ ?st] exI [of _ st'] conjI st) simp_all
qed

end
