(* ===== verification/Log_Redact.thy ===== *)
theory Log_Redact
  imports Log_Ring
begin

text \<open>
  The redaction of the remote log handler (caprf/loghandler.go): the split of an attribute key
  into segments, the test for sensitive keys, the redaction of attributes and groups, and the
  text of the line that \<open>Handle\<close> queues.

  Keys are ASCII: a byte is a rune, and \<open>unicode.IsLower\<close>, \<open>IsUpper\<close>, \<open>IsDigit\<close> and
  \<open>IsLetter\<close> are those of ASCII. Slice expressions panic out of range, so the functions return
  an option. \<open>logging.RedactText\<close>, a list of regular expressions, is an argument.
\<close>

subsection \<open>Sensitive keys\<close>

definition sensitiveWords :: "string list" where
  "sensitiveWords = [''password'', ''token'', ''secret'', ''key'', ''credential'', ''auth'',
     ''authorization'', ''cert'', ''private'', ''bearer'', ''session'']"

definition highSignalWords :: "string list" where
  "highSignalWords = [''password'', ''token'', ''secret'', ''credential'', ''bearer'', ''private'',
     ''session'', ''authorization'']"

definition sensitiveKeyPrefixes :: "string list" where
  "sensitiveKeyPrefixes = [''api'']"

text \<open>The loop of \<open>splitCamel\<close> over the index \<open>i\<close>.\<close>

function camel_loop :: "string \<Rightarrow> nat \<Rightarrow> nat \<Rightarrow> string list \<Rightarrow> string list go" where
  "camel_loop runes i start segs =
     (if i < length runes then
        do { prev \<leftarrow> idx runes (i - 1);
             cur \<leftarrow> idx runes i;
             if IsLower prev \<and> IsUpper cur \<or> IsDigit prev \<and> IsUpper cur \<or> IsDigit prev \<and> IsLower cur
             then do { seg \<leftarrow> slice runes start i; camel_loop runes (Suc i) i (segs @ [seg]) }
             else if i \<ge> 2 \<and> IsUpper (runes ! (i - 2)) \<and> IsUpper prev \<and> IsLower cur
             then do { seg \<leftarrow> slice runes start (i - 1); camel_loop runes (Suc i) (i - 1) (segs @ [seg]) }
             else camel_loop runes (Suc i) start segs }
      else do { seg \<leftarrow> slice_from runes start; Some (segs @ [seg]) })"
  by pat_completeness auto
termination
  by (relation "measure (\<lambda>(runes, i, _). length runes - i)") auto

definition splitCamel :: "string \<Rightarrow> string list go" where
  "splitCamel s = (if s = [] then Some [] else camel_loop s 1 0 [])"

fun concat_go :: "('a \<Rightarrow> 'b list go) \<Rightarrow> 'a list \<Rightarrow> 'b list go" where
  "concat_go f [] = Some []"
| "concat_go f (x # xs) = do { ys \<leftarrow> f x; zs \<leftarrow> concat_go f xs; Some (ys @ zs) }"

definition key_separator :: "char \<Rightarrow> bool" where
  "key_separator r = (r = CHR ''_'' \<or> r = CHR ''.'' \<or> r = CHR ''-'')"

definition splitKeySegments :: "string \<Rightarrow> string list go" where
  "splitKeySegments key =
     do { segs \<leftarrow> concat_go splitCamel (FieldsFunc key_separator [] key);
          Some (if segs = [] then [key] else segs) }"

definition endsWithWordKey :: "string \<Rightarrow> bool go" where
  "endsWithWordKey s =
     (if \<not> HasSuffix s ''key'' then Some False
      else do { before \<leftarrow> slice_to s (length s - 3);
                if before = [] then Some True
                else do { c \<leftarrow> idx before (length before - 1);
                          Some (\<not> IsLetter c \<or> (\<exists>p\<in>set sensitiveKeyPrefixes. HasSuffix before p)) } })"

definition isSensitiveKey :: "string \<Rightarrow> bool go" where
  "isSensitiveKey key =
     do { segs \<leftarrow> splitKeySegments key;
          if \<exists>seg\<in>set segs. ToLower seg \<in> set sensitiveWords then Some True
          else do { let lower = ToLower key;
                    k \<leftarrow> endsWithWordKey lower;
                    Some (k \<or> (\<exists>word\<in>set highSignalWords. Contains lower word)) } }"

subsection \<open>Attributes\<close>

text \<open>An attribute value is a group or a leaf, here its text.\<close>

datatype attr = Attr (attr_key: string) (attr_value: "attr_val")
  and attr_val = Text string | Group "attr list"

definition redacted :: attr_val where
  "redacted = Text ''[REDACTED]''"

fun redactAttr :: "attr \<Rightarrow> attr go" and redactAttrs :: "attr list \<Rightarrow> attr list go" where
  "redactAttr (Attr k (Group grp)) =
     do { s \<leftarrow> isSensitiveKey k;
          if s then Some (Attr k (Group (map (\<lambda>ga. Attr (attr_key ga) redacted) grp)))
          else do { grp \<leftarrow> redactAttrs grp; Some (Attr k (Group grp)) } }"
| "redactAttr (Attr k (Text v)) =
     do { s \<leftarrow> isSensitiveKey k; Some (if s then Attr k redacted else Attr k (Text v)) }"
| "redactAttrs [] = Some []"
| "redactAttrs (a # as) = do { a \<leftarrow> redactAttr a; as \<leftarrow> redactAttrs as; Some (a # as) }"

text \<open>\<open>slog.Value.String\<close>: a group prints as a bracketed list of its attributes.\<close>

fun value_string :: "attr_val \<Rightarrow> string" and attr_string :: "attr \<Rightarrow> string"
  and attr_strings :: "attr list \<Rightarrow> string" where
  "value_string (Text t) = t"
| "value_string (Group grp) = ''['' @ attr_strings grp @ '']''"
| "attr_string (Attr k v) = k @ ''='' @ value_string v"
| "attr_strings [] = []"
| "attr_strings [a] = attr_string a"
| "attr_strings (a # as) = attr_string a @ '' '' @ attr_strings as"

subsection \<open>The handler\<close>

record remoteHandler =
  h_level :: int
  h_attrs :: "attr list"
  h_groups :: "string list"

definition Enabled :: "remoteHandler \<Rightarrow> int \<Rightarrow> bool" where
  "Enabled h level = (level \<ge> h_level h)"

definition WithAttrs :: "remoteHandler \<Rightarrow> attr list \<Rightarrow> remoteHandler go" where
  "WithAttrs h as = do { as \<leftarrow> redactAttrs as; Some (h\<lparr>h_attrs := h_attrs h @ as\<rparr>) }"

definition WithGroup :: "remoteHandler \<Rightarrow> string \<Rightarrow> remoteHandler" where
  "WithGroup h name = h\<lparr>h_groups := h_groups h @ [name]\<rparr>"

text \<open>\<open>slog.Level.String\<close>: the name of the level below and the distance to it.\<close>

definition level_string :: "int \<Rightarrow> string" where
  "level_string l =
     (let str = (\<lambda>base d. if d = 0 then base else base @ (if d < 0 then [] else ''+'') @ fmt_d d) in
      if l < 0 then str ''DEBUG'' (l + 4) else if l < 4 then str ''INFO'' l
      else if l < 8 then str ''WARN'' (l - 4) else str ''ERROR'' (l - 8))"

definition group_prefix :: "remoteHandler \<Rightarrow> string" where
  "group_prefix h = concat (map (\<lambda>g. g @ ''.'') (h_groups h))"

definition write_attr :: "string \<Rightarrow> attr \<Rightarrow> string" where
  "write_attr pre a = '' '' @ pre @ attr_key a @ ''='' @ value_string (attr_value a)"

text \<open>\<open>Handle\<close>: the record goes to the inner handler in its redacted form; when that fails, nothing
  is queued, else the line is pushed to the ring. The result is the record shown to the inner
  handler and the ring.\<close>

definition handle_line :: "(string \<Rightarrow> string) \<Rightarrow> remoteHandler \<Rightarrow> int \<Rightarrow> string \<Rightarrow> attr list \<Rightarrow> string go" where
  "handle_line redactText h level msg as =
     do { own \<leftarrow> redactAttrs (h_attrs h);
          as \<leftarrow> redactAttrs as;
          Some (redactText (''['' @ level_string level @ ''] '' @ msg
                @ concat (map (write_attr (group_prefix h)) own)
                @ concat (map (write_attr (group_prefix h)) as))) }"

definition Handle ::
    "(string \<Rightarrow> string) \<Rightarrow> remoteHandler \<Rightarrow> logRing \<Rightarrow> int \<Rightarrow> string \<Rightarrow> attr list \<Rightarrow> bool \<Rightarrow> (attr list \<times> logRing) go" where
  "Handle redactText h r level msg as inner_ok =
     do { shown \<leftarrow> redactAttrs as;
          if \<not> inner_ok then Some (shown, r)
          else do { l \<leftarrow> handle_line redactText h level msg as;
                    r \<leftarrow> push r (levelRank level) l;
                    Some (shown, r) } }"

subsection \<open>The split never panics and loses nothing\<close>

declare camel_loop.simps [simp del]

lemma slice_take:
  "i \<le> j \<Longrightarrow> j \<le> length xs \<Longrightarrow> take i xs @ take (j - i) (drop i xs) = take j xs"
  by (metis append_take_drop_id le_add_diff_inverse take_add)

lemma camel_loop_total:
  assumes "0 < i" "start < i" "i \<le> length runes" "concat segs = take start runes"
  shows "\<exists>out. camel_loop runes i start segs = Some out \<and> concat out = runes \<and> out \<noteq> []"
  using assms
proof (induction runes i start segs rule: camel_loop.induct)
  case (1 runes i start segs)
  show ?case
  proof (cases "i < length runes")
    case False
    then show ?thesis
      using "1.prems" by (subst camel_loop.simps) (simp add: slice_from_Some)
  next
    case True
    let ?p = "runes ! (i - 1)" and ?c = "runes ! i"
    have ix: "idx runes (i - 1) = Some ?p" "idx runes i = Some ?c"
      using True "1.prems" by (simp_all add: idx_Some)
    consider (A) "IsLower ?p \<and> IsUpper ?c \<or> IsDigit ?p \<and> IsUpper ?c \<or> IsDigit ?p \<and> IsLower ?c"
      | (B) "\<not> (IsLower ?p \<and> IsUpper ?c \<or> IsDigit ?p \<and> IsUpper ?c \<or> IsDigit ?p \<and> IsLower ?c)"
            "i \<ge> 2 \<and> IsUpper (runes ! (i - 2)) \<and> IsUpper ?p \<and> IsLower ?c"
      | (C) "\<not> (IsLower ?p \<and> IsUpper ?c \<or> IsDigit ?p \<and> IsUpper ?c \<or> IsDigit ?p \<and> IsLower ?c)"
            "\<not> (i \<ge> 2 \<and> IsUpper (runes ! (i - 2)) \<and> IsUpper ?p \<and> IsLower ?c)"
      by blast
    then show ?thesis
    proof cases
      case A
      let ?seg = "take (i - start) (drop start runes)"
      have s: "slice runes start i = Some ?seg" using True "1.prems" by (simp add: slice_Some)
      have "concat (segs @ [?seg]) = take i runes"
        using "1.prems" True slice_take [of start i runes] by simp
      with "1.IH"(1) [OF True ix A s] True "1.prems" s ix A show ?thesis
        by (subst camel_loop.simps) simp
    next
      case B
      let ?seg = "take (i - 1 - start) (drop start runes)"
      have s: "slice runes start (i - 1) = Some ?seg" using True "1.prems" by (simp add: slice_Some)
      have "concat (segs @ [?seg]) = take (i - 1) runes"
        using "1.prems" True slice_take [of start "i - 1" runes] by simp
      with "1.IH"(2) [OF True ix B s] True "1.prems" s ix B show ?thesis
        by (subst camel_loop.simps) auto
    next
      case C
      with "1.IH"(3) [OF True ix C] True "1.prems" ix show ?thesis
        by (subst camel_loop.simps) auto
    qed
  qed
qed

lemma splitCamel_total: "\<exists>out. splitCamel s = Some out \<and> concat out = s \<and> (out = [] \<longleftrightarrow> s = [])"
  using camel_loop_total [of 1 0 s "[]"] by (auto simp: splitCamel_def Suc_le_eq)

lemma concat_go_total:
  "(\<And>x. x \<in> set xs \<Longrightarrow> f x \<noteq> None) \<Longrightarrow> concat_go f xs = Some (concat (map (\<lambda>x. the (f x)) xs))"
proof (induction xs)
  case (Cons x xs)
  then obtain y where "f x = Some y" by fastforce
  with Cons show ?case by simp
qed simp

lemma splitKeySegments_eq:
  "splitKeySegments k =
     (let segs = concat (map (\<lambda>p. the (splitCamel p)) (FieldsFunc key_separator [] k))
      in Some (if segs = [] then [k] else segs))"
proof -
  have "splitCamel p \<noteq> None" for p
    using splitCamel_total [of p] by auto
  then show ?thesis
    by (simp add: splitKeySegments_def concat_go_total Let_def)
qed

lemma endsWithWordKey_total: "endsWithWordKey s \<noteq> None"
  by (auto simp: endsWithWordKey_def HasSuffix_def slice_to_Some idx_Some)

lemma isSensitiveKey_total: "\<exists>b. isSensitiveKey k = Some b"
  using endsWithWordKey_total [of "ToLower k"]
  by (auto simp: isSensitiveKey_def splitKeySegments_eq Let_def)

abbreviation sensitive :: "string \<Rightarrow> bool" where
  "sensitive k \<equiv> isSensitiveKey k = Some True"

lemma sensitive_cases: "isSensitiveKey k = Some (sensitive k)"
  using isSensitiveKey_total [of k] by auto

subsection \<open>Sensitive words in a key\<close>

lemma FieldsFunc_first:
  "\<forall>c\<in>set w. \<not> sep c \<Longrightarrow> w \<noteq> [] \<Longrightarrow> b = [] \<or> sep (hd b) \<Longrightarrow> cur @ w \<in> set (FieldsFunc sep cur (w @ b))"
proof (induction w arbitrary: cur)
  case (Cons c w)
  show ?case
  proof (cases "w = []")
    case True
    with Cons.prems show ?thesis by (cases b) auto
  next
    case False
    with Cons show ?thesis using Cons.IH [of "cur @ [c]"] by simp
  qed
qed simp

lemma FieldsFunc_mem:
  assumes "\<forall>c\<in>set w. \<not> sep c" "w \<noteq> []" "b = [] \<or> sep (hd b)" "a = [] \<and> cur = [] \<or> a \<noteq> [] \<and> sep (last a)"
  shows "w \<in> set (FieldsFunc sep cur (a @ w @ b))"
  using assms(4)
proof (induction a arbitrary: cur)
  case Nil
  then show ?case using FieldsFunc_first [OF assms(1-3), of "[]"] by simp
next
  case (Cons c a)
  then show ?case
    by (cases "a = []") (use FieldsFunc_first [OF assms(1-3), of "[]"] in \<open>auto split: if_splits\<close>)
qed

lemma one_case_unsplit:
  assumes "(\<forall>c\<in>set w. IsLower c) \<or> (\<forall>c\<in>set w. IsUpper c)" "w \<noteq> []"
  shows "splitCamel w = Some [w]"
proof -
  have disj: "\<not> (IsLower c \<and> IsUpper c)" "\<not> (IsLower c \<and> IsDigit c)" "\<not> (IsUpper c \<and> IsDigit c)" for c
    by (auto simp: IsLower_def IsUpper_def IsDigit_def byte_in_def)
  have "0 < i \<Longrightarrow> camel_loop w i 0 [] = Some [w]" for i
  proof (induction "length w - i" arbitrary: i)
    case 0
    then show ?case by (subst camel_loop.simps) (simp add: slice_from_Some)
  next
    case (Suc n)
    then have "camel_loop w (Suc i) 0 [] = Some [w]" by simp
    moreover have i: "i < length w" "i - 1 < length w" using Suc by auto
    moreover have "IsLower (w ! (i - 1)) \<and> IsLower (w ! i) \<or> IsUpper (w ! (i - 1)) \<and> IsUpper (w ! i)"
      using assms(1) i by (meson nth_mem)
    then have "\<not> IsDigit (w ! (i - 1))" "\<not> (IsLower (w ! (i - 1)) \<and> IsUpper (w ! i))"
      "\<not> (IsUpper (w ! (i - 1)) \<and> IsLower (w ! i))"
      using disj by blast+
    ultimately show ?case by (subst camel_loop.simps) (auto simp: idx_Some)
  qed
  with assms(2) show ?thesis by (simp add: splitCamel_def)
qed

subsection \<open>Redacted attributes\<close>

lemma redactAttr_simps:
  "redactAttr (Attr k (Text v)) = Some (if sensitive k then Attr k redacted else Attr k (Text v))"
  "sensitive k \<Longrightarrow> redactAttr (Attr k (Group g)) = Some (Attr k (Group (map (\<lambda>ga. Attr (attr_key ga) redacted) g)))"
  "\<not> sensitive k \<Longrightarrow> redactAttr (Attr k (Group g)) = do { g \<leftarrow> redactAttrs g; Some (Attr k (Group g)) }"
  using sensitive_cases [of k] by (auto split: if_splits)

declare redactAttr.simps [simp del]

text \<open>The texts of an attribute with the keys that lead to them.\<close>

fun attr_leaves :: "attr \<Rightarrow> (string list \<times> string) list"
  and attrs_leaves :: "attr list \<Rightarrow> (string list \<times> string) list" where
  "attr_leaves (Attr k (Text t)) = [([k], t)]"
| "attr_leaves (Attr k (Group g)) = map (\<lambda>(ks, t). (k # ks, t)) (attrs_leaves g)"
| "attrs_leaves [] = []"
| "attrs_leaves (a # as) = attr_leaves a @ attrs_leaves as"

definition hidden :: "(string list \<times> string) list \<Rightarrow> bool" where
  "hidden ls = (\<forall>ks t k. (ks, t) \<in> set ls \<longrightarrow> k \<in> set ks \<longrightarrow> sensitive k \<longrightarrow> t = ''[REDACTED]'')"

lemma hidden_simps [simp]:
  "hidden []" "hidden (xs @ ys) = (hidden xs \<and> hidden ys)" "hidden [([k], t)] = (sensitive k \<longrightarrow> t = ''[REDACTED]'')"
  by (auto simp: hidden_def)

lemma hidden_group [simp]:
  "\<not> sensitive k \<Longrightarrow> hidden ls \<Longrightarrow> hidden (map (\<lambda>(ks, t). (k # ks, t)) ls)"
  by (auto simp: hidden_def)

lemma redacted_leaves:
  "(ks, t) \<in> set (attrs_leaves (map (\<lambda>ga. Attr (attr_key ga) redacted) g)) \<Longrightarrow> t = ''[REDACTED]''"
  by (induction g) (auto simp: redacted_def)

lemma redacted_fixed:
  "redactAttrs (map (\<lambda>ga. Attr (attr_key ga) redacted) g) = Some (map (\<lambda>ga. Attr (attr_key ga) redacted) g)"
  by (induction g) (simp_all add: redacted_def redactAttr_simps)

text \<open>Redaction never panics, hides what is sensitive, and is idempotent.\<close>

lemma redact_ok:
  "\<exists>b. redactAttr a = Some b \<and> hidden (attr_leaves b) \<and> redactAttr b = Some b \<and> attr_key b = attr_key a"
  "\<exists>bs. redactAttrs as = Some bs \<and> hidden (attrs_leaves bs) \<and> redactAttrs bs = Some bs
      \<and> map attr_key bs = map attr_key as"
proof (induction a and as rule: redactAttr_redactAttrs.induct)
  case (1 k g)
  show ?case
  proof (cases "sensitive k")
    case True
    then show ?thesis
      by (auto simp: redactAttr_simps hidden_def o_def dest: redacted_leaves)
  next
    case False
    then have "isSensitiveKey k = Some False" using sensitive_cases [of k] by simp
    from "1.IH" [OF this] False show ?thesis by (auto simp: redactAttr_simps)
  qed
next
  case (2 k v)
  then show ?case by (auto simp: redactAttr_simps redacted_def)
next
  case (4 a as)
  then obtain b where b: "redactAttr a = Some b" "hidden (attr_leaves b)" "redactAttr b = Some b" "attr_key b = attr_key a"
    by blast
  from "4.IH"(2) [OF b(1)] b show ?case by auto
qed simp

text \<open>Two attributes are public-equal when they differ only in values under sensitive keys.\<close>

fun public_eq :: "attr \<Rightarrow> attr \<Rightarrow> bool" and public_eqs :: "attr list \<Rightarrow> attr list \<Rightarrow> bool" where
  "public_eq (Attr k (Text v)) (Attr k' (Text v')) = (k = k' \<and> (sensitive k \<or> v = v'))"
| "public_eq (Attr k (Group g)) (Attr k' (Group g')) =
     (k = k' \<and> (if sensitive k then map attr_key g = map attr_key g' else public_eqs g g'))"
| "public_eq (Attr k (Text v)) (Attr k' (Group g')) = False"
| "public_eq (Attr k (Group g)) (Attr k' (Text v')) = False"
| "public_eqs [] [] = True"
| "public_eqs (a # as) (b # bs) = (public_eq a b \<and> public_eqs as bs)"
| "public_eqs [] (b # bs) = False"
| "public_eqs (a # as) [] = False"

lemma map_redacted: "map attr_key g = map attr_key g' \<Longrightarrow>
    map (\<lambda>ga. Attr (attr_key ga) redacted) g = map (\<lambda>ga. Attr (attr_key ga) redacted) g'"
  by (induction g g' rule: list_induct2') auto

lemma public_eq_redact:
  "public_eq a b \<Longrightarrow> redactAttr a = redactAttr b"
  "public_eqs as bs \<Longrightarrow> redactAttrs as = redactAttrs bs"
proof (induction a b and as bs rule: public_eq_public_eqs.induct)
  case (2 k g k' g')
  show ?case
  proof (cases "sensitive k")
    case True
    with 2 map_redacted [of g g'] show ?thesis by (simp add: redactAttr_simps)
  next
    case False
    with 2 show ?thesis by (simp add: redactAttr_simps)
  qed
qed (auto simp: redactAttr_simps)

subsection \<open>Properties\<close>


lemma sensitive_token: "isSensitiveKey ''token'' = Some True"
  by (simp add: isSensitiveKey_def splitKeySegments_eq key_separator_def Let_def one_case_unsplit sensitiveWords_def
      IsLower_def IsUpper_def byte_in_def ToLower_def)


text \<open>C36: no secret reaches the server or the console through an attribute: for two log calls whose
  attributes differ only in values under sensitive keys, \<open>Handle\<close> shows the same record to the
  inner handler and leaves the same lines in the buffer.\<close>

theorem handle_noninterference:
  assumes "public_eqs as bs"
  shows "Handle redactText h r level msg as ok = Handle redactText h r level msg bs ok"
  unfolding Handle_def handle_line_def public_eq_redact(2) [OF assms] ..

theorem handle_noninterference_witness:
  "Handle id \<lparr>h_level = 0, h_attrs = [], h_groups = []\<rparr> (newLogRing 10 1000) 0 ''login'' [Attr ''token'' (Text ''abc'')] True
   = Handle id \<lparr>h_level = 0, h_attrs = [], h_groups = []\<rparr> (newLogRing 10 1000) 0 ''login'' [Attr ''token'' (Text ''xyz'')] True"
  using handle_noninterference [of "[Attr ''token'' (Text ''abc'')]" "[Attr ''token'' (Text ''xyz'')]"] sensitive_token
  by simp

text \<open>the key test finds a sensitive word wherever it stands as a word of its own: a key is
  sensitive when it is a sensitive word in lower or upper case, alone or delimited by
  underscore, dot or hyphen on either side, whatever surrounds it.\<close>

theorem delimited_word_sensitive:
  assumes "(\<forall>c\<in>set w. IsLower c) \<or> (\<forall>c\<in>set w. IsUpper c)" and "ToLower w \<in> set sensitiveWords"
    and "a = [] \<or> key_separator (last a)" and "b = [] \<or> key_separator (hd b)"
  shows "isSensitiveKey (a @ w @ b) = Some True"
proof -
  have w: "w \<noteq> []" using assms(2) by (auto simp: ToLower_def sensitiveWords_def)
  have "\<forall>c\<in>set w. \<not> key_separator c"
    using assms(1) by (auto simp: key_separator_def IsLower_def IsUpper_def byte_in_def)
  with w assms(3,4) have "w \<in> set (FieldsFunc key_separator [] (a @ w @ b))"
    by (intro FieldsFunc_mem) auto
  then have "w \<in> set (concat (map (\<lambda>p. the (splitCamel p)) (FieldsFunc key_separator [] (a @ w @ b))))"
    using one_case_unsplit [OF assms(1) w] by force
  then show ?thesis
    using assms(2) unfolding isSensitiveKey_def splitKeySegments_eq Let_def
    by (auto simp del: FieldsFunc.simps split: if_splits)
qed

theorem delimited_word_sensitive_witness:
  "isSensitiveKey ''x_SECRET.id'' = Some True"
proof -
  have "ToLower ''SECRET'' \<in> set sensitiveWords" by code_simp
  then show ?thesis
    using delimited_word_sensitive [of "''SECRET''" "''x_''" "''.id''"]
    by (simp add: IsUpper_def byte_in_def key_separator_def)
qed

end
