(* ===== verification/Provision_Errors.thy ===== *)
theory Provision_Errors
  imports Go_Strings
begin

text \<open>
  Errors of a provisioning run (provision/errors.go, provision/codes.go): Go's error trees with
  \<open>errors.Is\<close> and \<open>errors.As\<close>, the transient and permanent wrappers, the catalog of failure
  codes and the rule that gives every failure a code.
\<close>

subsection \<open>Error trees\<close>

text \<open>The sentinel errors that the code compares with \<open>errors.Is\<close>.\<close>

datatype sentinel = Canceled | DeadlineExceeded | ErrChecksumMismatch | ErrFormatProbe
  | ErrStagingForbidden | ErrStagingFull | ErrAllDisksInUse | ErrInUseCheck
  | ErrAmbiguousRootPartition | ErrEFIVarsUnavailable | ErrVerifyRebootUnsupported
  | ErrNoTime | ErrClockSkew | ErrMissing | ErrBuildMismatch | ErrNoCheckpoint

text \<open>
  An error value: a sentinel, an error of its own, \<open>fmt.Errorf\<close> with \<open>%w\<close> (the text around the
  wrapped error), \<open>errors.Join\<close>, and the error types of the package.
\<close>

datatype go_err = Sentinel sentinel | Opaque string | Wrapped string go_err string | Joined "go_err list"
  | TransientError "go_err option" | PermanentError "go_err option" | CodedError string go_err
  | RebootRequiredError string string

text \<open>The error and what it wraps, in the order in which \<open>errors.Is\<close> and \<open>errors.As\<close> look at them:
  the error first, then depth first what \<open>Unwrap\<close> returns.\<close>

fun chain :: "go_err \<Rightarrow> go_err list" where
  "chain (Sentinel s) = [Sentinel s]"
| "chain (Opaque t) = [Opaque t]"
| "chain (Wrapped a e b) = Wrapped a e b # chain e"
| "chain (Joined es) = Joined es # concat (map chain es)"
| "chain (TransientError None) = [TransientError None]"
| "chain (TransientError (Some e)) = TransientError (Some e) # chain e"
| "chain (PermanentError None) = [PermanentError None]"
| "chain (PermanentError (Some e)) = PermanentError (Some e) # chain e"
| "chain (CodedError c e) = CodedError c e # chain e"
| "chain (RebootRequiredError r d) = [RebootRequiredError r d]"

definition errors_Is :: "go_err \<Rightarrow> sentinel \<Rightarrow> bool" where
  "errors_Is e t = (Sentinel t \<in> set (chain e))"

definition errors_As :: "(go_err \<Rightarrow> bool) \<Rightarrow> go_err \<Rightarrow> go_err option" where
  "errors_As P e = find P (chain e)"

fun is_transient_error :: "go_err \<Rightarrow> bool" where
  "is_transient_error (TransientError _) = True"
| "is_transient_error _ = False"

fun is_permanent_error :: "go_err \<Rightarrow> bool" where
  "is_permanent_error (PermanentError _) = True"
| "is_permanent_error _ = False"

fun is_coded_error :: "go_err \<Rightarrow> bool" where
  "is_coded_error (CodedError _ _) = True"
| "is_coded_error _ = False"

fun is_reboot_error :: "go_err \<Rightarrow> bool" where
  "is_reboot_error (RebootRequiredError _ _) = True"
| "is_reboot_error _ = False"

definition isTransient :: "go_err \<Rightarrow> bool" where
  "isTransient e = (errors_As is_transient_error e \<noteq> None)"

definition isPermanent :: "go_err \<Rightarrow> bool" where
  "isPermanent e = (errors_As is_permanent_error e \<noteq> None)"

lemma errors_As_None: "errors_As P e = None \<longleftrightarrow> (\<forall>x\<in>set (chain e). \<not> P x)"
  by (auto simp: errors_As_def find_None_iff)

subsection \<open>Texts\<close>

definition reboot_message :: "string \<Rightarrow> string \<Rightarrow> string" where
  "reboot_message reason detail =
     ''reboot-required reason='' @ reason @ (if detail \<noteq> [] then '' '' @ detail else [])"

text \<open>\<open>Error()\<close>; the texts of the sentinels, which are plain constants, are an argument.
  \<open>errors.Join\<close> puts one error on a line.\<close>

fun error_text :: "(sentinel \<Rightarrow> string) \<Rightarrow> go_err \<Rightarrow> string" where
  "error_text st (Sentinel s) = st s"
| "error_text st (Opaque t) = t"
| "error_text st (Wrapped a e b) = a @ error_text st e @ b"
| "error_text st (Joined es) =
     (case map (error_text st) es of [] \<Rightarrow> [] | t # ts \<Rightarrow> t @ concat (map (\<lambda>x. CHR 0x0A # x) ts))"
| "error_text st (TransientError None) = ''transient error''"
| "error_text st (TransientError (Some e)) = error_text st e"
| "error_text st (PermanentError None) = ''permanent error''"
| "error_text st (PermanentError (Some e)) = error_text st e"
| "error_text st (CodedError c e) = error_text st e"
| "error_text st (RebootRequiredError r d) = reboot_message r d"

subsection \<open>Failure codes\<close>

datatype failureClass = ClassTransient | ClassPermanent | ClassConfig | ClassHardware | ClassEnvironment

text \<open>A catalog entry: code, class, step, text.\<close>

type_synonym failureCode = "string \<times> failureClass \<times> string \<times> string"

definition AnyStep :: string where "AnyStep = ''*''"

definition failureCodes :: "failureCode list" where
  "failureCodes =
    [
     (''BOOTY-RUN-001'', ClassPermanent, AnyStep,
      ''Step failed with an error that has no specific code.''),
     (''BOOTY-RUN-002'', ClassEnvironment, AnyStep,
      ''Run canceled or deadline exceeded.''),
     (''BOOTY-NET-001'', ClassEnvironment, ''network-setup'',
      ''Network setup failed.''),
     (''BOOTY-NET-002'', ClassEnvironment, ''network-setup'',
      ''Connectivity check to the provisioning server failed.''),
     (''BOOTY-NET-003'', ClassEnvironment, ''network-setup'',
      ''Token exchange or token renewal start failed.''),
     (''BOOTY-TIM-001'', ClassEnvironment, ''time-sync'',
      ''Time sync failed with TIME_SYNC=require: no usable time source, or the clock could not be set.''),
     (''BOOTY-TIM-002'', ClassEnvironment, AnyStep,
      ''A TLS certificate is not valid at the local clock: clock skew or an expired certificate.''),
     (''BOOTY-RPT-001'', ClassTransient, ''report-init'',
      ''Init callback failed.''),
     (''BOOTY-RPT-002'', ClassTransient, ''report-success'',
      ''Success callback failed.''),
     (''BOOTY-HW-001'', ClassHardware, ''collect-inventory'',
      ''Hardware inventory collection failed.''),
     (''BOOTY-HW-002'', ClassHardware, ''collect-firmware'',
      ''Firmware collection failed.''),
     (''BOOTY-HW-003'', ClassHardware, ''health-checks'',
      ''A health check failed.''),
     (''BOOTY-HW-004'', ClassHardware, ''setup-mellanox'',
      ''Mellanox NIC setup failed.''),
     (''BOOTY-HW-005'', ClassHardware, ''configure-sriov'',
      ''SR-IOV profile check or apply failed.''),
     (''BOOTY-HW-006'', ClassEnvironment, ''configure-sriov'',
      ''SR-IOV firmware changed; a verify reboot needs REBOOT_URL support in CAPRF.''),
     (''BOOTY-CFG-001'', ClassConfig, ''validate-provision-inputs'',
      ''Provisioning inputs are invalid.''),
     (''BOOTY-CFG-002'', ClassConfig, ''config'',
      ''The vars file or the configuration is invalid.''),
     (''BOOTY-IMG-001'', ClassPermanent, ''verify-image'',
      ''Image signature verification failed.''),
     (''BOOTY-IMG-002'', ClassTransient, ''stream-image'',
      ''Image download or write failed.''),
     (''BOOTY-IMG-003'', ClassPermanent, AnyStep,
      ''Image checksum mismatch.''),
     (''BOOTY-IMG-004'', ClassPermanent, AnyStep,
      ''Image format probe failed.''),
     (''BOOTY-IMG-005'', ClassTransient, ''apply-sysexts'',
      ''System extension download or install failed.''),
     (''BOOTY-IMG-006'', ClassTransient, ''prepare-oci-prepulls'',
      ''OCI image pre-pull preparation failed.''),
     (''BOOTY-IMG-007'', ClassPermanent, AnyStep,
      ''The staged image does not fit in the staging tmpfs; use a raw or compressed raw image or IMAGE_STREAM.''),
     (''BOOTY-DSK-001'', ClassEnvironment, ''release-stale-mounts'',
      ''Stale target mounts could not be released.''),
     (''BOOTY-DSK-002'', ClassHardware, ''disable-lvm'',
      ''Disabling LVM failed.''),
     (''BOOTY-DSK-003'', ClassHardware, ''stop-raid'',
      ''Stopping RAID arrays failed.''),
     (''BOOTY-DSK-004'', ClassHardware, ''setup-nvme-namespaces'',
      ''NVMe namespace setup failed.''),
     (''BOOTY-DSK-005'', ClassHardware, ''setup-raid'',
      ''RAID setup failed.''),
     (''BOOTY-DSK-006'', ClassHardware, ''detect-disk'',
      ''No usable target disk found.''),
     (''BOOTY-DSK-007'', ClassHardware, ''wipe-disks'',
      ''Disk wipe or secure erase failed.''),
     (''BOOTY-DSK-008'', ClassHardware, ''apply-partition-layout'',
      ''Applying the partition layout failed.''),
     (''BOOTY-DSK-009'', ClassHardware, ''partprobe'',
      ''Partition table re-read failed.''),
     (''BOOTY-DSK-010'', ClassEnvironment, AnyStep,
      ''Target disk in use, or the in-use check failed.''),
     (''BOOTY-DSK-011'', ClassPermanent, ''parse-partitions'',
      ''Partitions of the target disk not found.''),
     (''BOOTY-DSK-012'', ClassPermanent, AnyStep,
      ''Ambiguous root partition candidates.''),
     (''BOOTY-DSK-013'', ClassHardware, ''mirror-root'',
      ''Root mirror setup failed.''),
     (''BOOTY-DSK-014'', ClassHardware, ''check-filesystem'',
      ''File system check failed.''),
     (''BOOTY-DSK-015'', ClassHardware, ''enable-lvm'',
      ''Enabling LVM failed.''),
     (''BOOTY-DSK-016'', ClassHardware, ''mount-root'',
      ''Mounting the root file system failed.''),
     (''BOOTY-DSK-017'', ClassHardware, ''mount-boot'',
      ''Mounting the boot file system failed.''),
     (''BOOTY-DSK-018'', ClassHardware, ''mount-shared-data'',
      ''Mounting the shared data file system failed.''),
     (''BOOTY-DSK-019'', ClassHardware, ''grow-partition'',
      ''Growing the root partition failed.''),
     (''BOOTY-DSK-020'', ClassHardware, ''resize-filesystem'',
      ''Resizing the root file system failed.''),
     (''BOOTY-DSK-021'', ClassConfig, ''configure-mdadm'',
      ''Writing the mdadm configuration failed.''),
     (''BOOTY-DSK-022'', ClassConfig, ''select-deprovision-disk'',
      ''Deprovision disk selection failed.''),
     (''BOOTY-DSK-023'', ClassHardware, ''decommission-wipe'',
      ''Decommission disk wipe failed.''),
     (''BOOTY-EFI-001'', ClassEnvironment, ''mount-efivarfs'',
      ''Mounting efivarfs failed.''),
     (''BOOTY-EFI-002'', ClassEnvironment, AnyStep,
      ''EFI variables unavailable.''),
     (''BOOTY-EFI-003'', ClassHardware, ''remove-efi-entries'',
      ''Removing EFI boot entries failed.''),
     (''BOOTY-EFI-004'', ClassHardware, ''remove-all-efi-entries'',
      ''Removing all EFI boot entries failed.''),
     (''BOOTY-EFI-005'', ClassConfig, ''install-esp-sync'',
      ''Installing ESP sync failed.''),
     (''BOOTY-EFI-006'', ClassConfig, ''install-efi-fallback'',
      ''Installing the EFI fallback loader failed.''),
     (''BOOTY-EFI-007'', ClassPermanent, ''verify-secureboot-chain'',
      ''Secure Boot chain verification failed.''),
     (''BOOTY-EFI-008'', ClassHardware, ''create-efi-boot-entry'',
      ''Creating the EFI boot entry failed.''),
     (''BOOTY-EFI-009'', ClassHardware, ''create-mirror-efi-boot-entry'',
      ''Creating the mirror EFI boot entry failed.''),
     (''BOOTY-OS-001'', ClassConfig, ''configure-overlayfs'',
      ''Overlay file system configuration failed.''),
     (''BOOTY-OS-002'', ClassConfig, ''set-hostname'',
      ''Setting the host name failed.''),
     (''BOOTY-OS-003'', ClassConfig, ''copy-provisioner-files'',
      ''Copying provisioner files failed.''),
     (''BOOTY-OS-004'', ClassConfig, ''configure-dns'',
      ''DNS configuration failed.''),
     (''BOOTY-OS-005'', ClassConfig, ''write-fstab'',
      ''Writing fstab failed.''),
     (''BOOTY-OS-006'', ClassEnvironment, ''setup-chroot-binds'',
      ''Chroot bind mounts failed.''),
     (''BOOTY-OS-007'', ClassConfig, ''configure-kubelet'',
      ''Kubelet configuration failed.''),
     (''BOOTY-OS-008'', ClassConfig, ''configure-serial-console'',
      ''Serial console configuration failed.''),
     (''BOOTY-OS-009'', ClassConfig, ''configure-grub'',
      ''GRUB configuration failed.''),
     (''BOOTY-OS-010'', ClassConfig, ''inject-cloudinit'',
      ''Cloud-init injection failed.''),
     (''BOOTY-OS-011'', ClassConfig, ''copy-machine-files'',
      ''Copying machine files failed.''),
     (''BOOTY-OS-012'', ClassConfig, ''run-machine-commands'',
      ''A machine command failed.''),
     (''BOOTY-OS-013'', ClassConfig, ''run-post-provision-cmds'',
      ''A post-provision command failed.''),
     (''BOOTY-OS-014'', ClassEnvironment, ''teardown-chroot'',
      ''Chroot teardown failed.''),
     (''BOOTY-OS-015'', ClassConfig, ''soft-deprovision'',
      ''Soft deprovision failed.''),
     (''BOOTY-WDT-001'', ClassEnvironment, AnyStep,
      ''A step made no progress within its watchdog budget; the hardware watchdog resets the host.''),
     (''BOOTY-PAY-001'', ClassConfig, AnyStep,
      ''The vars need a ramdisk payload (FRR) that the ramdisk does not have: the boot loader did not load its archive, or the flavor has no such tool.''),
     (''BOOTY-PAY-002'', ClassPermanent, ''check-payloads'',
      ''A ramdisk payload archive is from another BOOTy build or architecture than the base ramdisk.'')]"

definition CodeGeneric :: string where "CodeGeneric = ''BOOTY-RUN-001''"
definition CodeCanceled :: string where "CodeCanceled = ''BOOTY-RUN-002''"

definition sentinelCodes :: "(sentinel \<times> string) list" where
  "sentinelCodes =
     [(Canceled, CodeCanceled), (DeadlineExceeded, CodeCanceled),
      (ErrChecksumMismatch, ''BOOTY-IMG-003''), (ErrFormatProbe, ''BOOTY-IMG-004''),
      (ErrStagingForbidden, ''BOOTY-IMG-004''), (ErrStagingFull, ''BOOTY-IMG-007''),
      (ErrAllDisksInUse, ''BOOTY-DSK-010''), (ErrInUseCheck, ''BOOTY-DSK-010''),
      (ErrAmbiguousRootPartition, ''BOOTY-DSK-012''), (ErrEFIVarsUnavailable, ''BOOTY-EFI-002''),
      (ErrVerifyRebootUnsupported, ''BOOTY-HW-006''), (ErrNoTime, ''BOOTY-TIM-001''),
      (ErrClockSkew, ''BOOTY-TIM-002''), (ErrMissing, ''BOOTY-PAY-001''),
      (ErrBuildMismatch, ''BOOTY-PAY-002'')]"

definition codeFor :: "string \<Rightarrow> go_err \<Rightarrow> string" where
  "codeFor step e =
     (case find (\<lambda>(s, _). errors_Is e s) sentinelCodes of
        Some (_, code) \<Rightarrow> code
      | None \<Rightarrow>
          (case find (\<lambda>(_, _, s, _). s = step) failureCodes of
             Some (code, _) \<Rightarrow> code
           | None \<Rightarrow> CodeGeneric))"

definition WithCode :: "string \<Rightarrow> go_err option \<Rightarrow> go_err option" where
  "WithCode step err =
     (case err of
        None \<Rightarrow> None
      | Some e \<Rightarrow> if errors_As is_coded_error e \<noteq> None then Some e
                  else Some (CodedError (codeFor step e) e))"

definition CodeOf :: "go_err \<Rightarrow> string" where
  "CodeOf e = (case errors_As is_coded_error e of Some (CodedError c _) \<Rightarrow> c | _ \<Rightarrow> [])"

subsection \<open>The rule of the codes\<close>

lemma sentinel_codes_in_catalog: "list_all (\<lambda>(_, c). c \<in> set (map fst failureCodes)) sentinelCodes"
  by code_simp

lemma CodeGeneric_in_catalog: "CodeGeneric \<in> set (map fst failureCodes)"
  by code_simp

lemma codeFor_in_catalog: "codeFor step e \<in> set (map fst failureCodes)"
proof (cases "find (\<lambda>(s, _). errors_Is e s) sentinelCodes")
  case (Some x)
  then have "x \<in> set sentinelCodes" by (auto dest: find_SomeD)
  with Some sentinel_codes_in_catalog show ?thesis
    by (auto simp: codeFor_def list_all_iff split: prod.splits)
next
  case None
  show ?thesis
  proof (cases "find (\<lambda>(_, _, s, _). s = step) failureCodes")
    case (Some c)
    then have "c \<in> set failureCodes" by (auto dest: find_SomeD)
    with None Some show ?thesis by (force simp: codeFor_def split: prod.splits)
  next
    case n: None
    with None CodeGeneric_in_catalog show ?thesis by (simp add: codeFor_def)
  qed
qed

lemma CodeOf_CodedError [simp]: "CodeOf (CodedError c e) = c"
  by (simp add: CodeOf_def errors_As_def)

subsection \<open>Properties\<close>

text \<open>every failure that leaves a step carries a code: an error that already has one keeps it;
  any other error gets a code of the catalog, that of the first sentinel error found anywhere in
  the error, else that of the step, else the generic one. Attaching a code twice changes nothing,
  and the text of the error stays the same.\<close>

theorem with_code_spec:
  "\<exists>e'. WithCode step (Some e) = Some e'
     \<and> WithCode other (Some e') = Some e'
     \<and> error_text st e' = error_text st e
     \<and> (if errors_As is_coded_error e \<noteq> None then e' = e
        else CodeOf e' \<in> set (map fst failureCodes)
          \<and> (\<forall>s c. find (\<lambda>(s, _). errors_Is e s) sentinelCodes = Some (s, c) \<longrightarrow> CodeOf e' = c))"
proof (cases "errors_As is_coded_error e = None")
  case True
  have "errors_As is_coded_error (CodedError c e) \<noteq> None" for c
    by (simp add: errors_As_def)
  with True codeFor_in_catalog [of step e] show ?thesis
    by (auto simp: WithCode_def codeFor_def)
next
  case False
  then show ?thesis by (auto simp: WithCode_def)
qed

theorem with_code_spec_witness:
  "\<exists>e'. WithCode ''stream-image'' (Some (Wrapped ''write: '' (Sentinel ErrChecksumMismatch) [])) = Some e'
     \<and> CodeOf e' = ''BOOTY-IMG-003''"
  using with_code_spec [of "''stream-image''" "Wrapped ''write: '' (Sentinel ErrChecksumMismatch) []"]
  by (auto simp: errors_As_def errors_Is_def sentinelCodes_def)

end
