(* ===== verification/Provision_Checkpoint.thy ===== *)
theory Provision_Checkpoint
  imports Provision_Errors
begin

text \<open>
  The checkpoint of a provisioning run (provision/checkpoint.go): its data, the atomic save
  through a temporary file, the load on resume, and the list of completed steps.

  A file holds a checkpoint in JSON or something that does not parse; \<open>json.Marshal\<close> and
  \<open>json.Unmarshal\<close> of the package are inverse on the exported fields, whose strings are valid
  UTF-8. What the system answers to a write, rename or remove is an argument.
\<close>

subsection \<open>Data\<close>

text \<open>The exported fields, which go to the file, and the two that do not.\<close>

record checkpointData =
  LastCompletedStep :: string
  NVMeTargetDevice :: string
  RAIDTargetDevice :: string
  MirrorTargetDisk :: string
  MirrorDisk :: string
  CompletedSteps :: "string list"
  FailureCount :: int
  CpErrors :: "string list"

record checkpoint = checkpointData +
  cp_path :: string
  cp_persist :: bool

definition emptyCheckpoint :: "bool \<Rightarrow> checkpoint" where
  "emptyCheckpoint persist =
     \<lparr>LastCompletedStep = [], NVMeTargetDevice = [], RAIDTargetDevice = [], MirrorTargetDisk = [],
      MirrorDisk = [], CompletedSteps = [], FailureCount = 0, CpErrors = [], cp_path = [], cp_persist = persist\<rparr>"

definition defaultCheckpointPath :: string where
  "defaultCheckpointPath = ''/tmp/booty-checkpoint.json''"

datatype file_content = Json checkpointData | Unparsable

type_synonym files = "string \<Rightarrow> file_content option"

subsection \<open>Operations\<close>

definition cp_file :: "checkpoint \<Rightarrow> string" where
  "cp_file c = (if cp_path c = [] then defaultCheckpointPath else cp_path c)"

abbreviation data_of :: "checkpoint \<Rightarrow> checkpointData" where
  "data_of c \<equiv> checkpointData.truncate c"

text \<open>What happens to the file system during a save: the error of \<open>WriteFile\<close> and what it leaves in
  the temporary file while it runs, the error of \<open>Rename\<close>, whether the clean-up works.\<close>

record save_io =
  write_err :: "go_err option"
  write_left :: "file_content option"
  rename_err :: "go_err option"
  cleanup_ok :: bool

text \<open>The states of the file system that a save passes through, the last one is the result. A crash
  leaves one of them.\<close>

definition save_states :: "checkpoint \<Rightarrow> save_io \<Rightarrow> files \<Rightarrow> files list" where
  "save_states c io fs =
     (if \<not> cp_persist c then [fs]
      else let p = cp_file c; tmp = p @ ''.tmp'';
               partial = fs(tmp := write_left io);
               written = fs(tmp \<mapsto> Json (data_of c)) in
        if write_err io \<noteq> None then [fs, partial]
        else if rename_err io \<noteq> None then [fs, partial, written, if cleanup_ok io then written(tmp := None) else written]
        else [fs, partial, written, written(p \<mapsto> Json (data_of c), tmp := None)])"

definition Save :: "checkpoint \<Rightarrow> save_io \<Rightarrow> files \<Rightarrow> go_err option \<times> files" where
  "Save c io fs =
     (if \<not> cp_persist c then None
      else case write_err io of
             Some e \<Rightarrow> Some (Wrapped ''write checkpoint tmp: '' e [])
           | None \<Rightarrow> (case rename_err io of
               Some e \<Rightarrow> Some (Wrapped ''rename checkpoint: '' e [])
             | None \<Rightarrow> None),
      last (save_states c io fs))"

definition LoadCheckpointFrom :: "string \<Rightarrow> go_err option \<Rightarrow> files \<Rightarrow> go_err + checkpoint" where
  "LoadCheckpointFrom path read_err fs =
     (case fs path of
        None \<Rightarrow> Inl (Sentinel ErrNoCheckpoint)
      | Some f \<Rightarrow>
         (case read_err of
            Some e \<Rightarrow> Inl (Wrapped ''read checkpoint: '' e [])
          | None \<Rightarrow>
             (case f of
                Unparsable \<Rightarrow> Inl (Wrapped ''unmarshal checkpoint: '' (Opaque ''json'') [])
              | Json d \<Rightarrow> Inr (checkpointData.extend d \<lparr>cp_path = path, cp_persist = True\<rparr>))))"

definition LoadCheckpoint :: "go_err option \<Rightarrow> files \<Rightarrow> go_err + checkpoint" where
  "LoadCheckpoint = LoadCheckpointFrom defaultCheckpointPath"

text \<open>\<open>Remove\<close>: a missing file is no error.\<close>

definition Remove :: "checkpoint \<Rightarrow> go_err option \<Rightarrow> files \<Rightarrow> go_err option \<times> files" where
  "Remove c remove_err fs =
     (if \<not> cp_persist c then (None, fs)
      else let p = cp_file c in
        if fs p = None then (None, fs)
        else case remove_err of
               Some e \<Rightarrow> (Some (Wrapped ''remove checkpoint: '' e []), fs)
             | None \<Rightarrow> (None, fs(p := None)))"

definition IsCompleted :: "'a checkpointData_scheme \<Rightarrow> string \<Rightarrow> bool" where
  "IsCompleted c name = (name \<in> set (CompletedSteps c))"

definition MarkStep :: "checkpoint \<Rightarrow> string \<Rightarrow> checkpoint" where
  "MarkStep c name =
     (let c = c\<lparr>LastCompletedStep := name\<rparr>
      in if IsCompleted c name then c else c\<lparr>CompletedSteps := CompletedSteps c @ [name]\<rparr>)"

subsection \<open>Lemmas\<close>

lemma tmp_neq [simp]: "p @ ''.tmp'' \<noteq> p" "p \<noteq> p @ ''.tmp''"
  by auto

lemma MarkStep_completed [simp]: "IsCompleted (MarkStep c name) s \<longleftrightarrow> s = name \<or> IsCompleted c s"
  by (auto simp: MarkStep_def IsCompleted_def Let_def)

lemma MarkStep_frame [simp]:
  "cp_persist (MarkStep c name) = cp_persist c" "cp_path (MarkStep c name) = cp_path c" "cp_file (MarkStep c name) = cp_file c"
  by (simp_all add: MarkStep_def Let_def cp_file_def)

lemma IsCompleted_data [simp]: "IsCompleted (data_of c) s = IsCompleted c s"
  by (simp add: IsCompleted_def checkpointData.defs)

text \<open>Every state of a save has the old or the new checkpoint in the file.\<close>

lemma save_states_file:
  "g \<in> set (save_states c io fs) \<Longrightarrow>
   g (cp_file c) = fs (cp_file c) \<or> cp_persist c \<and> g (cp_file c) = Some (Json (data_of c))"
  by (auto simp: save_states_def Let_def split: if_splits)

lemma Save_frame:
  "q \<noteq> cp_file c \<Longrightarrow> q \<noteq> cp_file c @ ''.tmp'' \<Longrightarrow> g \<in> set (save_states c io fs) \<Longrightarrow> g q = fs q"
  by (auto simp: save_states_def Let_def split: if_splits)

lemma Save_cases:
  assumes "Save c io fs = (r, fs')"
  shows "fs' \<in> set (save_states c io fs)"
    "fs' (cp_file c) = fs (cp_file c) \<or> cp_persist c \<and> fs' (cp_file c) = Some (Json (data_of c))"
    "r = None \<Longrightarrow> cp_persist c \<Longrightarrow> fs' (cp_file c) = Some (Json (data_of c))"
    "\<not> cp_persist c \<Longrightarrow> r = None \<and> fs' = fs"
proof -
  have "save_states c io fs \<noteq> []" by (simp add: save_states_def Let_def)
  with assms show "fs' \<in> set (save_states c io fs)" by (auto simp: Save_def)
  from save_states_file [OF this]
  show "fs' (cp_file c) = fs (cp_file c) \<or> cp_persist c \<and> fs' (cp_file c) = Some (Json (data_of c))" .
  show "r = None \<Longrightarrow> cp_persist c \<Longrightarrow> fs' (cp_file c) = Some (Json (data_of c))"
    using assms by (auto simp: Save_def save_states_def Let_def split: option.splits)
  show "\<not> cp_persist c \<Longrightarrow> r = None \<and> fs' = fs"
    using assms by (auto simp: Save_def save_states_def)
qed

subsection \<open>Properties\<close>



end
