(* ===== verification/Provision_Retry.thy ===== *)
theory Provision_Retry
  imports Complex_Main Provision_Errors
begin

text \<open>
  Retries of a provisioning step (provision/retry.go): the policies, the backoff with its guard
  against overflow of the 64-bit duration, and the retry loop.

  The function under retry works on a state. The context is asked at fixed points of every
  attempt; its answers are an argument. The random fraction and the product with the jitter
  are exact rationals, rounded towards zero as the conversion to a duration does.
\<close>

subsection \<open>Policies and backoff\<close>

record retryPolicy =
  MaxRetries :: int
  InitialDelay :: duration
  MaxDelay :: duration
  Jitter :: rat
  Transient :: bool

definition DefaultPolicies :: "(string \<times> retryPolicy) list" where
  "DefaultPolicies =
    [(''report-init'', \<lparr>MaxRetries = 5, InitialDelay = 2 * second, MaxDelay = 30 * second, Jitter = 1/5, Transient = True\<rparr>),
     (''configure-dns'', \<lparr>MaxRetries = 5, InitialDelay = 1 * second, MaxDelay = 15 * second, Jitter = 1/10, Transient = True\<rparr>),
     (''stream-image'', \<lparr>MaxRetries = 3, InitialDelay = 5 * second, MaxDelay = 60 * second, Jitter = 3/10, Transient = True\<rparr>),
     (''setup-raid'', \<lparr>MaxRetries = 2, InitialDelay = 2 * second, MaxDelay = 10 * second, Jitter = 1/10, Transient = True\<rparr>),
     (''detect-disk'', \<lparr>MaxRetries = 3, InitialDelay = 2 * second, MaxDelay = 10 * second, Jitter = 1/10, Transient = True\<rparr>),
     (''partprobe'', \<lparr>MaxRetries = 3, InitialDelay = 1 * second, MaxDelay = 5 * second, Jitter = 0, Transient = True\<rparr>),
     (''report-success'', \<lparr>MaxRetries = 5, InitialDelay = 2 * second, MaxDelay = 30 * second, Jitter = 1/5, Transient = True\<rparr>),
     (''create-efi-boot-entry'', \<lparr>MaxRetries = 2, InitialDelay = 1 * second, MaxDelay = 5 * second, Jitter = 0, Transient = True\<rparr>),
     (''create-mirror-efi-boot-entry'', \<lparr>MaxRetries = 2, InitialDelay = 1 * second, MaxDelay = 5 * second, Jitter = 0, Transient = True\<rparr>)]"

definition normalizePolicy :: "retryPolicy \<Rightarrow> retryPolicy" where
  "normalizePolicy p =
     (let p = (if MaxRetries p < 0 then p\<lparr>MaxRetries := 0\<rparr> else p);
          p = (if InitialDelay p < 0 then p\<lparr>InitialDelay := 0\<rparr> else p);
          p = (if MaxDelay p < 0 then p\<lparr>MaxDelay := 0\<rparr> else p);
          p = (if Jitter p < 0 then p\<lparr>Jitter := 0\<rparr> else p)
      in if Jitter p > 1 then p\<lparr>Jitter := 1\<rparr> else p)"

definition maxDuration :: duration where "maxDuration = 2 ^ 63 - 1"

definition wrap64 :: "int \<Rightarrow> int" where
  "wrap64 x = (x + 2 ^ 63) mod 2 ^ 64 - 2 ^ 63"

fun backoff_loop :: "retryPolicy \<Rightarrow> nat \<Rightarrow> duration \<Rightarrow> duration" where
  "backoff_loop p 0 delay = delay"
| "backoff_loop p (Suc n) delay =
     (let delay = (if delay > maxDuration div 2 then maxDuration else wrap64 (delay * 2))
      in if MaxDelay p > 0 \<and> delay \<ge> MaxDelay p then MaxDelay p
         else backoff_loop p n delay)"

definition backoffDelay :: "retryPolicy \<Rightarrow> nat \<Rightarrow> rat \<Rightarrow> duration" where
  "backoffDelay p attempt rnd =
     (let delay = (if InitialDelay p < 0 then 0 else InitialDelay p);
          delay = backoff_loop p (attempt - 1) delay;
          delay = (if MaxDelay p > 0 \<and> delay > MaxDelay p then MaxDelay p else delay)
      in if Jitter p > 0 then wrap64 (delay + \<lfloor>of_int delay * Jitter p * rnd\<rfloor>) else delay)"

subsection \<open>The retry loop\<close>

definition classifyRetryError :: "go_err \<Rightarrow> retryPolicy \<Rightarrow> go_err option" where
  "classifyRetryError e p =
     (if isPermanent e then Some (Wrapped ''permanent failure: '' e [])
      else if \<not> isTransient e \<and> \<not> Transient p then Some (Wrapped ''non-transient failure: '' e [])
      else None)"

text \<open>What \<open>ctx.Err()\<close> gives at the three points of an attempt: at its start, at the end of the
  delay, before the call.\<close>

datatype ctx_point = AtStart nat | AtDelay nat | AtCall nat

type_synonym ctx = "ctx_point \<Rightarrow> sentinel option"

definition retryCanceledErr :: "sentinel option \<Rightarrow> go_err option" where
  "retryCanceledErr c = (case c of None \<Rightarrow> None | Some s \<Rightarrow> Some (Wrapped ''retry canceled: '' (Sentinel s) []))"

definition waitRetryDelay :: "ctx \<Rightarrow> retryPolicy \<Rightarrow> nat \<Rightarrow> rat \<Rightarrow> go_err option" where
  "waitRetryDelay ctx p attempt rnd =
     (if attempt = 0 then None
      else if backoffDelay p attempt rnd \<le> 0 then None
      else retryCanceledErr (ctx (AtDelay attempt)))"

text \<open>The loop from \<open>attempt\<close> on, with \<open>n\<close> attempts left. Besides the error it returns the state and
  the answers of the calls in order.\<close>

fun retry_loop ::
    "retryPolicy \<Rightarrow> ctx \<Rightarrow> (nat \<Rightarrow> rat) \<Rightarrow> ('s \<Rightarrow> go_err option \<times> 's) \<Rightarrow> nat \<Rightarrow> nat \<Rightarrow> go_err option \<Rightarrow> 's
     \<Rightarrow> go_err option \<times> 's \<times> go_err option list" where
  "retry_loop p ctx rnd fn 0 attempt lastErr s =
     (Some (Wrapped (''exhausted '' @ fmt_d (MaxRetries p) @ '' retries: '') (case lastErr of Some e \<Rightarrow> e | None \<Rightarrow> Opaque ''%!w(<nil>)'') []), s, [])"
| "retry_loop p ctx rnd fn (Suc n) attempt lastErr s =
     (case retryCanceledErr (ctx (AtStart attempt)) of Some e \<Rightarrow> (Some e, s, []) | None \<Rightarrow>
      case waitRetryDelay ctx p attempt (rnd attempt) of Some e \<Rightarrow> (Some e, s, []) | None \<Rightarrow>
      case retryCanceledErr (ctx (AtCall attempt)) of Some e \<Rightarrow> (Some e, s, []) | None \<Rightarrow>
      case fn s of
        (None, s) \<Rightarrow> (None, s, [None])
      | (Some e, s) \<Rightarrow>
          (case classifyRetryError e p of
             Some ce \<Rightarrow> (Some ce, s, [Some e])
           | None \<Rightarrow> (let (r, s, calls) = retry_loop p ctx rnd fn n (Suc attempt) (Some e) s
                      in (r, s, Some e # calls))))"

definition WithRetry ::
    "retryPolicy \<Rightarrow> ctx \<Rightarrow> (nat \<Rightarrow> rat) \<Rightarrow> ('s \<Rightarrow> go_err option \<times> 's) \<Rightarrow> 's
     \<Rightarrow> go_err option \<times> 's \<times> go_err option list" where
  "WithRetry policy ctx rnd fn s =
     (let p = normalizePolicy policy in retry_loop p ctx rnd fn (nat (MaxRetries p) + 1) 0 None s)"

subsection \<open>The backoff in closed form\<close>

lemma wrap64_id: "- (2 ^ 63) \<le> x \<Longrightarrow> x < 2 ^ 63 \<Longrightarrow> wrap64 x = x"
  by (simp add: wrap64_def)

definition cap :: "retryPolicy \<Rightarrow> duration" where
  "cap p = (if MaxDelay p > 0 then MaxDelay p else maxDuration)"

lemma double_capped:
  assumes "0 \<le> d" "d \<le> maxDuration"
  shows "(if d > maxDuration div 2 then maxDuration else wrap64 (d * 2)) = min (d * 2) maxDuration"
  using assms by (auto simp: maxDuration_def wrap64_id min_def)

lemma backoff_loop_closed:
  assumes "0 \<le> d" "d \<le> cap p" "0 < cap p" "cap p \<le> maxDuration"
  shows "backoff_loop p n d = min (d * 2 ^ n) (cap p)"
  using assms
proof (induction n arbitrary: d)
  case (Suc n)
  let ?d = "min (d * 2) maxDuration"
  have d: "(if d > maxDuration div 2 then maxDuration else wrap64 (d * 2)) = ?d"
    using Suc.prems by (intro double_capped) auto
  have grow: "d * 2 \<le> d * 2 * 2 ^ n"
    using Suc.prems(1) by (simp add: mult_le_cancel_left1)
  show ?case
  proof (cases "MaxDelay p > 0 \<and> ?d \<ge> MaxDelay p")
    case True
    then have "backoff_loop p (Suc n) d = cap p"
      using d by (simp add: Let_def cap_def)
    moreover have "cap p \<le> d * 2" using True by (simp add: cap_def)
    then have "cap p \<le> d * 2 * 2 ^ n" using grow by linarith
    ultimately show ?thesis by (simp add: min_def ac_simps)
  next
    case False
    then have b: "backoff_loop p (Suc n) d = backoff_loop p n ?d"
      unfolding backoff_loop.simps Let_def d by argo
    have "?d \<le> cap p" using False Suc.prems by (auto simp: cap_def)
    with Suc.IH [of ?d] Suc.prems have "backoff_loop p n ?d = min (?d * 2 ^ n) (cap p)"
      by (simp add: maxDuration_def)
    also have "\<dots> = min (d * 2 * 2 ^ n) (cap p)"
    proof (cases "d * 2 \<le> maxDuration")
      case F: False
      then have "cap p = maxDuration" using \<open>?d \<le> cap p\<close> Suc.prems by simp
      moreover have "maxDuration \<le> maxDuration * 2 ^ n" by (simp add: maxDuration_def)
      ultimately show ?thesis using F grow by (simp add: min_def)
    qed simp
    finally show ?thesis using b by (simp add: ac_simps)
  qed
qed (simp add: min_def)

subsection \<open>The calls of the loop\<close>

text \<open>An error that the policy retries.\<close>

abbreviation retryable :: "retryPolicy \<Rightarrow> go_err \<Rightarrow> bool" where
  "retryable p e \<equiv> classifyRetryError e p = None"

text \<open>The state after \<open>i\<close> calls, and the answer of call \<open>i\<close>.\<close>

fun call_state :: "('s \<Rightarrow> go_err option \<times> 's) \<Rightarrow> 's \<Rightarrow> nat \<Rightarrow> 's" where
  "call_state fn s 0 = s"
| "call_state fn s (Suc i) = call_state fn (snd (fn s)) i"

definition call_answer :: "('s \<Rightarrow> go_err option \<times> 's) \<Rightarrow> 's \<Rightarrow> nat \<Rightarrow> go_err option" where
  "call_answer fn s i = fst (fn (call_state fn s i))"

lemma call_answer_Suc: "call_answer fn s (Suc i) = call_answer fn (snd (fn s)) i"
  by (simp add: call_answer_def)

text \<open>The calls are the answers of the function in order; all but the last are errors that the
  policy retries; the loop makes at most \<open>n\<close> calls.\<close>

lemma retry_loop_calls:
  assumes "retry_loop p ctx rnd fn n k l s = (r, s', calls)"
  shows "length calls \<le> n \<and> calls = map (call_answer fn s) [0..<length calls]
    \<and> s' = call_state fn s (length calls)
    \<and> (\<forall>i. Suc i < length calls \<longrightarrow> (\<exists>e. calls ! i = Some e \<and> retryable p e))"
  using assms
proof (induction p ctx rnd fn n k l s arbitrary: r s' calls rule: retry_loop.induct)
  case (2 p ctx rnd fn n k l s)
  show ?case
  proof (cases "\<exists>e s1. fn s = (Some e, s1) \<and> retryable p e \<and> calls \<noteq> []")
    case False
    with "2.prems" show ?thesis
      by (cases "fn s") (auto simp: call_answer_def split: option.splits prod.splits)
  next
    case True
    then obtain e s1 where e: "fn s = (Some e, s1)" "retryable p e" by blast
    obtain r1 s2 cs where l: "retry_loop p ctx rnd fn n (Suc k) (Some e) s1 = (r1, s2, cs)"
      using prod_cases3 by blast
    have c: "calls = Some e # cs" "s' = s2"
      and n: "retryCanceledErr (ctx (AtStart k)) = None" "waitRetryDelay ctx p k (rnd k) = None"
        "retryCanceledErr (ctx (AtCall k)) = None"
      using "2.prems" e l True by (auto split: option.splits)
    note IH = "2.IH" [OF n e(1) [symmetric] refl e(2) l]
    have "map (call_answer fn s) [0..<Suc (length cs)] = Some e # map (call_answer fn s1) [0..<length cs]"
      by (simp add: map_upt_Suc call_answer_Suc e(1) del: upt_Suc) (simp add: call_answer_def e(1))
    with IH c e show ?thesis
      by (auto simp: less_Suc_eq_0_disj nth_Cons' simp del: upt_Suc)
  qed
qed simp

text \<open>Without a cancellation the loop stops at the first answer that is a success or an error that
  the policy does not retry.\<close>

definition stops :: "retryPolicy \<Rightarrow> go_err option \<Rightarrow> bool" where
  "stops p a = (case a of None \<Rightarrow> True | Some e \<Rightarrow> \<not> retryable p e)"

definition exhausted :: "retryPolicy \<Rightarrow> go_err option \<Rightarrow> go_err" where
  "exhausted p l = Wrapped (''exhausted '' @ fmt_d (MaxRetries p) @ '' retries: '')
     (case l of Some e \<Rightarrow> e | None \<Rightarrow> Opaque ''%!w(<nil>)'') []"

lemma find_upt_Suc:
  "find P [0..<Suc n] = (if P 0 then Some 0 else map_option Suc (find (\<lambda>i. P (Suc i)) [0..<n]))"
proof -
  have "find P (map Suc xs) = map_option Suc (find (\<lambda>i. P (Suc i)) xs)" for xs
    by (induction xs) auto
  then show ?thesis
    by (simp add: upt_conv_Cons flip: map_Suc_upt del: upt_Suc)
qed

lemma map_answers: "map (call_answer fn s) [0..<Suc n] = fst (fn s) # map (call_answer fn (snd (fn s))) [0..<n]"
  by (simp add: map_upt_Suc call_answer_Suc del: upt_Suc) (simp add: call_answer_def)

lemma retry_loop_uncancelled:
  "retry_loop p (\<lambda>_. None) rnd fn n k l s =
     (case find (\<lambda>i. stops p (call_answer fn s i)) [0..<n] of
        Some i \<Rightarrow> (case call_answer fn s i of None \<Rightarrow> None | Some e \<Rightarrow> classifyRetryError e p,
                    call_state fn s (Suc i), map (call_answer fn s) [0..<Suc i])
      | None \<Rightarrow> (Some (exhausted p (if n = 0 then l else call_answer fn s (n - 1))),
                  call_state fn s n, map (call_answer fn s) [0..<n]))"
proof (induction n arbitrary: k l s)
  case 0
  then show ?case by (simp add: exhausted_def)
next
  case (Suc n)
  have a0: "call_answer fn s 0 = fst (fn s)" by (simp add: call_answer_def)
  have c: "retryCanceledErr None = None" "waitRetryDelay (\<lambda>_. None) p k (rnd k) = None"
    by (simp_all add: retryCanceledErr_def waitRetryDelay_def)
  show ?case
  proof (cases "stops p (fst (fn s))")
    case True
    then show ?thesis
      by (cases "fn s")
        (auto simp: find_upt_Suc a0 c stops_def map_answers simp del: upt_Suc split: option.splits)
  next
    case False
    then obtain e s1 where e: "fn s = (Some e, s1)" "retryable p e"
      by (cases "fn s") (auto simp: stops_def split: option.splits)
    have "call_answer fn s n = (if n = 0 then Some e else call_answer fn s1 (n - 1))"
      by (cases n) (simp_all add: call_answer_Suc e a0)
    then show ?thesis
      using False e Suc.IH [of "Suc k" "Some e" s1]
      by (auto simp: find_upt_Suc a0 c call_answer_Suc map_answers simp del: upt_Suc split: option.split)
  qed
qed

lemma normalizePolicy_bounds [simp]:
  "0 \<le> MaxRetries (normalizePolicy p)" "0 \<le> InitialDelay (normalizePolicy p)" "0 \<le> MaxDelay (normalizePolicy p)"
  "0 \<le> Jitter (normalizePolicy p)" "Jitter (normalizePolicy p) \<le> 1"
  "MaxRetries (normalizePolicy p) = max 0 (MaxRetries p)" "Transient (normalizePolicy p) = Transient p"
  by (simp_all add: normalizePolicy_def Let_def)

lemma retry_loop_None:
  assumes "retry_loop p ctx rnd fn n k l s = (None, s', calls)"
  shows "calls \<noteq> [] \<and> last calls = None"
  using assms
proof (induction p ctx rnd fn n k l s arbitrary: s' calls rule: retry_loop.induct)
  case (2 p ctx rnd fn n k l s)
  have n: "retryCanceledErr (ctx (AtStart k)) = None" "waitRetryDelay ctx p k (rnd k) = None"
        "retryCanceledErr (ctx (AtCall k)) = None"
    using "2.prems" by (auto split: option.splits)
  show ?case
  proof (cases "fn s")
    case (Pair a s1)
    show ?thesis
    proof (cases a)
      case None
      with Pair n "2.prems" show ?thesis by auto
    next
      case (Some e)
      with Pair n "2.prems" have r: "retryable p e" by (auto split: option.splits)
      obtain r1 s2 cs where l: "retry_loop p ctx rnd fn n (Suc k) (Some e) s1 = (r1, s2, cs)"
        using prod_cases3 by blast
      with Pair Some n r "2.prems" have "r1 = None" "calls = Some e # cs" by auto
      with "2.IH" [OF n Pair [symmetric] Some r] l show ?thesis by auto
    qed
  qed
qed simp

text \<open>Where the delay starts above the cap, the last test of \<open>backoffDelay\<close> lowers it.\<close>

lemma backoff_capped:
  assumes "0 < cap p" "cap p \<le> maxDuration" "0 \<le> InitialDelay p" "InitialDelay p \<le> maxDuration"
  shows "(let d = backoff_loop p (attempt - 1) (InitialDelay p)
          in if MaxDelay p > 0 \<and> d > MaxDelay p then MaxDelay p else d)
      = min (min (InitialDelay p) (cap p) * 2 ^ (attempt - 1)) (cap p)"
proof (cases "InitialDelay p \<le> cap p")
  case True
  with backoff_loop_closed [of "InitialDelay p" p "attempt - 1"] assms show ?thesis
    by (auto simp: Let_def cap_def min_def)
next
  case False
  then have m: "MaxDelay p > 0" "cap p = MaxDelay p"
    using assms(4) by (auto simp: cap_def split: if_splits)
  have "MaxDelay p \<le> backoff_loop p n (InitialDelay p)" for n
  proof (cases n)
    case 0
    with False m show ?thesis by simp
  next
    case (Suc n')
    have "MaxDelay p \<le> min (InitialDelay p * 2) maxDuration"
      using False m assms by auto
    with Suc m double_capped [OF assms(3,4)] show ?thesis
      by (simp add: Let_def)
  qed
  from this [of "attempt - 1"] have "(let d = backoff_loop p (attempt - 1) (InitialDelay p)
      in if MaxDelay p > 0 \<and> d > MaxDelay p then MaxDelay p else d) = cap p"
    using m by (simp add: Let_def)
  moreover have "cap p \<le> cap p * 2 ^ (attempt - 1)" using assms(1) by simp
  ultimately show ?thesis
    using False by (simp add: min_absorb2)
qed

lemma jitter_part:
  fixes j rnd :: rat
  assumes "0 \<le> d" "0 \<le> j" "j \<le> 1" "0 \<le> rnd" "rnd < 1"
  shows "0 \<le> \<lfloor>of_int d * j * rnd\<rfloor>" "\<lfloor>of_int d * j * rnd\<rfloor> \<le> d"
proof -
  have "j * rnd \<le> 1 * 1" using assms by (intro mult_mono) auto
  then have "of_int d * (j * rnd) \<le> of_int d * 1"
    using assms(1) by (intro mult_left_mono) auto
  then show "\<lfloor>of_int d * j * rnd\<rfloor> \<le> d"
    by (simp add: floor_le_iff mult.assoc)
  show "0 \<le> \<lfloor>of_int d * j * rnd\<rfloor>" using assms by simp
qed

subsection \<open>Properties\<close>

text \<open>C38: the retry loop, in any interleaving with a cancellation, calls the step at most
  \<open>MaxRetries + 1\<close> times, never again after a success, a permanent error or an error that the
  policy does not retry, and returns success only when its last call succeeded.\<close>

theorem with_retry_bounded:
  assumes "WithRetry policy ctx rnd fn s = (r, s', calls)"
  shows "int (length calls) \<le> max 0 (MaxRetries policy) + 1
    \<and> calls = map (call_answer fn s) [0..<length calls]
    \<and> (\<forall>i. Suc i < length calls \<longrightarrow> (\<exists>e. calls ! i = Some e \<and> \<not> isPermanent e \<and> (isTransient e \<or> Transient policy)))
    \<and> (r = None \<longrightarrow> calls \<noteq> [] \<and> last calls = None)"
proof -
  let ?p = "normalizePolicy policy"
  have run: "retry_loop ?p ctx rnd fn (nat (MaxRetries ?p) + 1) 0 None s = (r, s', calls)"
    using assms unfolding WithRetry_def Let_def .
  note C = retry_loop_calls [OF run]
  have ret: "retryable ?p e \<Longrightarrow> \<not> isPermanent e \<and> (isTransient e \<or> Transient policy)" for e
    by (auto simp: classifyRetryError_def split: if_splits)
  show ?thesis
  proof (intro conjI)
    show "int (length calls) \<le> max 0 (MaxRetries policy) + 1"
      using C [THEN conjunct1] by auto
    show "calls = map (call_answer fn s) [0..<length calls]"
      by (rule C [THEN conjunct2, THEN conjunct1])
    show "\<forall>i. Suc i < length calls \<longrightarrow>
        (\<exists>e. calls ! i = Some e \<and> \<not> isPermanent e \<and> (isTransient e \<or> Transient policy))"
      using C [THEN conjunct2, THEN conjunct2, THEN conjunct2] ret by metis
    show "r = None \<longrightarrow> calls \<noteq> [] \<and> last calls = None"
    proof
      assume "r = None"
      from run [unfolded this] show "calls \<noteq> [] \<and> last calls = None" by (rule retry_loop_None)
    qed
  qed
qed

theorem with_retry_bounded_witness:
  "let (r, s', calls) = WithRetry \<lparr>MaxRetries = 1, InitialDelay = 0, MaxDelay = 0, Jitter = 0, Transient = True\<rparr>
       (\<lambda>_. None) (\<lambda>_. 0) (\<lambda>s. (Some (Opaque ''busy''), Suc s)) (0 :: nat) in
   int (length calls) \<le> 2 \<and> s' = 2"
proof -
  let ?p = "\<lparr>MaxRetries = 1, InitialDelay = 0, MaxDelay = 0, Jitter = 0, Transient = True\<rparr>"
  let ?w = "WithRetry ?p (\<lambda>_. None) (\<lambda>_. 0) (\<lambda>s. (Some (Opaque ''busy''), Suc s)) (0 :: nat)"
  obtain r s' calls where w: "?w = (r, s', calls)" using prod_cases3 by blast
  moreover have "fst (snd ?w) = 2"
    by (simp add: WithRetry_def normalizePolicy_def retryCanceledErr_def waitRetryDelay_def classifyRetryError_def
        isPermanent_def errors_As_def eval_nat_numeral Let_def split_beta)
  ultimately show ?thesis
    using with_retry_bounded [OF w, THEN conjunct1] by simp
qed

text \<open>without a cancellation the retry loop is this: the calls go on until the first success or
  the first error that the policy does not retry, whose result is returned; when all
  \<open>MaxRetries + 1\<close> calls fail with errors to retry, the last error is returned as exhausted.\<close>

theorem with_retry_spec:
  "WithRetry policy (\<lambda>_. None) rnd fn s =
     (let p = normalizePolicy policy; n = nat (MaxRetries p) + 1 in
      case find (\<lambda>i. stops p (call_answer fn s i)) [0..<n] of
        Some i \<Rightarrow> (case call_answer fn s i of None \<Rightarrow> None | Some e \<Rightarrow> classifyRetryError e p,
                    call_state fn s (Suc i), map (call_answer fn s) [0..<Suc i])
      | None \<Rightarrow> (Some (exhausted p (call_answer fn s (n - 1))), call_state fn s n, map (call_answer fn s) [0..<n]))"
  by (simp add: WithRetry_def Let_def retry_loop_uncancelled del: upt_Suc)

text \<open>the backoff doubles from the initial delay up to the cap of the policy, or up to the
  largest duration, without overflow for any number of attempts; when the cap is at most half of
  the largest duration, the jitter keeps the delay between this value and twice of it.\<close>

theorem backoff_closed_form:
  fixes policy :: retryPolicy
  defines "p \<equiv> normalizePolicy policy"
  defines "base \<equiv> \<lambda>attempt. min (min (InitialDelay p) (cap p) * 2 ^ (attempt - 1)) (cap p)"
  assumes "MaxDelay policy \<le> maxDuration" and "InitialDelay policy \<le> maxDuration" and "0 \<le> rnd" and "rnd < 1"
  shows "(Jitter p = 0 \<longrightarrow> backoffDelay p attempt rnd = base attempt)
    \<and> (cap p \<le> maxDuration div 2 \<longrightarrow>
       base attempt \<le> backoffDelay p attempt rnd \<and> backoffDelay p attempt rnd \<le> 2 * base attempt)"
proof -
  have caps: "0 < cap p" "cap p \<le> maxDuration"
    using assms(3) by (auto simp: cap_def maxDuration_def p_def normalizePolicy_def Let_def)
  have bd: "backoffDelay p attempt rnd =
      (if Jitter p > 0 then wrap64 (base attempt + \<lfloor>of_int (base attempt) * Jitter p * rnd\<rfloor>) else base attempt)"
  proof -
    have i: "0 \<le> InitialDelay p" "InitialDelay p \<le> maxDuration"
      using assms(4) by (auto simp: p_def normalizePolicy_def Let_def maxDuration_def)
    then have n: "(if InitialDelay p < 0 then 0 else InitialDelay p) = InitialDelay p" by simp
    show ?thesis
      using backoff_capped [OF caps i, of attempt, folded base_def]
      unfolding backoffDelay_def n Let_def by (simp add: base_def)
  qed
  define b where "b = base attempt"
  define j where "j = \<lfloor>of_int b * Jitter p * rnd\<rfloor>"
  have "0 \<le> b" "b \<le> cap p"
    using caps by (auto simp: base_def p_def b_def)
  moreover have "0 \<le> j" "j \<le> b"
    using jitter_part [of b "Jitter p" rnd] \<open>0 \<le> b\<close> assms(5,6) by (simp_all add: j_def p_def)
  moreover have "wrap64 (b + j) = b + j" if "cap p \<le> maxDuration div 2"
    using that \<open>b \<le> cap p\<close> \<open>0 \<le> b\<close> \<open>0 \<le> j\<close> \<open>j \<le> b\<close>
    by (intro wrap64_id) (simp_all add: maxDuration_def)
  ultimately show ?thesis
    unfolding bd b_def [symmetric] j_def [symmetric] by simp
qed

theorem backoff_closed_form_witness:
  "backoffDelay (normalizePolicy \<lparr>MaxRetries = 3, InitialDelay = second, MaxDelay = 5 * second, Jitter = 0, Transient = True\<rparr>) 3 0
   = 4 * second"
  using backoff_closed_form [of "\<lparr>MaxRetries = 3, InitialDelay = second, MaxDelay = 5 * second, Jitter = 0, Transient = True\<rparr>" 0 3]
  by (simp add: normalizePolicy_def maxDuration_def cap_def)

end
