(* ===== verification/Provision_Run.thy ===== *)
theory Provision_Run
  imports Provision_Checkpoint Provision_Retry
begin

text \<open>
  The provisioning pipeline (provision/orchestrator.go): the ordered list of steps, the resume
  from a checkpoint, the execution of one step with its retries, its checkpoint and its failure
  reports, and the run over all steps.

  What a step does to the host is the argument \<open>env_fn\<close>: a function on the orchestrator that may
  fail. The orchestrator has the fields that this code reads or writes; \<open>orch_env\<close> stands for
  the other state of the steps. The effects outside are a log of events.
\<close>

subsection \<open>State\<close>

record 'e orch =
  cfgDevice :: string
  cfgRAID :: "string list"
  cfgNVMe :: string
  cfgMirroring :: string
  targetDisk :: string
  mirrorDisk :: string
  resumeMirrorPair :: "string \<times> string"
  nvmeTargetDevice :: string
  firmwareChanged :: bool
  orch_env :: 'e

text \<open>The events: a step skipped because it is completed, a step started (with the watchdog told),
  one call of the step function, the out-of-band failure record, the debug dump, the error status
  sent to the server, the out-of-band success record.\<close>

datatype run_event = Skipped string | Started string | Called string | OobFail string string
  | DebugDump string | StatusError string | OobDone

record 'e world =
  w_orch :: "'e orch"
  w_cp :: checkpoint
  w_files :: files
  w_log :: "run_event list"

text \<open>The surroundings of a run: the steps, the context and the random numbers of each step, the
  file operations of its save, the texts of the sentinel errors.\<close>

record 'e run_env =
  env_fn :: "string \<Rightarrow> 'e orch \<Rightarrow> go_err option \<times> 'e orch"
  env_ctx :: "string \<Rightarrow> ctx"
  env_rnd :: "string \<Rightarrow> nat \<Rightarrow> rat"
  env_save :: "string \<Rightarrow> save_io"
  env_text :: "sentinel \<Rightarrow> string"

subsection \<open>Steps\<close>

definition provisionSteps :: "string list" where
  "provisionSteps =
    [''report-init'', ''release-stale-mounts'', ''collect-inventory'', ''collect-firmware'',
     ''health-checks'', ''validate-provision-inputs'', ''verify-image'', ''disable-lvm'',
     ''stop-raid'', ''mount-efivarfs'', ''remove-efi-entries'', ''setup-mellanox'',
     ''configure-sriov'', ''setup-nvme-namespaces'', ''setup-raid'', ''detect-disk'',
     ''wipe-disks'', ''apply-partition-layout'', ''stream-image'', ''partprobe'',
     ''parse-partitions'', ''mirror-root'', ''check-filesystem'', ''enable-lvm'',
     ''mount-root'', ''mount-boot'', ''mount-shared-data'', ''configure-overlayfs'',
     ''set-hostname'', ''copy-provisioner-files'', ''configure-dns'', ''apply-sysexts'',
     ''write-fstab'', ''setup-chroot-binds'', ''grow-partition'', ''resize-filesystem'',
     ''configure-mdadm'', ''install-esp-sync'', ''configure-kubelet'', ''prepare-oci-prepulls'',
     ''configure-serial-console'', ''configure-grub'', ''install-efi-fallback'',
     ''verify-secureboot-chain'', ''inject-cloudinit'', ''copy-machine-files'',
     ''run-machine-commands'', ''run-post-provision-cmds'', ''create-efi-boot-entry'',
     ''create-mirror-efi-boot-entry'', ''teardown-chroot'', ''report-success'']"

definition resumeStateSteps :: "string list" where
  "resumeStateSteps =
    [''release-stale-mounts'', ''validate-provision-inputs'', ''verify-image'',
     ''mount-efivarfs'', ''setup-mellanox'', ''configure-sriov'', ''detect-disk'',
     ''parse-partitions'', ''mirror-root'', ''enable-lvm'', ''mount-root'', ''mount-boot'',
     ''mount-shared-data'', ''setup-chroot-binds'', ''configure-serial-console'',
     ''configure-grub'', ''teardown-chroot'']"

subsection \<open>The checkpoint of a run\<close>

definition loadOrCreateCheckpoint :: "bool \<Rightarrow> go_err option \<Rightarrow> files \<Rightarrow> go_err + checkpoint" where
  "loadOrCreateCheckpoint resume read_err fs =
     (if resume then
        (case LoadCheckpoint read_err fs of
           Inr cp \<Rightarrow> Inr cp
         | Inl e \<Rightarrow> if errors_Is e ErrNoCheckpoint then Inr (emptyCheckpoint True)
                     else Inl (Wrapped ''load checkpoint: '' e []))
      else Inr (emptyCheckpoint False))"

definition restoreCheckpointDerivedState :: "'e orch \<Rightarrow> checkpoint \<Rightarrow> 'e orch" where
  "restoreCheckpointDerivedState o1 cp =
     (if cfgDevice o1 \<noteq> [] then o1
      else let o1 = (if MirrorTargetDisk cp \<noteq> [] then o1\<lparr>resumeMirrorPair := (MirrorTargetDisk cp, MirrorDisk cp)\<rparr> else o1)
           in if cfgRAID o1 \<noteq> [] \<and> RAIDTargetDevice cp \<noteq> []
              then o1\<lparr>cfgDevice := RAIDTargetDevice cp, targetDisk := RAIDTargetDevice cp\<rparr>
              else if cfgNVMe o1 \<noteq> [] \<and> NVMeTargetDevice cp \<noteq> []
              then o1\<lparr>cfgDevice := NVMeTargetDevice cp, nvmeTargetDevice := NVMeTargetDevice cp\<rparr>
              else o1)"

definition mirroringMode :: "'e orch \<Rightarrow> string" where
  "mirroringMode o1 = ToLower (TrimSpace (cfgMirroring o1))"

definition recordCheckpointDerivedState :: "'e orch \<Rightarrow> string \<Rightarrow> checkpoint \<Rightarrow> checkpoint" where
  "recordCheckpointDerivedState o1 stepName cp =
     (if stepName = ''setup-nvme-namespaces'' then
        (if nvmeTargetDevice o1 \<noteq> [] then cp\<lparr>NVMeTargetDevice := nvmeTargetDevice o1\<rparr> else cp)
      else if stepName = ''setup-raid'' then
        (if cfgRAID o1 \<noteq> [] \<and> cfgDevice o1 \<noteq> [] then cp\<lparr>RAIDTargetDevice := cfgDevice o1\<rparr> else cp)
      else if stepName = ''detect-disk'' then
        (if mirroringMode o1 = ''raid-1'' \<or> mirroringMode o1 = ''auto''
         then cp\<lparr>MirrorTargetDisk := targetDisk o1, MirrorDisk := mirrorDisk o1\<rparr> else cp)
      else cp)"

subsection \<open>One step\<close>

definition stepFailureMessage :: "(sentinel \<Rightarrow> string) \<Rightarrow> string \<Rightarrow> go_err \<Rightarrow> string" where
  "stepFailureMessage txt stepName e =
     ''step '' @ stepName @ '' failed ['' @ CodeOf e @ '']: '' @ error_text txt e"

text \<open>The call of the step function, with retries when the step has a policy: the error, the
  orchestrator and the number of calls.\<close>

definition call_step :: "'e run_env \<Rightarrow> string \<Rightarrow> 'e orch \<Rightarrow> go_err option \<times> 'e orch \<times> nat" where
  "call_step E st o1 =
     (case map_of DefaultPolicies st of
        Some policy \<Rightarrow>
          (let (r, o1, calls) = WithRetry policy (env_ctx E st) (env_rnd E st) (env_fn E st) o1
           in (r, o1, length calls))
      | None \<Rightarrow> (let (r, o1) = env_fn E st o1 in (r, o1, 1)))"

definition executeStep :: "'e run_env \<Rightarrow> string \<Rightarrow> 'e world \<Rightarrow> go_err option \<times> 'e world" where
  "executeStep E st w =
     (let (err, o1, n) = call_step E st (w_orch w);
          w = w\<lparr>w_orch := o1, w_log := w_log w @ replicate n (Called st)\<rparr>
      in case err of
        Some e \<Rightarrow>
          if errors_As is_reboot_error e \<noteq> None
          then (Some (Wrapped (''provision step '' @ st @ '': '') e []), w)
          else let e = the (WithCode st (Some e));
                   msg = stepFailureMessage (env_text E) st e;
                   cp = w_cp w;
                   cp = cp\<lparr>CpErrors := CpErrors cp @ [msg], FailureCount := FailureCount cp + 1\<rparr>;
                   (_, fs) = Save cp (env_save E st) (w_files w)
               in (Some (Wrapped (''provision step '' @ st @ '': '') e []),
                   w\<lparr>w_cp := cp, w_files := fs,
                     w_log := w_log w @ [OobFail st (CodeOf e), DebugDump st, StatusError msg]\<rparr>)
      | None \<Rightarrow>
          let cp = MarkStep (recordCheckpointDerivedState o1 st (w_cp w)) st;
              (saveErr, fs) = Save cp (env_save E st) (w_files w);
              w = w\<lparr>w_cp := cp, w_files := fs\<rparr>
          in case saveErr of
               Some e \<Rightarrow> (Some (Wrapped (''save checkpoint after step '' @ st @ '': '') e []), w)
             | None \<Rightarrow> (None, w))"

subsection \<open>The run\<close>

fun run_steps :: "'e run_env \<Rightarrow> string list \<Rightarrow> 'e world \<Rightarrow> go_err option \<times> 'e world" where
  "run_steps E [] w = (None, w)"
| "run_steps E (st # sts) w =
     (if IsCompleted (w_cp w) st \<and> st \<notin> set resumeStateSteps
      then run_steps E sts (w\<lparr>w_log := w_log w @ [Skipped st]\<rparr>)
      else case executeStep E st (w\<lparr>w_log := w_log w @ [Started st]\<rparr>) of
             (Some e, w) \<Rightarrow> (Some e, w)
           | (None, w) \<Rightarrow> run_steps E sts w)"

text \<open>\<open>Provision\<close>: the environment variable \<open>BOOTY_RESUME\<close>, the error of reading the checkpoint and
  that of removing it are arguments.\<close>

definition Provision ::
    "'e run_env \<Rightarrow> bool \<Rightarrow> go_err option \<Rightarrow> go_err option \<Rightarrow> 'e orch \<Rightarrow> files \<Rightarrow> go_err option \<times> 'e world" where
  "Provision E resume read_err remove_err o1 fs =
     (case loadOrCreateCheckpoint resume read_err fs of
        Inl e \<Rightarrow> (Some e, \<lparr>w_orch = o1, w_cp = emptyCheckpoint False, w_files = fs, w_log = []\<rparr>)
      | Inr cp \<Rightarrow>
         (case run_steps E provisionSteps
                 \<lparr>w_orch = restoreCheckpointDerivedState o1 cp, w_cp = cp, w_files = fs, w_log = []\<rparr> of
            (Some e, w) \<Rightarrow> (Some e, w)
          | (None, w) \<Rightarrow> (None, w\<lparr>w_files := snd (Remove (w_cp w) remove_err (w_files w)),
                                  w_log := w_log w @ [OobDone]\<rparr>)))"

subsection \<open>The outcomes of a step\<close>

lemma executeStep_cases:
  assumes "executeStep E st w = (r, w')"
  obtains (reboot) e o1 n where "r = Some (Wrapped (''provision step '' @ st @ '': '') e [])"
      "errors_As is_reboot_error e \<noteq> None"
      "w' = w\<lparr>w_orch := o1, w_log := w_log w @ replicate n (Called st)\<rparr>"
  | (failed) e e' o1 n cp fs where "r = Some (Wrapped (''provision step '' @ st @ '': '') e [])"
      "WithCode st (Some e') = Some e" "errors_As is_reboot_error e' = None"
      "cp = (w_cp w)\<lparr>CpErrors := CpErrors (w_cp w) @ [stepFailureMessage (env_text E) st e],
                     FailureCount := FailureCount (w_cp w) + 1\<rparr>"
      "fs = snd (Save cp (env_save E st) (w_files w))"
      "w' = w\<lparr>w_orch := o1, w_cp := cp, w_files := fs,
              w_log := w_log w @ replicate n (Called st)
                @ [OobFail st (CodeOf e), DebugDump st, StatusError (stepFailureMessage (env_text E) st e)]\<rparr>"
  | (unsaved) e o1 n cp fs where "r = Some (Wrapped (''save checkpoint after step '' @ st @ '': '') e [])"
      "cp = MarkStep (recordCheckpointDerivedState o1 st (w_cp w)) st"
      "Save cp (env_save E st) (w_files w) = (Some e, fs)"
      "w' = w\<lparr>w_orch := o1, w_log := w_log w @ replicate n (Called st), w_cp := cp, w_files := fs\<rparr>"
  | (finished) o1 n cp fs where "r = None"
      "cp = MarkStep (recordCheckpointDerivedState o1 st (w_cp w)) st"
      "Save cp (env_save E st) (w_files w) = (None, fs)"
      "w' = w\<lparr>w_orch := o1, w_log := w_log w @ replicate n (Called st), w_cp := cp, w_files := fs\<rparr>"
proof -
  obtain err o1 n where call: "call_step E st (w_orch w) = (err, o1, n)"
    using prod_cases3 by blast
  show thesis
  proof (cases err)
    case None
    obtain se fs where save: "Save (MarkStep (recordCheckpointDerivedState o1 st (w_cp w)) st) (env_save E st) (w_files w) = (se, fs)"
      by fastforce
    show thesis
    proof (cases se)
      case n: None
      with assms None save call show thesis
        by (intro finished [of _ o1 fs n]) (auto simp: executeStep_def)
    next
      case (Some e)
      with assms None save call show thesis
        by (intro unsaved [of e _ o1 fs n]) (auto simp: executeStep_def)
    qed
  next
    case (Some e)
    show thesis
    proof (cases "errors_As is_reboot_error e = None")
      case False
      with assms Some call show thesis
        by (intro reboot [of e n o1]) (auto simp: executeStep_def)
    next
      case True
      obtain e' where "WithCode st (Some e) = Some e'" by (fastforce simp: WithCode_def split: if_splits)
      with True assms Some call show thesis
        by (intro failed [of e' e _ _ n o1, OF _ _ _ refl refl]) (auto simp: executeStep_def split_beta Let_def)
    qed
  qed
qed

lemma recordCheckpoint_frame [simp]:
  "CompletedSteps (recordCheckpointDerivedState o1 st cp) = CompletedSteps cp"
  "cp_persist (recordCheckpointDerivedState o1 st cp) = cp_persist cp"
  "cp_file (recordCheckpointDerivedState o1 st cp) = cp_file cp"
  "FailureCount (recordCheckpointDerivedState o1 st cp) = FailureCount cp"
  by (auto simp: recordCheckpointDerivedState_def cp_file_def)

lemma IsCompleted_record [simp]: "IsCompleted (recordCheckpointDerivedState o1 st cp) s = IsCompleted cp s"
  by (simp add: IsCompleted_def)

lemma IsCompleted_updates [simp]:
  "IsCompleted (cp\<lparr>CpErrors := x, FailureCount := y\<rparr>) s = IsCompleted cp s"
  by (simp add: IsCompleted_def)

lemma cp_file_updates [simp]: "cp_file (cp\<lparr>CpErrors := x, FailureCount := y\<rparr>) = cp_file cp"
  by (simp add: cp_file_def)

subsection \<open>The order of the steps\<close>

fun visited :: "run_event list \<Rightarrow> string list" where
  "visited [] = []"
| "visited (Skipped s # l) = s # visited l"
| "visited (Started s # l) = s # visited l"
| "visited (_ # l) = visited l"

lemma visited_append [simp]: "visited (l @ m) = visited l @ visited m"
  by (induction l rule: visited.induct) auto

lemma visited_called [simp]: "visited (replicate n (Called s)) = []"
  by (induction n) auto

lemma executeStep_visited: "executeStep E st w = (r, w') \<Longrightarrow> visited (w_log w') = visited (w_log w)"
  by (erule executeStep_cases) simp_all

lemma run_steps_visited:
  assumes "run_steps E sts w = (r, w')"
  shows "\<exists>k\<le>length sts. visited (w_log w') = visited (w_log w) @ take k sts
    \<and> (if r = None then k = length sts else 0 < k)"
  using assms
proof (induction sts arbitrary: w)
  case (Cons st sts)
  show ?case
  proof (cases "IsCompleted (w_cp w) st \<and> st \<notin> set resumeStateSteps")
    case True
    with Cons.prems Cons.IH [of "w\<lparr>w_log := w_log w @ [Skipped st]\<rparr>"] obtain k where
      "k \<le> length sts" "visited (w_log w') = visited (w_log w) @ st # take k sts"
      "if r = None then k = length sts else 0 < k" by auto
    then show ?thesis by (intro exI [of _ "Suc k"]) (auto split: if_splits)
  next
    case False
    obtain r1 w1 where e: "executeStep E st (w\<lparr>w_log := w_log w @ [Started st]\<rparr>) = (r1, w1)" by fastforce
    from executeStep_visited [OF this] have v: "visited (w_log w1) = visited (w_log w) @ [st]" by simp
    show ?thesis
    proof (cases r1)
      case None
      with Cons.prems False e Cons.IH [of w1] v obtain k where
        "k \<le> length sts" "visited (w_log w') = visited (w_log w) @ st # take k sts"
        "if r = None then k = length sts else 0 < k" by auto
      then show ?thesis by (intro exI [of _ "Suc k"]) (auto split: if_splits)
    next
      case (Some x)
      with Cons.prems False e v show ?thesis by (intro exI [of _ 1]) auto
    qed
  qed
qed simp

subsection \<open>What the checkpoint file knows\<close>

definition saved_steps :: "files \<Rightarrow> string \<Rightarrow> string set" where
  "saved_steps fs p = (case fs p of Some (Json d) \<Rightarrow> set (CompletedSteps d) | _ \<Rightarrow> {})"

text \<open>The file lists every step that the run in memory counts as completed.\<close>

definition saved_inv :: "'e world \<Rightarrow> bool" where
  "saved_inv w \<longleftrightarrow> cp_persist (w_cp w) \<and> set (CompletedSteps (w_cp w)) \<subseteq> saved_steps (w_files w) (cp_file (w_cp w))"

lemma saved_steps_data: "fs p = Some (Json (data_of c)) \<Longrightarrow> saved_steps fs p = set (CompletedSteps c)"
  by (simp add: saved_steps_def checkpointData.defs)

lemma Save_saved:
  assumes "Save c io fs = (r, fs')" "cp_persist c"
  shows "saved_steps fs' (cp_file c) = saved_steps fs (cp_file c) \<or> saved_steps fs' (cp_file c) = set (CompletedSteps c)"
    "r = None \<Longrightarrow> saved_steps fs' (cp_file c) = set (CompletedSteps c)"
  using Save_cases(2,3) [OF assms(1)] assms(2) saved_steps_data by (auto simp: saved_steps_def)

lemma set_MarkStep [simp]: "set (CompletedSteps (MarkStep c s)) = insert s (set (CompletedSteps c))"
  by (auto simp: MarkStep_def IsCompleted_def Let_def)

definition keeps_saved :: "string \<Rightarrow> go_err option \<Rightarrow> 'e world \<Rightarrow> 'e world \<Rightarrow> bool" where
  "keeps_saved st r w w' \<longleftrightarrow>
     cp_persist (w_cp w') \<and> cp_file (w_cp w') = cp_file (w_cp w)
     \<and> set (CompletedSteps (w_cp w)) \<subseteq> saved_steps (w_files w') (cp_file (w_cp w))
     \<and> set (CompletedSteps (w_cp w)) \<subseteq> set (CompletedSteps (w_cp w'))
     \<and> (r = None \<longrightarrow> saved_inv w' \<and> st \<in> set (CompletedSteps (w_cp w')))"

lemma executeStep_saved:
  assumes "executeStep E st w = (r, w')" "saved_inv w"
  shows "keeps_saved st r w w'"
  using assms(1)
proof (cases rule: executeStep_cases)
  case (reboot e o1 n)
  with assms(2) show ?thesis by (simp add: keeps_saved_def saved_inv_def)
next
  case (failed e e' o1 n cp fs)
  obtain x where "Save cp (env_save E st) (w_files w) = (x, fs)"
    using failed(5) by (metis prod.collapse)
  from Save_saved(1) [OF this] failed assms(2) show ?thesis
    by (auto simp: keeps_saved_def saved_inv_def)
next
  case (unsaved e o1 n cp fs)
  from Save_saved(1) [OF unsaved(3)] unsaved assms(2) show ?thesis
    by (auto simp: keeps_saved_def saved_inv_def)
next
  case (finished o1 n cp fs)
  from Save_saved(2) [OF finished(3)] finished assms(2) show ?thesis
    by (auto simp: keeps_saved_def saved_inv_def)
qed

text \<open>Along a run: the steps before the last one visited are in the file.\<close>

lemma run_steps_saved:
  assumes "run_steps E sts w = (r, w')" "saved_inv w"
  shows "\<exists>v. visited (w_log w') = visited (w_log w) @ v
    \<and> set (butlast v) \<union> set (CompletedSteps (w_cp w)) \<subseteq> saved_steps (w_files w') (cp_file (w_cp w))"
  using assms
proof (induction sts arbitrary: w)
  case Nil
  then show ?case by (auto simp: saved_inv_def)
next
  case (Cons st sts)
  show ?case
  proof (cases "IsCompleted (w_cp w) st \<and> st \<notin> set resumeStateSteps")
    case True
    with Cons.prems Cons.IH [of "w\<lparr>w_log := w_log w @ [Skipped st]\<rparr>"] obtain v where
      v: "visited (w_log w') = visited (w_log w) @ st # v"
        "set (butlast v) \<union> set (CompletedSteps (w_cp w)) \<subseteq> saved_steps (w_files w') (cp_file (w_cp w))"
      by (auto simp: saved_inv_def)
    from True have "st \<in> set (CompletedSteps (w_cp w))" by (simp add: IsCompleted_def)
    with v show ?thesis by (intro exI [of _ "st # v"]) auto
  next
    case False
    let ?w = "w\<lparr>w_log := w_log w @ [Started st]\<rparr>"
    obtain r1 w1 where e: "executeStep E st ?w = (r1, w1)" by fastforce
    have "saved_inv ?w" using Cons.prems(2) by (simp add: saved_inv_def)
    from executeStep_saved [OF e this] have k: "keeps_saved st r1 ?w w1" .
    have vis: "visited (w_log w1) = visited (w_log w) @ [st]" using executeStep_visited [OF e] by simp
    show ?thesis
    proof (cases r1)
      case None
      with Cons.prems(1) False e have "run_steps E sts w1 = (r, w')" by simp
      from Cons.IH [OF this] k None obtain v where
        "visited (w_log w') = visited (w_log w1) @ v"
        "set (butlast v) \<union> set (CompletedSteps (w_cp w1)) \<subseteq> saved_steps (w_files w') (cp_file (w_cp w1))"
        by (auto simp: keeps_saved_def)
      with k None vis show ?thesis by (intro exI [of _ "st # v"]) (auto simp: keeps_saved_def)
    next
      case (Some x)
      with Cons.prems(1) False e k vis show ?thesis by (auto simp: keeps_saved_def)
    qed
  qed
qed

text \<open>A completed step that is no state step is not run again.\<close>

definition no_run :: "string \<Rightarrow> run_event list \<Rightarrow> bool" where
  "no_run s l \<longleftrightarrow> Started s \<notin> set l \<and> Called s \<notin> set l"

lemma executeStep_log:
  assumes "executeStep E st w = (r, w')"
  shows "s \<noteq> st \<Longrightarrow> no_run s (w_log w') = no_run s (w_log w)"
    "IsCompleted (w_cp w) s \<Longrightarrow> IsCompleted (w_cp w') s"
  by (use assms in \<open>cases rule: executeStep_cases; auto simp: no_run_def set_replicate_conv_if\<close>)+

lemma run_steps_no_run:
  "run_steps E sts w = (r, w') \<Longrightarrow> IsCompleted (w_cp w) s \<Longrightarrow> s \<notin> set resumeStateSteps \<Longrightarrow> no_run s (w_log w)
   \<Longrightarrow> no_run s (w_log w')"
proof (induction sts arbitrary: w)
  case (Cons st sts)
  show ?case
  proof (cases "IsCompleted (w_cp w) st \<and> st \<notin> set resumeStateSteps")
    case True
    with Cons.prems Cons.IH [of "w\<lparr>w_log := w_log w @ [Skipped st]\<rparr>"] show ?thesis by (simp add: no_run_def)
  next
    case False
    then have ne: "s \<noteq> st" using Cons.prems(2,3) by auto
    let ?w = "w\<lparr>w_log := w_log w @ [Started st]\<rparr>"
    obtain r1 w1 where e: "executeStep E st ?w = (r1, w1)" by fastforce
    have "no_run s (w_log w1)" "IsCompleted (w_cp w1) s"
      using executeStep_log [OF e] ne Cons.prems by (auto simp: no_run_def)
    with Cons.IH [of w1] Cons.prems False e show ?thesis
      by (cases r1) auto
  qed
qed simp

subsection \<open>Failure reports\<close>

definition no_report :: "run_event list \<Rightarrow> bool" where
  "no_report l \<longleftrightarrow> (\<forall>s c m. OobFail s c \<notin> set l \<and> StatusError m \<notin> set l)"

lemma no_report_simps [simp]:
  "no_report []" "no_report (l @ m) = (no_report l \<and> no_report m)" "no_report [Started s]" "no_report [Skipped s]"
  "no_report (replicate n (Called s))"
  by (auto simp: no_report_def)

lemma CodeOf_Wrapped [simp]: "CodeOf (Wrapped a e b) = CodeOf e"
  by (simp add: CodeOf_def errors_As_def)

lemma errors_As_Wrapped_reboot [simp]:
  "errors_As is_reboot_error (Wrapped a e b) = errors_As is_reboot_error e"
  by (simp add: errors_As_def)

text \<open>The three ways in which a run ends with an error: a reboot request without any report, the
  failure of the step visited last with its report at the end of the log, a checkpoint that could
  not be saved.\<close>

definition failure_outcome ::
    "(sentinel \<Rightarrow> string) \<Rightarrow> int \<Rightarrow> string \<Rightarrow> go_err \<Rightarrow> checkpoint \<Rightarrow> run_event list \<Rightarrow> bool" where
  "failure_outcome txt n st e cp evs \<longleftrightarrow>
     errors_As is_reboot_error e \<noteq> None \<and> no_report evs \<and> FailureCount cp = n
   \<or> (\<exists>l x. e = Wrapped (''provision step '' @ st @ '': '') x []
        \<and> evs = l @ [OobFail st (CodeOf e), DebugDump st,
                     StatusError (''step '' @ st @ '' failed ['' @ CodeOf e @ '']: '' @ error_text txt x)]
        \<and> no_report l \<and> FailureCount cp = n + 1
        \<and> (\<exists>y. WithCode st (Some y) = Some x))
   \<or> (\<exists>x. e = Wrapped (''save checkpoint after step '' @ st @ '': '') x [] \<and> no_report evs)"

lemma FailureCount_MarkStep [simp]: "FailureCount (MarkStep c s) = FailureCount c"
  by (simp add: MarkStep_def Let_def)

lemma executeStep_failure:
  assumes "executeStep E st w = (Some e, w')" "no_report (w_log w)"
  shows "failure_outcome (env_text E) (FailureCount (w_cp w)) st e (w_cp w') (w_log w')"
  using assms(1)
proof (cases rule: executeStep_cases)
  case (failed x y o1 n cp fs)
  with assms(2) show ?thesis
    by (auto simp: failure_outcome_def stepFailureMessage_def intro!: exI [of _ "w_log w @ replicate n (Called st)"])
qed (use assms(2) in \<open>auto simp: failure_outcome_def\<close>)

lemma executeStep_success:
  assumes "executeStep E st w = (None, w')"
  shows "no_report (w_log w') = no_report (w_log w)" "FailureCount (w_cp w') = FailureCount (w_cp w)"
    "IsCompleted (w_cp w') st"
  by (use assms in \<open>cases rule: executeStep_cases; simp\<close>)+

lemma run_steps_failure:
  assumes "run_steps E sts w = (Some e, w')" "no_report (w_log w)"
  shows "failure_outcome (env_text E) (FailureCount (w_cp w)) (last (visited (w_log w'))) e (w_cp w') (w_log w')"
  using assms
proof (induction sts arbitrary: w)
  case (Cons st sts)
  show ?case
  proof (cases "IsCompleted (w_cp w) st \<and> st \<notin> set resumeStateSteps")
    case True
    with Cons.prems Cons.IH [of "w\<lparr>w_log := w_log w @ [Skipped st]\<rparr>"] show ?thesis by simp
  next
    case False
    let ?w = "w\<lparr>w_log := w_log w @ [Started st]\<rparr>"
    obtain r1 w1 where x: "executeStep E st ?w = (r1, w1)" by fastforce
    show ?thesis
    proof (cases r1)
      case None
      with Cons.prems Cons.IH [of w1] False x executeStep_success [of E st ?w w1] show ?thesis by simp
    next
      case (Some y)
      with Cons.prems False x have "y = e" "w1 = w'" by auto
      with Some x executeStep_failure [of E st ?w e w'] executeStep_visited [OF x] Cons.prems(2) show ?thesis
        by simp
    qed
  qed
qed simp

text \<open>A run that ends without an error has every step completed.\<close>

lemma run_steps_completes:
  "run_steps E sts w = (None, w') \<Longrightarrow> \<forall>s. s \<in> set sts \<or> IsCompleted (w_cp w) s \<longrightarrow> IsCompleted (w_cp w') s"
proof (induction sts arbitrary: w)
  case (Cons st sts)
  show ?case
  proof (cases "IsCompleted (w_cp w) st \<and> st \<notin> set resumeStateSteps")
    case True
    with Cons.prems Cons.IH [of "w\<lparr>w_log := w_log w @ [Skipped st]\<rparr>"] show ?thesis by auto
  next
    case False
    let ?w = "w\<lparr>w_log := w_log w @ [Started st]\<rparr>"
    obtain r1 w1 where x: "executeStep E st ?w = (r1, w1)" by fastforce
    with Cons.prems False have "r1 = None" by (auto split: option.splits)
    with x Cons.prems False executeStep_success(3) [of E st ?w w1] executeStep_log(2) [OF x] Cons.IH [of w1]
    show ?thesis by auto
  qed
qed simp

subsection \<open>A sample run\<close>

text \<open>All steps succeed but \<open>release-stale-mounts\<close>; every save works.\<close>

definition sample_env :: "unit run_env" where
  "sample_env = \<lparr>env_fn = (\<lambda>st o1. (if st = ''release-stale-mounts'' then Some (Opaque ''busy'') else None, o1)),
     env_ctx = (\<lambda>_ _. None), env_rnd = (\<lambda>_ _. 0),
     env_save = (\<lambda>_. \<lparr>write_err = None, write_left = None, rename_err = None, cleanup_ok = True\<rparr>),
     env_text = (\<lambda>_. [])\<rparr>"

definition sample_orch :: "unit orch" where
  "sample_orch = \<lparr>cfgDevice = [], cfgRAID = [], cfgNVMe = [], cfgMirroring = [], targetDisk = [], mirrorDisk = [],
     resumeMirrorPair = ([], []), nvmeTargetDevice = [], firmwareChanged = False, orch_env = ()\<rparr>"

lemmas sample_simps = sample_env_def sample_orch_def Provision_def loadOrCreateCheckpoint_def LoadCheckpoint_def
  LoadCheckpointFrom_def errors_Is_def emptyCheckpoint_def restoreCheckpointDerivedState_def provisionSteps_def
  executeStep_def call_step_def DefaultPolicies_def WithRetry_def normalizePolicy_def retryCanceledErr_def
  waitRetryDelay_def Let_def split_beta recordCheckpointDerivedState_def MarkStep_def IsCompleted_def Save_def
  save_states_def cp_file_def resumeStateSteps_def errors_As_def WithCode_def

lemma sample_run:
  "fst (Provision sample_env True None None sample_orch (\<lambda>_. None)) \<noteq> None"
  "visited (w_log (snd (Provision sample_env True None None sample_orch (\<lambda>_. None))))
    = [''report-init'', ''release-stale-mounts'']"
  by (simp_all add: sample_simps)

lemma sample_run_plain:
  fixes p
  defines "p \<equiv> Provision sample_env False None None sample_orch (\<lambda>_. None)"
  shows "fst p \<noteq> None" "visited (w_log (snd p)) = [''report-init'', ''release-stale-mounts'']"
    "errors_As is_reboot_error (the (fst p)) = None" "CodeOf (the (fst p)) = ''BOOTY-DSK-001''"
    "\<not> no_report (w_log (snd p))"
proof -
  have "codeFor ''release-stale-mounts'' (Opaque ''busy'') = ''BOOTY-DSK-001''" by code_simp
  then show "fst p \<noteq> None" "visited (w_log (snd p)) = [''report-init'', ''release-stale-mounts'']"
    "errors_As is_reboot_error (the (fst p)) = None" "CodeOf (the (fst p)) = ''BOOTY-DSK-001''"
    "\<not> no_report (w_log (snd p))"
    by (simp_all add: p_def sample_simps) (auto simp: no_report_def)
qed

lemma report_init_no_state: "''report-init'' \<notin> set resumeStateSteps"
  by (simp add: resumeStateSteps_def)

lemma executeStep_no_done: "executeStep E st w = (r, w') \<Longrightarrow> OobDone \<in> set (w_log w') \<longleftrightarrow> OobDone \<in> set (w_log w)"
  by (erule executeStep_cases) auto

lemma run_steps_no_done: "run_steps E sts w = (r, w') \<Longrightarrow> OobDone \<notin> set (w_log w) \<Longrightarrow> OobDone \<notin> set (w_log w')"
proof (induction sts arbitrary: w)
  case (Cons st sts)
  obtain r1 w1 where "executeStep E st (w\<lparr>w_log := w_log w @ [Started st]\<rparr>) = (r1, w1)" by fastforce
  with Cons executeStep_no_done [OF this] show ?case
    by (cases r1) (auto split: if_splits)
qed simp

subsection \<open>Properties\<close>

lemma load_resume:
  assumes "loadOrCreateCheckpoint True re fs = Inr cp"
  shows "cp_persist cp" "cp_file cp = defaultCheckpointPath"
    "set (CompletedSteps cp) \<subseteq> saved_steps fs defaultCheckpointPath"
    "re = None \<Longrightarrow> set (CompletedSteps cp) = saved_steps fs defaultCheckpointPath"
  using assms
  by (auto simp: loadOrCreateCheckpoint_def LoadCheckpoint_def LoadCheckpointFrom_def emptyCheckpoint_def cp_file_def
      checkpointData.defs saved_steps_def errors_Is_def split: option.splits file_content.splits if_splits)

lemma Provision_cases:
  assumes "Provision E resume re rm o1 fs = (r, w)"
  obtains (load) e where "loadOrCreateCheckpoint resume re fs = Inl e" "r = Some e" "w_log w = []"
  | (run) cp w1 where "loadOrCreateCheckpoint resume re fs = Inr cp"
      "run_steps E provisionSteps \<lparr>w_orch = restoreCheckpointDerivedState o1 cp, w_cp = cp, w_files = fs, w_log = []\<rparr> = (r, w1)"
      "r \<noteq> None \<Longrightarrow> w = w1" "r = None \<Longrightarrow> w_log w = w_log w1 @ [OobDone] \<and> w_cp w = w_cp w1"
  using assms by (cases "loadOrCreateCheckpoint resume re fs")
    (auto simp: Provision_def split: prod.splits option.splits)

lemma Provision_saved:
  assumes "Provision E True re rm o1 fs = (Some e, w)"
  shows "set (butlast (visited (w_log w))) \<subseteq> saved_steps (w_files w) defaultCheckpointPath"
    "re = None \<Longrightarrow> saved_steps fs defaultCheckpointPath \<subseteq> saved_steps (w_files w) defaultCheckpointPath"
proof -
  show "set (butlast (visited (w_log w))) \<subseteq> saved_steps (w_files w) defaultCheckpointPath"
    using assms
  proof (cases rule: Provision_cases)
    case (run cp w1)
    let ?w = "\<lparr>w_orch = restoreCheckpointDerivedState o1 cp, w_cp = cp, w_files = fs, w_log = []\<rparr>"
    have "saved_inv ?w" using load_resume [OF run(1)] by (simp add: saved_inv_def)
    from run_steps_saved [OF run(2) this] run(3) load_resume(2) [OF run(1)] show ?thesis by auto
  qed simp
  assume re: "re = None"
  show "saved_steps fs defaultCheckpointPath \<subseteq> saved_steps (w_files w) defaultCheckpointPath"
    using assms
  proof (cases rule: Provision_cases)
    case (load e1)
    with assms show ?thesis by (auto simp: Provision_def)
  next
    case (run cp w1)
    let ?w = "\<lparr>w_orch = restoreCheckpointDerivedState o1 cp, w_cp = cp, w_files = fs, w_log = []\<rparr>"
    have "saved_inv ?w" using load_resume [OF run(1)] by (simp add: saved_inv_def)
    from run_steps_saved [OF run(2) this] run(3) load_resume(2,4) [OF run(1)] re show ?thesis by auto
  qed
qed

lemma Provision_skips:
  assumes "Provision E True None rm o1 fs = (r, w)" "s \<in> saved_steps fs defaultCheckpointPath" "s \<notin> set resumeStateSteps"
  shows "no_run s (w_log w)"
  using assms(1)
proof (cases rule: Provision_cases)
  case load
  then show ?thesis by (simp add: no_run_def)
next
  case (run cp w1)
  then have "IsCompleted cp s" using load_resume(4) [OF run(1)] assms(2) by (simp add: IsCompleted_def)
  from run_steps_no_run [OF run(2), of s] this assms(3) have "no_run s (w_log w1)" by (simp add: no_run_def)
  with run(3,4) show ?thesis by (cases r) (auto simp: no_run_def)
qed







end
