(* ===== verification/Rescue.thy ===== *)
theory Rescue
  imports Provision_Run
begin

text \<open>
  What happens after a failed run (rescue/rescue.go and \<open>RescueConfig\<close> of the orchestrator): the
  rescue modes, the configuration with its validation and defaults, the count of retries, the
  decision, and the set-up of the rescue environment with the root password in the shadow file.

  The answers of the file system and of the started programs are arguments; the writes are events.
\<close>

subsection \<open>Modes and configuration\<close>

definition ModeReboot :: string where "ModeReboot = ''reboot''"
definition ModeShell :: string where "ModeShell = ''shell''"
definition ModeRetry :: string where "ModeRetry = ''retry''"
definition ModeWait :: string where "ModeWait = ''wait''"

lemmas mode_defs = ModeReboot_def ModeShell_def ModeRetry_def ModeWait_def

datatype rescue_err = UnknownMode string | InvalidMode rescue_err | MaxRetriesTooSmall
  | NegativeRetryDelay | NegativeShellTimeout
  | EmptyHash | HashDelimiter | HashPrefix
  | ReadingShadow go_err | WritingShadow go_err
  | CreatingSSHDir go_err | WritingKeys go_err
  | SettingUpKeys rescue_err | SettingUpPassword rescue_err

definition ParseMode :: "string \<Rightarrow> rescue_err + string" where
  "ParseMode s =
     (if s = ModeReboot \<or> s = ModeShell \<or> s = ModeRetry \<or> s = ModeWait then Inr s else Inl (UnknownMode s))"

record rescueConfig =
  rMode :: string
  rMaxRetries :: int
  rRetryDelay :: duration
  rShellTimeout :: duration
  rSSHKeys :: "string list"
  rPasswordHash :: string
  rAutoMountDisks :: bool
  rNetworkConfig :: bool

definition Validate :: "rescueConfig \<Rightarrow> rescue_err option" where
  "Validate c =
     (case (if rMode c \<noteq> [] then ParseMode (rMode c) else Inr []) of
        Inl e \<Rightarrow> Some (InvalidMode e)
      | Inr _ \<Rightarrow>
         if rMode c = ModeRetry \<and> rMaxRetries c < 1 then Some MaxRetriesTooSmall
         else if rRetryDelay c < 0 then Some NegativeRetryDelay
         else if rShellTimeout c < 0 then Some NegativeShellTimeout
         else None)"

definition ApplyDefaults :: "rescueConfig \<Rightarrow> rescueConfig" where
  "ApplyDefaults c =
     (let c = (if rMode c = [] then c\<lparr>rMode := ModeReboot\<rparr> else c);
          c = (if rMaxRetries c = 0 \<and> rMode c = ModeRetry then c\<lparr>rMaxRetries := 3\<rparr> else c);
          c = (if rRetryDelay c = 0 then c\<lparr>rRetryDelay := 30 * second\<rparr> else c)
      in if rShellTimeout c = 0 then c\<lparr>rShellTimeout := 30 * 60 * second\<rparr> else c)"

subsection \<open>The machine configuration\<close>

text \<open>The fields of the machine configuration that the rescue handling and the run modes use. The
  sections that they only copy have the type \<open>'s\<close>; \<open>Sections\<close> is all the rest.\<close>

record rescueSection =
  rsMode :: string
  rsSSHPubKey :: string
  rsPasswordHash :: string
  rsTimeout :: int
  rsAutoMountDisks :: bool

record agentConfig =
  HeartbeatURL :: string
  CommandsURL :: string
  DeprovisionSuccessAction :: string

record 's machineConfig =
  cfgMode :: string
  SuccessAction :: string
  FailureAction :: string
  ProvisionerFilesTarget :: string
  DisableKexec :: bool
  RescueSection :: rescueSection
  Agent :: agentConfig
  Transport :: 's
  Network :: 's
  Sections :: 's
  StandbyCommand :: bool
  ProvisionerFiles :: "string list"
  MachineFiles :: "string list"
  MachineCommands :: "string list"

definition PowerOffOnSuccess :: "'s machineConfig \<Rightarrow> bool" where
  "PowerOffOnSuccess c = (SuccessAction c = ''poweroff'')"

definition KexecDisabled :: "'s machineConfig \<Rightarrow> bool" where
  "KexecDisabled c = (DisableKexec c \<or> PowerOffOnSuccess c)"

definition ProvisionerFilesInRamdisk :: "'s machineConfig \<Rightarrow> bool" where
  "ProvisionerFilesInRamdisk c = (ProvisionerFilesTarget c = ''ramdisk'')"

definition WaitOnFailure :: "'s machineConfig \<Rightarrow> bool" where
  "WaitOnFailure c = (FailureAction c = ''wait'')"

definition IsDeprovisionMode :: "string \<Rightarrow> bool" where
  "IsDeprovisionMode mode =
     (mode \<in> set [''deprovision'', ''hard'', ''soft'', ''soft-deprovision'', ''decommission''])"

definition RescueConfig :: "'s machineConfig \<Rightarrow> rescueConfig" where
  "RescueConfig m =
     (let r = RescueSection m;
          c = \<lparr>rMode = ModeReboot, rMaxRetries = 0, rRetryDelay = 0, rShellTimeout = 0, rSSHKeys = [],
               rPasswordHash = [], rAutoMountDisks = False, rNetworkConfig = False\<rparr>;
          c = (if WaitOnFailure m then c\<lparr>rMode := ModeWait\<rparr> else c);
          c = (if rsMode r \<noteq> [] then (case ParseMode (rsMode r) of Inl _ \<Rightarrow> c | Inr mode \<Rightarrow> c\<lparr>rMode := mode\<rparr>) else c);
          c = (if rsSSHPubKey r \<noteq> [] then c\<lparr>rSSHKeys := [rsSSHPubKey r]\<rparr> else c);
          c = c\<lparr>rPasswordHash := rsPasswordHash r\<rparr>;
          c = (if rsTimeout r > 0 then c\<lparr>rShellTimeout := wrap64 (rsTimeout r * second)\<rparr> else c);
          c = c\<lparr>rAutoMountDisks := rsAutoMountDisks r\<rparr>
      in ApplyDefaults c)"

subsection \<open>Retries and the decision\<close>

record retryState =
  Attempts :: int
  stMaxRetries :: int
  LastError :: string
  LastRetry :: "int option"

definition zeroRetryState :: retryState where
  "zeroRetryState = \<lparr>Attempts = 0, stMaxRetries = 0, LastError = [], LastRetry = None\<rparr>"

definition CanRetry :: "retryState \<Rightarrow> bool" where
  "CanRetry s = (Attempts s < stMaxRetries s)"

text \<open>\<open>RecordAttempt\<close> with the current time and the text of the error, if there is one.\<close>

definition RecordAttempt :: "int \<Rightarrow> string option \<Rightarrow> retryState \<Rightarrow> retryState" where
  "RecordAttempt now err s =
     (let s = s\<lparr>Attempts := Attempts s + 1, LastRetry := Some now\<rparr>
      in case err of Some t \<Rightarrow> s\<lparr>LastError := t\<rparr> | None \<Rightarrow> s\<lparr>LastError := []\<rparr>)"

definition Remaining :: "retryState \<Rightarrow> int" where
  "Remaining s = (let r = stMaxRetries s - Attempts s in if r < 0 then 0 else r)"

record action =
  aType :: string
  aMessage :: string

text \<open>\<open>Decide\<close> writes the limit of the configuration into the state of the caller; without a state it
  works on a new one.\<close>

definition Decide :: "rescueConfig \<Rightarrow> retryState option \<Rightarrow> action \<times> retryState option" where
  "Decide cfg state =
     (let s = (case state of None \<Rightarrow> zeroRetryState | Some s \<Rightarrow> s);
          s = (if rMaxRetries cfg > 0 then s\<lparr>stMaxRetries := rMaxRetries cfg\<rparr> else s);
          action =
            (if rMode cfg = ModeRetry then
               (if CanRetry s
                then \<lparr>aType = ModeRetry, aMessage = ''retrying ('' @ fmt_d (Attempts s + 1) @ ''/'' @ fmt_d (stMaxRetries s) @ '')''\<rparr>
                else \<lparr>aType = ModeReboot, aMessage = ''max retries exceeded, rebooting''\<rparr>)
             else if rMode cfg = ModeShell then \<lparr>aType = ModeShell, aMessage = ''dropping to rescue shell''\<rparr>
             else if rMode cfg = ModeWait then \<lparr>aType = ModeWait, aMessage = ''waiting for manual intervention''\<rparr>
             else \<lparr>aType = ModeReboot, aMessage = ''rebooting''\<rparr>)
      in (action, map_option (\<lambda>_. s) state))"

definition RescueAction :: "'s machineConfig \<Rightarrow> retryState option \<Rightarrow> action \<times> retryState option" where
  "RescueAction m state = Decide (RescueConfig m) state"

subsection \<open>The password of the rescue shell\<close>

definition supportedPasswordHashPrefixes :: "string list" where
  "supportedPasswordHashPrefixes = [''$1$'', ''$2a$'', ''$2b$'', ''$2y$'', ''$5$'', ''$6$'', ''$y$'']"

abbreviation newline :: char where "newline \<equiv> CHR 0x0A"

definition validatePasswordHash :: "string \<Rightarrow> rescue_err option" where
  "validatePasswordHash hash =
     (if hash = [] then Some EmptyHash
      else if ContainsAny hash [CHR '':'', CHR 0x0D, newline] then Some HashDelimiter
      else if \<exists>p\<in>set supportedPasswordHashPrefixes. HasPrefix hash p then None
      else Some HashPrefix)"

text \<open>The loop over the lines up to the first one of root: the lines, and whether there is one.\<close>

fun set_root :: "string \<Rightarrow> string list \<Rightarrow> string list \<times> bool" where
  "set_root hash [] = ([], False)"
| "set_root hash (l # ls) =
     (if HasPrefix l ''root:'' then
        (let parts = SplitN 3 (CHR '':'') l
         in (if length parts \<ge> 3 then ''root:'' @ hash @ '':'' @ parts ! 2 else l) # ls, True)
      else let (ls, found) = set_root hash ls in (l # ls, found))"

definition root_entry :: "string \<Rightarrow> string" where
  "root_entry hash = ''root:'' @ hash @ '':19000:0:99999:7:::''"

definition shadow_text :: "string \<Rightarrow> string \<Rightarrow> string" where
  "shadow_text hash shadow =
     (let (lines, found) = set_root hash (Split newline shadow);
          lines = (if found then lines else lines @ [root_entry hash]);
          serialized = Join [newline] lines
      in if HasSuffix serialized [newline] then serialized else serialized @ [newline])"

text \<open>What reading the shadow file gives: its text, that it does not exist, or an error.\<close>

datatype shadow_read = Content string | NotExist | ReadError go_err

datatype rescue_event = MkdirSSH | WriteKeys string | WriteShadow string | StartDropbear | AutoMount

definition setupPasswordHash :: "string \<Rightarrow> shadow_read \<Rightarrow> go_err option \<Rightarrow> rescue_err option \<times> rescue_event list" where
  "setupPasswordHash hash shadow werr =
     (case validatePasswordHash hash of
        Some e \<Rightarrow> (Some e, [])
      | None \<Rightarrow>
         (case shadow of
            ReadError e \<Rightarrow> (Some (ReadingShadow e), [])
          | NotExist \<Rightarrow> (map_option WritingShadow werr, [WriteShadow (root_entry hash @ [newline])])
          | Content s \<Rightarrow> (map_option WritingShadow werr, [WriteShadow (shadow_text hash s)])))"

subsection \<open>Setup\<close>

definition setupSSHKeys :: "string list \<Rightarrow> go_err option \<Rightarrow> go_err option \<Rightarrow> rescue_err option \<times> rescue_event list" where
  "setupSSHKeys keys mkdir_err werr =
     (if keys = [] then (None, [])
      else case mkdir_err of
        Some e \<Rightarrow> (Some (CreatingSSHDir e), [MkdirSSH])
      | None \<Rightarrow> (map_option WritingKeys werr, [MkdirSSH, WriteKeys (concat (map (\<lambda>k. k @ [newline]) keys))]))"

record setup_io =
  io_mkdir :: "go_err option"
  io_keys :: "go_err option"
  io_shadow :: shadow_read
  io_shadow_write :: "go_err option"

definition Setup :: "rescueConfig \<Rightarrow> setup_io \<Rightarrow> rescue_err option \<times> rescue_event list" where
  "Setup cfg io =
     (if rMode cfg \<noteq> ModeShell \<and> rMode cfg \<noteq> ModeWait then (None, [])
      else case setupSSHKeys (rSSHKeys cfg) (io_mkdir io) (io_keys io) of
        (Some e, ev) \<Rightarrow> (Some (SettingUpKeys e), ev)
      | (None, ev) \<Rightarrow>
         (case (if rPasswordHash cfg \<noteq> [] then setupPasswordHash (rPasswordHash cfg) (io_shadow io) (io_shadow_write io) else (None, [])) of
            (Some e, ev') \<Rightarrow> (Some (SettingUpPassword e), ev @ ev')
          | (None, ev') \<Rightarrow> (None, ev @ ev' @ [StartDropbear] @ (if rAutoMountDisks cfg then [AutoMount] else []))))"

subsection \<open>The shadow file after the set-up\<close>

abbreviation is_root :: "string \<Rightarrow> bool" where "is_root l \<equiv> HasPrefix l ''root:''"

definition accounts :: "string \<Rightarrow> string list" where
  "accounts s = filter (\<lambda>l. l \<noteq> [] \<and> \<not> is_root l) (Split newline s)"

definition root_lines :: "string \<Rightarrow> string list" where
  "root_lines s = filter is_root (Split newline s)"

definition new_lines :: "string \<Rightarrow> string list \<Rightarrow> string list" where
  "new_lines hash ls = (let (ls, found) = set_root hash ls in if found then ls else ls @ [root_entry hash])"

lemma new_lines_eq:
  "new_lines hash ls = (if snd (set_root hash ls) then fst (set_root hash ls) else fst (set_root hash ls) @ [root_entry hash])"
  by (simp add: new_lines_def split_beta)

lemma shadow_text_eq:
  "shadow_text hash s =
     (let t = Join [newline] (new_lines hash (Split newline s)) in if HasSuffix t [newline] then t else t @ [newline])"
  by (simp add: shadow_text_def new_lines_def split_beta Let_def)

lemma set_tl_dropWhile: "set (tl (dropWhile P s)) \<subseteq> set s"
  by (induction s) auto

lemma SplitN_chars: "p \<in> set (SplitN n c s) \<Longrightarrow> set p \<subseteq> set s"
proof (induction n c s rule: SplitN.induct)
  case (1 n c s)
  show ?case
  proof (cases "c \<in> set s")
    case True
    with 1(2) consider "p = takeWhile (\<lambda>x. x \<noteq> c) s"
      | "p \<in> set (SplitN (Suc n) c (tl (dropWhile (\<lambda>x. x \<noteq> c) s)))" by auto
    then show ?thesis
    proof cases
      case 2
      from 1(1) [OF True this] set_tl_dropWhile show ?thesis by (rule subset_trans)
    qed (auto dest: set_takeWhileD)
  next
    case False
    with 1(2) show ?thesis by simp
  qed
qed (auto split: if_splits)

lemma SplitN_root:
  assumes "CHR '':'' \<notin> set pw"
  shows "SplitN 3 (CHR '':'') (''root:'' @ pw @ '':'' @ rest) = [''root'', pw, rest]"
proof -
  have w: "takeWhile (\<lambda>x. x \<noteq> CHR '':'') (pw @ CHR '':'' # rest) = pw"
    "dropWhile (\<lambda>x. x \<noteq> CHR '':'') (pw @ CHR '':'' # rest) = CHR '':'' # rest"
    using assms by (induction pw) auto
  then show ?thesis by (simp add: numeral_3_eq_3)
qed

lemma hash_chars:
  "validatePasswordHash hash = None \<Longrightarrow> newline \<notin> set hash \<and> CHR '':'' \<notin> set hash"
  by (auto simp: validatePasswordHash_def ContainsAny_def split: if_splits)

lemma set_root_chars:
  assumes "\<forall>l\<in>set ls. newline \<notin> set l" "newline \<notin> set hash" "l \<in> set (fst (set_root hash ls))"
  shows "newline \<notin> set l"
  using assms
proof (induction ls)
  case (Cons x ls)
  have "newline \<notin> set (SplitN 3 (CHR '':'') x ! 2)" if "length (SplitN 3 (CHR '':'') x) \<ge> 3"
    using that Cons.prems(1) SplitN_chars [OF nth_mem, of 2 3 "CHR '':''" x] by auto
  with Cons show ?case by (auto simp: Let_def split: if_splits prod.splits)
qed simp

lemma set_root_found: "snd (set_root hash ls) \<longleftrightarrow> (\<exists>l\<in>set ls. is_root l)"
  by (induction ls) (auto split: prod.splits)

lemma is_root_append [simp]: "is_root (''root:'' @ x)"
  by (simp add: HasPrefix_def)

lemma root_entry_root [simp]: "is_root (root_entry hash)"
  unfolding root_entry_def by (rule is_root_append)

lemma set_root_others: "filter (\<lambda>l. P l \<and> \<not> is_root l) (fst (set_root hash ls)) = filter (\<lambda>l. P l \<and> \<not> is_root l) ls"
  by (induction ls) (auto simp: Let_def HasPrefix_def split: prod.splits)

lemma set_root_roots:
  "filter is_root (fst (set_root hash ls)) =
     (case filter is_root ls of [] \<Rightarrow> [] | r # rs \<Rightarrow> fst (set_root hash [r]) @ rs)"
  by (induction ls) (auto simp: Let_def HasPrefix_def split: prod.splits)

lemma Split_snoc_sep: "Split c (s @ [c]) = Split c s @ [[]]"
  by (induction s) (auto split: list.splits)

lemma shadow_lines:
  fixes s :: string
  assumes "validatePasswordHash hash = None"
  defines "L \<equiv> new_lines hash (Split newline s)"
  shows "Split newline (shadow_text hash s) = L \<or> Split newline (shadow_text hash s) = L @ [[]]"
proof -
  have hash: "newline \<notin> set hash" using hash_chars [OF assms(1)] by simp
  have "\<forall>l\<in>set (Split newline s). newline \<notin> set l" by (auto dest: Split_parts)
  from set_root_chars [OF this hash] hash have "\<forall>l\<in>set L. newline \<notin> set l"
    by (auto simp: L_def new_lines_eq root_entry_def)
  moreover have "fst (set_root hash (Split newline s)) \<noteq> []"
    by (cases "Split newline s") (simp_all add: split_beta Let_def)
  then have "L \<noteq> []" by (simp add: L_def new_lines_eq)
  ultimately have "Split newline (Join [newline] L) = L" by (simp add: Split_Join)
  moreover have "shadow_text hash s = Join [newline] L \<or> shadow_text hash s = Join [newline] L @ [newline]"
    by (simp add: shadow_text_eq L_def Let_def)
  ultimately show ?thesis by (auto simp: Split_snoc_sep)
qed

lemma shadow_accounts:
  assumes "validatePasswordHash hash = None"
  shows "accounts (shadow_text hash s) = accounts s"
proof -
  have "filter (\<lambda>l. l \<noteq> [] \<and> \<not> is_root l) (new_lines hash (Split newline s)) = accounts s"
    using set_root_others [of "\<lambda>l. l \<noteq> []" hash "Split newline s"]
    by (simp add: new_lines_eq accounts_def)
  with shadow_lines [OF assms, of s] show ?thesis by (auto simp: accounts_def)
qed

lemma shadow_roots:
  assumes "validatePasswordHash hash = None"
  shows "root_lines (shadow_text hash s) =
    (case root_lines s of [] \<Rightarrow> [root_entry hash] | r # rs \<Rightarrow> fst (set_root hash [r]) @ rs)"
proof -
  have "filter is_root (new_lines hash (Split newline s)) =
    (case root_lines s of [] \<Rightarrow> [root_entry hash] | r # rs \<Rightarrow> fst (set_root hash [r]) @ rs)"
  proof (cases "root_lines s")
    case Nil
    then have n: "\<not> snd (set_root hash (Split newline s))"
      by (auto simp: set_root_found root_lines_def filter_empty_conv)
    with Nil set_root_roots [of hash "Split newline s"] show ?thesis
      by (simp add: new_lines_eq root_lines_def)
  next
    case (Cons r rs)
    then have "r \<in> set (filter is_root (Split newline s))" by (simp add: root_lines_def)
    then have "snd (set_root hash (Split newline s))" by (auto simp: set_root_found)
    with Cons set_root_roots [of hash "Split newline s"] show ?thesis
      by (simp add: new_lines_eq root_lines_def)
  qed
  with shadow_lines [OF assms, of s] show ?thesis by (auto simp: root_lines_def HasPrefix_def)
qed

text \<open>C40: A password hash that passes the check changes the shadow file only in the entry of root.
  The other accounts stay as they are and in their order, and no line is added but that of root
  when there was none. The first entry of root gets the hash as its password and keeps its other
  fields. Thus a hash can not smuggle in a field or an account.\<close>

theorem shadow_only_root:
  assumes "validatePasswordHash hash = None"
    and "setupPasswordHash hash (Content s) werr = (err, ev)"
  shows "\<exists>t. ev = [WriteShadow t] \<and> accounts t = accounts s
    \<and> (root_lines s = [] \<longrightarrow> root_lines t = [root_entry hash])
    \<and> (\<forall>pw rest rs. CHR '':'' \<notin> set pw \<and> root_lines s = (''root:'' @ pw @ '':'' @ rest) # rs \<longrightarrow>
         root_lines t = (''root:'' @ hash @ '':'' @ rest) # rs
         \<and> SplitN 3 (CHR '':'') (hd (root_lines t)) = [''root'', hash, rest])"
proof -
  have "ev = [WriteShadow (shadow_text hash s)]" using assms by (auto simp: setupPasswordHash_def)
  moreover have "root_lines (shadow_text hash s) = (''root:'' @ hash @ '':'' @ rest) # rs"
    if "CHR '':'' \<notin> set pw" "root_lines s = (''root:'' @ pw @ '':'' @ rest) # rs" for pw rest rs
    using that(2) SplitN_root [OF that(1), of rest] is_root_append [of "pw @ '':'' @ rest"]
    by (simp add: shadow_roots [OF assms(1)])
  ultimately show ?thesis
    using shadow_accounts [OF assms(1)] shadow_roots [OF assms(1), of s] hash_chars [OF assms(1)]
      SplitN_root [of hash] by auto
qed

theorem shadow_only_root_witness:
  "\<exists>t. snd (setupPasswordHash ''$6$x'' (Content (''root:*:1:'' @ [newline] @ ''sys:!:2:'')) None) = [WriteShadow t]
    \<and> accounts t = [''sys:!:2:''] \<and> root_lines t = [''root:$6$x:1:'']"
proof -
  let ?s = "''root:*:1:'' @ [newline] @ ''sys:!:2:''"
  have v: "validatePasswordHash ''$6$x'' = None" by code_simp
  have a: "accounts ?s = [''sys:!:2:'']" by code_simp
  have r: "root_lines ?s = (''root:'' @ ''*'' @ '':'' @ ''1:'') # []" by code_simp
  have c: "CHR '':'' \<notin> set ''*''" by simp
  from shadow_only_root [OF v prod.collapse [symmetric, of "setupPasswordHash ''$6$x'' (Content ?s) None"]] a r c
  obtain t where "snd (setupPasswordHash ''$6$x'' (Content ?s) None) = [WriteShadow t]" "accounts t = accounts ?s"
    "root_lines t = (''root:'' @ ''$6$x'' @ '':'' @ ''1:'') # []" by blast
  with a show ?thesis by (intro exI [of _ t]) simp
qed

end
