(* ===== verification/Run_Modes.thy ===== *)
theory Run_Modes
  imports Rescue
begin

text \<open>
  The run modes (runmode/provision.go, deprovision.go, resolve.go, standby.go): the provisioning
  pipeline with its rescue handling, deprovisioning, and standby with the commands that it polls,
  runs and acknowledges.

  Deprovisioning itself, the merge of a command payload into the configuration and the files of a
  command are arguments, as are the answers of the server and the end of the context. A wait for
  the end of the context that never comes is the result \<open>Blocked\<close>: the code does not return.
\<close>

subsection \<open>Results\<close>

datatype 's run_result = ProvisionComplete bool bool "'s machineConfig option" | RebootRequested
  | PowerOffRequested | RescueShell | RunError go_err | RunOk | Blocked

datatype mode = StandbyMode | DryRunMode | DeprovisionMode | CheckMode | ProvisionMode

text \<open>\<open>Resolve\<close>; the error names the mode.\<close>

definition Resolve :: "'s machineConfig \<Rightarrow> string + mode" where
  "Resolve cfg =
     (let mode = cfgMode cfg in
      if mode = ''standby'' then Inr StandbyMode
      else if mode = ''dry-run'' then Inr DryRunMode
      else if IsDeprovisionMode mode then Inr DeprovisionMode
      else if mode = ''check'' then Inr CheckMode
      else if mode = ''provision'' \<or> mode = [] then Inr ProvisionMode
      else Inl mode)"

subsection \<open>Provisioning with rescue handling\<close>

text \<open>The surroundings of the runs, by the number of the run: the environment of the pipeline, the
  error of reading and of removing the checkpoint, the answers for the rescue set-up, the time,
  and how the context ends during the delay before a retry. \<open>me_end\<close> is how the context ends at
  last, \<open>None\<close> when it never does.\<close>

record 'e mode_env =
  me_run :: "nat \<Rightarrow> 'e run_env"
  me_resume :: bool
  me_read :: "nat \<Rightarrow> go_err option"
  me_remove :: "nat \<Rightarrow> go_err option"
  me_setup :: "nat \<Rightarrow> setup_io"
  me_now :: "nat \<Rightarrow> int"
  me_sleep :: "nat \<Rightarrow> sentinel option"
  me_end :: "sentinel option"

text \<open>How the loop of runs ends: with success, with a reboot that a step asked for, with the context
  cancelled during a delay, or with the rescue action shell, wait or reboot.\<close>

datatype loop_end = Succeeded | NeedsReboot go_err | RetryCanceled sentinel | ToShell | ToWait go_err | GiveUp go_err

text \<open>The loop from run \<open>n\<close> on: how it ends, the orchestrator and the files at the end, and for every
  run its log and the events of the rescue set-up that follows it.\<close>

type_synonym runs = "(run_event list \<times> rescue_event list) list"

function prov_loop ::
    "'e mode_env \<Rightarrow> rescueConfig \<Rightarrow> nat \<Rightarrow> retryState \<Rightarrow> 'e orch \<Rightarrow> files
     \<Rightarrow> loop_end \<times> 'e orch \<times> files \<times> runs" where
  "prov_loop M rc n state o1 fs =
     (case Provision (me_run M n) (me_resume M) (me_read M n) (me_remove M n) o1 fs of
        (None, w) \<Rightarrow> (Succeeded, w_orch w, w_files w, [(w_log w, [])])
      | (Some err, w) \<Rightarrow>
         if errors_As is_reboot_error err \<noteq> None then (NeedsReboot err, w_orch w, w_files w, [(w_log w, [])])
         else let run = (w_log w, snd (Setup rc (me_setup M n))); (action, state') = Decide rc (Some state) in
           if aType action = ModeRetry then
             (let state = RecordAttempt (me_now M n) (Some (error_text (env_text (me_run M n)) err)) (the state')
              in case me_sleep M n of
                   Some s \<Rightarrow> (RetryCanceled s, w_orch w, w_files w, [run])
                 | None \<Rightarrow> (let (e, o1, fs, logs) = prov_loop M rc (Suc n) state (w_orch w) (w_files w)
                            in (e, o1, fs, run # logs)))
           else if aType action = ModeShell then (ToShell, w_orch w, w_files w, [run])
           else if aType action = ModeWait then (ToWait err, w_orch w, w_files w, [run])
           else (GiveUp err, w_orch w, w_files w, [run]))"
  by pat_completeness auto

lemma Decide_retry:
  assumes "Decide rc (Some s) = (a, s')" "aType a = ModeRetry"
  shows "rMode rc = ModeRetry" "\<exists>t. s' = Some t \<and> Attempts t = Attempts s \<and> Attempts s < stMaxRetries t
    \<and> stMaxRetries t = (if rMaxRetries rc > 0 then rMaxRetries rc else stMaxRetries s)"
  using assms by (auto simp: Decide_def Let_def CanRetry_def mode_defs split: if_splits)

termination prov_loop
proof (relation "measure (\<lambda>(M, rc, n, s, o1, fs). nat (max (rMaxRetries rc) (stMaxRetries s) - Attempts s))", goal_cases)
  case (2 M rc n state o1 fs x1 x2 e run xa a st' sta)
  then show ?case using Decide_retry(2) [of rc state a st']
    by (auto simp: RecordAttempt_def Let_def split: if_splits)
qed simp

declare prov_loop.simps [simp del]

definition provisionComplete :: "bool \<Rightarrow> bool \<Rightarrow> 's run_result" where
  "provisionComplete firmware powerOff = ProvisionComplete firmware powerOff None"

definition canceled_err :: "string \<Rightarrow> sentinel \<Rightarrow> go_err" where
  "canceled_err what s = Wrapped (what @ '' canceled: '') (Sentinel s) []"

text \<open>\<open>ProvisionMode.Run\<close>: the result, the files and the logs of the runs.\<close>

definition ProvisionMode_Run ::
    "'e mode_env \<Rightarrow> 's machineConfig \<Rightarrow> 'e orch \<Rightarrow> files \<Rightarrow> 's run_result \<times> files \<times> runs" where
  "ProvisionMode_Run M cfg o1 fs =
     (let (e, o1, fs, logs) = prov_loop M (RescueConfig cfg) 0 zeroRetryState o1 fs
      in (case e of
            Succeeded \<Rightarrow> provisionComplete (firmwareChanged o1) (PowerOffOnSuccess cfg)
          | NeedsReboot _ \<Rightarrow> RebootRequested
          | RetryCanceled s \<Rightarrow> RunError (canceled_err ''retry'' s)
          | ToShell \<Rightarrow> RescueShell
          | ToWait _ \<Rightarrow> (case me_end M of Some s \<Rightarrow> RunError (canceled_err ''wait mode'' s) | None \<Rightarrow> Blocked)
          | GiveUp err \<Rightarrow> RunError err,
          fs, logs))"

subsection \<open>Deprovisioning\<close>

text \<open>\<open>DeprovisionMode.Run\<close>, with the error of \<open>Deprovision\<close> and whether the context ends.\<close>

definition DeprovisionMode_Run :: "'s machineConfig \<Rightarrow> go_err option \<Rightarrow> bool \<Rightarrow> 's run_result" where
  "DeprovisionMode_Run cfg err ends =
     (case err of
        Some e \<Rightarrow>
          if WaitOnFailure cfg then (if ends then RunError (Wrapped ''deprovisioning failed: '' e []) else Blocked)
          else RunError e
      | None \<Rightarrow> if PowerOffOnSuccess cfg then PowerOffRequested else RunOk)"

subsection \<open>Standby\<close>

text \<open>The effects of standby in their order: an acknowledgement with identifier, status and message,
  the runs of the pipeline, a run of deprovisioning, the status sent to the server, the files of a
  command put into place, copied into the ramdisk and dropped, the flag that pauses the heartbeats,
  a heartbeat.\<close>

datatype sb_event = Ack string string string | Runs runs | DeprovisionRun | StatusStandby
  | ApplyFiles | CopyToRamdisk | DiscardFiles | CommandRunning bool | HeartbeatSent

record command =
  cmdID :: string
  cmdType :: string
  cmdPayload :: string

text \<open>What a command meets: the error of copying the configuration, the capability of the client to
  merge a payload, the capability to put the files of a command into place with its answer, the
  error of copying them to the ramdisk, the orchestrator made from a configuration, the surroundings
  of the pipeline and the files it starts with, the outcome of deprovisioning with the disks it
  skipped and those it wiped instead of erasing.\<close>

record ('s, 'e) cmd_env =
  ce_copy_err :: "go_err option"
  ce_merge :: "(string \<Rightarrow> go_err + 's machineConfig \<times> string list) option"
  ce_files :: "(go_err + bool) option"
  ce_ramdisk :: "go_err option"
  ce_orch :: "'s machineConfig \<Rightarrow> 'e orch"
  ce_mode :: "'e mode_env"
  ce_disk :: files
  ce_deprovision :: "'s machineConfig \<Rightarrow> go_err option \<times> string list \<times> string list"
  ce_text :: "sentinel \<Rightarrow> string"

datatype config_err = CopyConfig go_err | NoPayloadSupport | PayloadError go_err

fun config_err_text :: "(sentinel \<Rightarrow> string) \<Rightarrow> config_err \<Rightarrow> string" where
  "config_err_text txt (CopyConfig e) = ''cannot copy the config: '' @ error_text txt e"
| "config_err_text txt NoPayloadSupport = ''the provider does not support command payloads''"
| "config_err_text txt (PayloadError e) = error_text txt e"

text \<open>\<open>cloneConfig\<close>: JSON keeps every field but those marked so; the three lists are copied after it,
  and the mark of a standby command is not.\<close>

definition cloneConfig :: "go_err option \<Rightarrow> 's machineConfig \<Rightarrow> config_err + 's machineConfig" where
  "cloneConfig err c = (case err of Some e \<Rightarrow> Inl (CopyConfig e) | None \<Rightarrow> Inr (c\<lparr>StandbyCommand := False\<rparr>))"

definition commandConfig ::
    "('s, 'e) cmd_env \<Rightarrow> 's machineConfig \<Rightarrow> string \<Rightarrow> config_err + 's machineConfig \<times> string list" where
  "commandConfig E live payload =
     (case cloneConfig (ce_copy_err E) live of
        Inl e \<Rightarrow> Inl e
      | Inr base \<Rightarrow>
         if payload = [] then Inr (base, [])
         else case ce_merge E of
           None \<Rightarrow> Inl NoPayloadSupport
         | Some p \<Rightarrow>
            (case p payload of
               Inl e \<Rightarrow> Inl (PayloadError e)
             | Inr (runCfg, keys) \<Rightarrow>
                if keys = [] then Inr (base, [])
                else Inr (runCfg\<lparr>Agent := Agent base, Transport := Transport base, Network := Network base,
                                 ProvisionerFiles := ProvisionerFiles base, MachineFiles := MachineFiles base,
                                 MachineCommands := MachineCommands base\<rparr>, keys)))"

definition applyCommandFiles :: "('s, 'e) cmd_env \<Rightarrow> (go_err + bool) \<Rightarrow> 's machineConfig \<Rightarrow> go_err option \<times> sb_event list" where
  "applyCommandFiles E applied cfg =
     (case applied of
        Inl e \<Rightarrow> (Some e, [ApplyFiles])
      | Inr ok \<Rightarrow>
         if \<not> ok \<or> \<not> ProvisionerFilesInRamdisk cfg then (None, [ApplyFiles])
         else (map_option (\<lambda>e. Wrapped ''apply the provisioner files to the ramdisk: '' e []) (ce_ramdisk E),
               [ApplyFiles, CopyToRamdisk]))"

definition ackMessage :: "string \<Rightarrow> string list \<Rightarrow> string" where
  "ackMessage finished keys = (if keys = [] then finished else finished @ '' with payload keys '' @ Join '','' keys)"

definition EraseFallbackNote :: "string list \<Rightarrow> string" where
  "EraseFallbackNote disks =
     (if disks = [] then []
      else ''; secure erase not done, wiped instead (SECURE_ERASE_FALLBACK=wipe): '' @ Join '', '' disks)"

definition NotWipedNote :: "string list \<Rightarrow> string" where
  "NotWipedNote disks = (if disks = [] then [] else ''; not wiped, in use: '' @ Join '', '' disks)"

text \<open>\<open>rebootErr.Message()\<close> of the error that \<open>errors.As\<close> finds.\<close>

definition reboot_text :: "go_err \<Rightarrow> string" where
  "reboot_text e = (case errors_As is_reboot_error e of Some (RebootRequiredError r d) \<Rightarrow> reboot_message r d | _ \<Rightarrow> [])"

text \<open>A handler returns its events and the result that ends standby; \<open>None\<close> when standby goes on.\<close>

definition handleProvision ::
    "('s, 'e) cmd_env \<Rightarrow> command \<Rightarrow> 's machineConfig \<Rightarrow> string list \<Rightarrow> sb_event list \<times> 's run_result option" where
  "handleProvision E cmd cfg keys =
     (let M = ce_mode E;
          (e, o1, fs, runs) = prov_loop M (RescueConfig cfg) 0 zeroRetryState (ce_orch E cfg) (ce_disk E);
          failed = (\<lambda>err. Ack (cmdID cmd) ''failed'' (''provision command failed: '' @ error_text (ce_text E) err))
      in case e of
           Succeeded \<Rightarrow>
             ([Runs runs, Ack (cmdID cmd) ''completed'' (ackMessage ''provisioning complete'' keys)],
              Some (ProvisionComplete (firmwareChanged o1) (PowerOffOnSuccess cfg) (Some cfg)))
         | NeedsReboot err \<Rightarrow>
             ([Runs runs, Ack (cmdID cmd) ''failed'' (''provision command needs a reboot first ('' @ reboot_text err @
                 ''); send it again after the reboot'')], Some RebootRequested)
         | RetryCanceled s \<Rightarrow> ([Runs runs], Some (RunError (canceled_err ''retry'' s)))
         | ToShell \<Rightarrow> ([Runs runs], Some RescueShell)
         | ToWait err \<Rightarrow>
             ([Runs runs, failed err],
              Some (case me_end M of Some s \<Rightarrow> RunError (canceled_err ''wait mode'' s) | None \<Rightarrow> Blocked))
         | GiveUp err \<Rightarrow> ([Runs runs, failed err], Some (RunError err)))"

definition handleDeprovision ::
    "('s, 'e) cmd_env \<Rightarrow> command \<Rightarrow> 's machineConfig \<Rightarrow> string list \<Rightarrow> sb_event list \<times> 's run_result option" where
  "handleDeprovision E cmd cfg keys =
     (case ce_deprovision E cfg of
        (Some err, _, _) \<Rightarrow>
          ([DeprovisionRun, Ack (cmdID cmd) ''failed'' (''deprovision command failed: '' @ error_text (ce_text E) err)],
           Some (if WaitOnFailure cfg \<and> me_end (ce_mode E) = None then Blocked else RunError err))
      | (None, skipped, fallbacks) \<Rightarrow>
          (let message = ackMessage ''deprovisioning complete'' keys @ NotWipedNote skipped @ EraseFallbackNote fallbacks;
               ev = [DeprovisionRun, Ack (cmdID cmd) ''completed'' message]
           in if DeprovisionSuccessAction (Agent cfg) = ''standby'' then (ev @ [StatusStandby], None)
              else if PowerOffOnSuccess cfg then (ev, Some PowerOffRequested)
              else (ev, Some RebootRequested)))"

text \<open>Deferred calls run when the handler returns, so not when it blocks.\<close>

definition deferred :: "'s run_result option \<Rightarrow> sb_event list \<Rightarrow> sb_event list" where
  "deferred r ev = (case r of Some Blocked \<Rightarrow> [] | _ \<Rightarrow> ev)"

definition handleRunCommand ::
    "('s, 'e) cmd_env \<Rightarrow> 's machineConfig \<Rightarrow> command \<Rightarrow> sb_event list \<times> 's run_result option" where
  "handleRunCommand E live cmd =
     (let (ev, r) =
        (case commandConfig E live (cmdPayload cmd) of
           Inl e \<Rightarrow>
             ([Ack (cmdID cmd) ''failed''
                (case e of CopyConfig _ \<Rightarrow> cmdType cmd @ '' command failed: '' @ config_err_text (ce_text E) e
                         | _ \<Rightarrow> ''invalid '' @ cmdType cmd @ '' payload: '' @ config_err_text (ce_text E) e)], None)
         | Inr (runCfg, keys) \<Rightarrow>
             (let runCfg = runCfg\<lparr>cfgMode := cmdType cmd, StandbyCommand := True\<rparr>;
                  (err, ev) = (case ce_files E of Some applied \<Rightarrow> applyCommandFiles E applied runCfg | None \<Rightarrow> (None, []))
              in case err of
                   Some e \<Rightarrow> (ev @ [Ack (cmdID cmd) ''failed'' (cmdType cmd @ '' command failed: '' @ error_text (ce_text E) e)], None)
                 | None \<Rightarrow>
                     (let (ev', r) = (if cmdType cmd = ''provision'' then handleProvision E cmd runCfg keys
                                      else handleDeprovision E cmd runCfg keys)
                      in (ev @ ev', r))))
      in (ev @ (if ce_files E \<noteq> None then deferred r [DiscardFiles] else []), r))"

definition handleCommand ::
    "('s, 'e) cmd_env \<Rightarrow> 's machineConfig \<Rightarrow> command \<Rightarrow> sb_event list \<times> 's run_result option" where
  "handleCommand E live cmd =
     (if cmdType cmd = ''provision'' \<or> cmdType cmd = ''deprovision'' then handleRunCommand E live cmd
      else if cmdType cmd = ''reboot'' then ([Ack (cmdID cmd) ''completed'' []], Some RebootRequested)
      else if cmdType cmd = ''health-check'' then ([Ack (cmdID cmd) ''completed'' ''healthy''], None)
      else ([Ack (cmdID cmd) ''failed'' ''unknown command type''], None))"

text \<open>The loop of \<open>pollCommands\<close> over the commands, each with what it meets.\<close>

fun run_commands ::
    "'s machineConfig \<Rightarrow> (command \<times> ('s, 'e) cmd_env) list \<Rightarrow> sb_event list \<times> 's run_result option" where
  "run_commands live [] = ([], None)"
| "run_commands live ((cmd, E) # cmds) =
     (case handleCommand E live cmd of
        (ev, Some r) \<Rightarrow> (ev, Some r)
      | (ev, None) \<Rightarrow> (let (ev', r) = run_commands live cmds in (ev @ ev', r)))"

text \<open>\<open>pollCommands\<close>: the error of the fetch, or whether there were commands and the result.\<close>

definition pollCommands ::
    "'s machineConfig \<Rightarrow> go_err + (command \<times> ('s, 'e) cmd_env) list
     \<Rightarrow> sb_event list \<times> (go_err + 's run_result option \<times> bool)" where
  "pollCommands live fetched =
     (case fetched of
        Inl e \<Rightarrow> ([], Inl e)
      | Inr cmds \<Rightarrow>
         (let (ev, r) = run_commands live cmds
          in (CommandRunning True # ev @ deferred r [CommandRunning False],
              Inr (r, r \<noteq> None \<or> cmds \<noteq> []))))"

definition pollInterval :: duration where "pollInterval = 10 * second"
definition repollAfterCommands :: duration where "repollAfterCommands = second"

text \<open>\<open>nextPollDelay\<close>, from the time since the start of the poll.\<close>

definition nextPollDelay :: "duration \<Rightarrow> bool \<Rightarrow> duration" where
  "nextPollDelay since any =
     (if any then min repollAfterCommands (max 0 (pollInterval - since)) else max 0 (pollInterval - since))"

definition validateConfig :: "'s machineConfig option \<Rightarrow> bool \<Rightarrow> string option" where
  "validateConfig cfg client =
     (case cfg of
        None \<Rightarrow> Some ''standby mode requires machine config''
      | Some c \<Rightarrow>
         if \<not> client then Some ''standby mode requires CAPRF client''
         else let missing = (if TrimSpace (HeartbeatURL (Agent c)) = [] then [''HEARTBEAT_URL''] else [])
                          @ (if TrimSpace (CommandsURL (Agent c)) = [] then [''COMMANDS_URL''] else [])
              in if missing \<noteq> [] then Some (''standby mode requires '' @ Join '' and '' missing) else None)"

text \<open>The loop of \<open>StandbyMode.Run\<close> after the first poll: the answers of the further fetches, with
  the time each poll takes, until the context ends with \<open>s\<close>. Besides the events it returns the
  delays before the polls. The heartbeats of their own goroutine are not in it.\<close>

fun standby_loop ::
    "'s machineConfig \<Rightarrow> sentinel \<Rightarrow> duration \<Rightarrow> (duration \<times> (go_err + (command \<times> ('s, 'e) cmd_env) list)) list
     \<Rightarrow> sb_event list \<times> 's run_result \<times> duration list" where
  "standby_loop live s delay [] = ([], RunError (canceled_err ''standby'' s), [])"
| "standby_loop live s delay ((took, fetched) # polls) =
     (case pollCommands live fetched of
        (ev, Inr (Some r, _)) \<Rightarrow> (ev, r, [delay])
      | (ev, answer) \<Rightarrow>
          (let any = (case answer of Inr (_, any) \<Rightarrow> any | Inl _ \<Rightarrow> False);
               (ev', r, ds) = standby_loop live s (nextPollDelay took any) polls
           in (ev @ ev', r, delay # ds)))"

text \<open>\<open>StandbyMode.Run\<close>: the answers to the first status and heartbeat, then the polls. The first
  fetch has to succeed.\<close>

definition StandbyMode_Run ::
    "'s machineConfig option \<Rightarrow> bool \<Rightarrow> go_err option \<Rightarrow> go_err option \<Rightarrow> sentinel
     \<Rightarrow> duration \<times> (go_err + (command \<times> ('s, 'e) cmd_env) list)
     \<Rightarrow> (duration \<times> (go_err + (command \<times> ('s, 'e) cmd_env) list)) list
     \<Rightarrow> sb_event list \<times> 's run_result" where
  "StandbyMode_Run cfg client status_err heartbeat_err s first polls =
     (case validateConfig cfg client of
        Some t \<Rightarrow> ([], RunError (Opaque t))
      | None \<Rightarrow>
     (case status_err of
        Some e \<Rightarrow> ([StatusStandby], RunError (Wrapped ''standby status readiness: '' e []))
      | None \<Rightarrow>
     (case heartbeat_err of
        Some e \<Rightarrow> ([StatusStandby, HeartbeatSent], RunError (Wrapped ''standby heartbeat readiness: '' e []))
      | None \<Rightarrow>
     (case pollCommands (the cfg) (snd first) of
        (ev, Inl e) \<Rightarrow> ([StatusStandby, HeartbeatSent] @ ev, RunError (Wrapped ''standby command readiness: '' e []))
      | (ev, Inr (Some r, _)) \<Rightarrow> ([StatusStandby, HeartbeatSent] @ ev, r)
      | (ev, Inr (None, any)) \<Rightarrow>
         (let (ev', r, _) = standby_loop (the cfg) s (nextPollDelay (fst first) any) polls
          in ([StatusStandby, HeartbeatSent] @ ev @ ev', r))))))"

subsection \<open>How often the pipeline runs\<close>

abbreviation retry_limit :: "rescueConfig \<Rightarrow> retryState \<Rightarrow> int" where
  "retry_limit rc s \<equiv> (if rMaxRetries rc > 0 then rMaxRetries rc else stMaxRetries s)"

text \<open>The four ways in which a run of the loop goes on.\<close>

lemma prov_loop_cases:
  assumes "prov_loop M rc n s o1 fs = (e, o', fs', runs)"
  obtains (ok) w where "Provision (me_run M n) (me_resume M) (me_read M n) (me_remove M n) o1 fs = (None, w)"
      "e = Succeeded" "runs = [(w_log w, [])]"
  | (stop) err w sev where "Provision (me_run M n) (me_resume M) (me_read M n) (me_remove M n) o1 fs = (Some err, w)"
      "runs = [(w_log w, sev)]" "e = NeedsReboot err \<or> (\<exists>c. e = RetryCanceled c \<and> me_sleep M n = Some c \<and> rMode rc = ModeRetry)
        \<or> e = ToShell \<and> rMode rc = ModeShell \<or> e = ToWait err \<and> rMode rc = ModeWait
        \<or> e = GiveUp err \<and> (rMode rc = ModeRetry \<longrightarrow> Attempts s \<ge> retry_limit rc s)"
  | (again) err w sev t runs' where "Provision (me_run M n) (me_resume M) (me_read M n) (me_remove M n) o1 fs = (Some err, w)"
      "rMode rc = ModeRetry" "Attempts s < retry_limit rc s"
      "Attempts t = Attempts s + 1" "stMaxRetries t = retry_limit rc s"
      "prov_loop M rc (Suc n) t (w_orch w) (w_files w) = (e, o', fs', runs')" "runs = (w_log w, sev) # runs'"
proof -
  obtain r w where P: "Provision (me_run M n) (me_resume M) (me_read M n) (me_remove M n) o1 fs = (r, w)" by fastforce
  show thesis
  proof (cases r)
    case None
    with assms P show thesis by (intro ok [of w]) (auto simp: prov_loop.simps [of M rc n])
  next
    case (Some err)
    obtain a s' where D: "Decide rc (Some s) = (a, s')" by fastforce
    let ?t = "RecordAttempt (me_now M n) (Some (error_text (env_text (me_run M n)) err)) (the s')"
    obtain x where rec: "prov_loop M rc (Suc n) ?t (w_orch w) (w_files w) = x" by blast
    consider "errors_As is_reboot_error err \<noteq> None" | "errors_As is_reboot_error err = None" "aType a \<noteq> ModeRetry"
      | c where "errors_As is_reboot_error err = None" "aType a = ModeRetry" "me_sleep M n = Some c"
      | "errors_As is_reboot_error err = None" "aType a = ModeRetry" "me_sleep M n = None" by fastforce
    then show thesis
    proof cases
      case 1
      with assms P Some show thesis by (intro stop [of err w "[]"]) (auto simp: prov_loop.simps [of M rc n])
    next
      case 2
      from D have "aType a = ModeShell \<longrightarrow> rMode rc = ModeShell" "aType a = ModeWait \<longrightarrow> rMode rc = ModeWait"
        "rMode rc = ModeRetry \<longrightarrow> Attempts s \<ge> retry_limit rc s"
        using 2 by (auto simp: Decide_def Let_def CanRetry_def mode_defs split: if_splits)
      with 2 assms P Some D show thesis
        by (intro stop [of err w "snd (Setup rc (me_setup M n))"])
          (auto simp: prov_loop.simps [of M rc n] Let_def split: if_splits)
    next
      case 3
      with assms P Some D Decide_retry(1) [OF D] show thesis
        by (intro stop [of err w "snd (Setup rc (me_setup M n))"]) (auto simp: prov_loop.simps [of M rc n] Let_def)
    next
      case 4
      with Decide_retry [OF D] obtain u where u: "s' = Some u" "Attempts u = Attempts s"
        "Attempts s < stMaxRetries u" "stMaxRetries u = retry_limit rc s" "rMode rc = ModeRetry" by auto
      show thesis
      proof (rule again [OF P [unfolded Some] u(5), of ?t "snd (snd (snd x))" "snd (Setup rc (me_setup M n))"])
        show "Attempts s < retry_limit rc s" "Attempts ?t = Attempts s + 1" "stMaxRetries ?t = retry_limit rc s"
          using u by (simp_all add: RecordAttempt_def)
        show "prov_loop M rc (Suc n) ?t (w_orch w) (w_files w) = (e, o', fs', snd (snd (snd x)))"
          "runs = (w_log w, snd (Setup rc (me_setup M n))) # snd (snd (snd x))"
          using 4 assms P Some D rec by (auto simp: prov_loop.simps [of M rc n] Let_def split: prod.splits)
      qed
    qed
  qed
qed

lemma prov_loop_length:
  assumes "prov_loop M rc n s o1 fs = (e, o', fs', runs)"
  shows "runs \<noteq> []" "rMode rc \<noteq> ModeRetry \<Longrightarrow> length runs = 1"
    "int (length runs) \<le> 1 + max 0 (retry_limit rc s - Attempts s)"
    "e = GiveUp err \<Longrightarrow> rMode rc = ModeRetry \<Longrightarrow> int (length runs) = 1 + max 0 (retry_limit rc s - Attempts s)"
proof -
  have "runs \<noteq> [] \<and> (rMode rc \<noteq> ModeRetry \<longrightarrow> length runs = 1)
    \<and> int (length runs) \<le> 1 + max 0 (retry_limit rc s - Attempts s)
    \<and> (e = GiveUp err \<and> rMode rc = ModeRetry \<longrightarrow> int (length runs) = 1 + max 0 (retry_limit rc s - Attempts s))"
    using assms
  proof (induction runs arbitrary: n s o1 fs)
    case Nil
    then show ?case by (cases rule: prov_loop_cases) auto
  next
    case (Cons x runs)
    from Cons.prems show ?case
    proof (cases rule: prov_loop_cases)
      case (again e1 w sev t runs')
      from again(7) have "runs' = runs" by simp
      from Cons.IH [OF again(6) [unfolded this]] again(2-5) show ?thesis by auto
    qed auto
  qed
  then show "runs \<noteq> []" "rMode rc \<noteq> ModeRetry \<Longrightarrow> length runs = 1"
    "int (length runs) \<le> 1 + max 0 (retry_limit rc s - Attempts s)"
    "e = GiveUp err \<Longrightarrow> rMode rc = ModeRetry \<Longrightarrow> int (length runs) = 1 + max 0 (retry_limit rc s - Attempts s)"
    by auto
qed

lemma prov_loop_mode:
  assumes "prov_loop M rc n s o1 fs = (e, o', fs', runs)" "rMode rc = ModeRetry"
  shows "e \<noteq> ToShell \<and> (\<forall>err. e \<noteq> ToWait err)"
  using assms(1)
proof (induction runs arbitrary: n s o1 fs)
  case Nil
  then show ?case by (cases rule: prov_loop_cases) auto
next
  case (Cons x runs)
  from Cons.prems show ?case
  proof (cases rule: prov_loop_cases)
    case (again e1 w sev t runs')
    from again(7) have "runs' = runs" by simp
    from Cons.IH [OF again(6) [unfolded this]] show ?thesis .
  qed (use assms(2) in \<open>auto simp: mode_defs\<close>)
qed

lemma RescueConfig_retries:
  "rMode (RescueConfig cfg) = ModeRetry \<longleftrightarrow> rsMode (RescueSection cfg) = ''retry''"
  "rMaxRetries (RescueConfig cfg) = (if rsMode (RescueSection cfg) = ''retry'' then 3 else 0)"
  by (auto simp: RescueConfig_def ApplyDefaults_def ParseMode_def mode_defs Let_def)


definition sample_setup :: setup_io where
  "sample_setup = \<lparr>io_mkdir = None, io_keys = None, io_shadow = NotExist, io_shadow_write = None\<rparr>"

definition sample_mode :: "unit mode_env" where
  "sample_mode = \<lparr>me_run = \<lambda>_. sample_env, me_resume = True, me_read = \<lambda>_. None, me_remove = \<lambda>_. None,
     me_setup = \<lambda>_. sample_setup, me_now = int, me_sleep = \<lambda>_. None, me_end = None\<rparr>"

definition sample_cfg :: "string \<Rightarrow> unit machineConfig" where
  "sample_cfg rescue = \<lparr>cfgMode = ''provision'', SuccessAction = [], FailureAction = [], ProvisionerFilesTarget = [],
     DisableKexec = False,
     RescueSection = \<lparr>rsMode = rescue, rsSSHPubKey = [], rsPasswordHash = [], rsTimeout = 0, rsAutoMountDisks = False\<rparr>,
     Agent = \<lparr>HeartbeatURL = ''h'', CommandsURL = ''c'', DeprovisionSuccessAction = ''standby''\<rparr>,
     Transport = (), Network = (), Sections = (), StandbyCommand = False, ProvisionerFiles = [], MachineFiles = [], MachineCommands = []\<rparr>"


subsection \<open>Retries with resume\<close>

text \<open>What the checkpoint file has at the start of the loop is not run in it.\<close>

lemma prov_loop_skips:
  assumes "prov_loop M rc n st o1 fs = (e, o', fs', runs)" "me_resume M" "\<forall>n. me_read M n = None"
    "s \<in> saved_steps fs defaultCheckpointPath" "s \<notin> set resumeStateSteps" "x \<in> set runs"
  shows "no_run s (fst x)"
  using assms(1,4,6)
proof (induction runs arbitrary: n st o1 fs)
  case (Cons y runs)
  from Cons.prems(1) show ?case
  proof (cases rule: prov_loop_cases)
    case (ok w)
    with Cons.prems(2,3) Provision_skips [of "me_run M n"] assms(2,3,5) show ?thesis by fastforce
  next
    case (stop err w sev)
    with Cons.prems(2,3) Provision_skips [of "me_run M n"] assms(2,3,5) show ?thesis by fastforce
  next
    case (again err w sev t runs')
    then have P: "Provision (me_run M n) True None (me_remove M n) o1 fs = (Some err, w)" and r: "runs' = runs" "y = (w_log w, sev)"
      using assms(2,3) by simp_all
    from Provision_skips [OF P Cons.prems(2) assms(5)] have "no_run s (fst y)" by (simp add: r)
    moreover have "s \<in> saved_steps (w_files w) defaultCheckpointPath"
      using Provision_saved(2) [OF P] Cons.prems(2) by auto
    ultimately show ?thesis using Cons.IH [OF again(6) [unfolded r]] Cons.prems(3) by auto
  qed
qed simp

lemma prov_loop_no_repeat:
  assumes "prov_loop M rc n st o1 fs = (e, o', fs', runs)" "me_resume M" "\<forall>n. me_read M n = None"
    "i < j" "j < length runs" "s \<in> set (butlast (visited (fst (runs ! i))))" "s \<notin> set resumeStateSteps"
  shows "no_run s (fst (runs ! j))"
  using assms(1,4,5,6)
proof (induction runs arbitrary: n st o1 fs i j)
  case (Cons y runs)
  from Cons.prems(1) show ?case
  proof (cases rule: prov_loop_cases)
    case (again err w sev t runs')
    then have P: "Provision (me_run M n) True None (me_remove M n) o1 fs = (Some err, w)" and r: "runs' = runs" "y = (w_log w, sev)"
      using assms(2,3) by simp_all
    obtain k where k: "j = Suc k" using Cons.prems(2) by (cases j) auto
    show ?thesis
    proof (cases i)
      case 0
      then have "s \<in> saved_steps (w_files w) defaultCheckpointPath"
        using Provision_saved(1) [OF P] Cons.prems(4) r by auto
      from prov_loop_skips [OF again(6) assms(2,3) this assms(7)] k r Cons.prems(3) show ?thesis by simp
    next
      case (Suc i')
      with Cons.IH [OF again(6) [unfolded r], of i' k] Cons.prems(2-4) k show ?thesis by simp
    qed
  qed (use Cons.prems in auto)
qed simp

text \<open>C20: With resume enabled, a retry of the pipeline never repeats a step that an earlier run of the
  same loop had passed, unless it is one of the state steps: not even when runs in between stopped
  earlier, as the checkpoint keeps what it has. This holds when the checkpoint can be read.\<close>

theorem retries_never_repeat:
  assumes "ProvisionMode_Run M cfg o1 fs = (r, fs', runs)" "me_resume M" "\<forall>n. me_read M n = None"
    and "i < j" "j < length runs" "s \<in> set (butlast (visited (fst (runs ! i))))" "s \<notin> set resumeStateSteps"
  shows "Started s \<notin> set (fst (runs ! j)) \<and> Called s \<notin> set (fst (runs ! j))"
proof -
  obtain e o' where "prov_loop M (RescueConfig cfg) 0 zeroRetryState o1 fs = (e, o', fs', runs)"
    using assms(1) by (auto simp: ProvisionMode_Run_def split: prod.splits)
  from prov_loop_no_repeat [OF this assms(2-7)] show ?thesis by (simp add: no_run_def)
qed

lemma sample_loop:
  "\<exists>e o' fs' l sev runs. prov_loop sample_mode (RescueConfig (sample_cfg ''retry'')) 0 zeroRetryState sample_orch (\<lambda>_. None)
     = (e, o', fs', (l, sev) # runs) \<and> runs \<noteq> [] \<and> visited l = [''report-init'', ''release-stale-mounts'']"
proof -
  let ?rc = "RescueConfig (sample_cfg ''retry'')"
  let ?p = "Provision sample_env True None None sample_orch (\<lambda>_. None)"
  have rc: "rMode ?rc = ModeRetry" "rMaxRetries ?rc = 3" by (simp_all add: RescueConfig_retries sample_cfg_def)
  have r: "errors_As is_reboot_error (the (fst ?p)) = None" by (simp add: sample_simps)
  obtain err w where p: "?p = (Some err, w)" using sample_run(1) by (cases ?p) auto
  let ?t = "RecordAttempt 0 (Some (error_text (env_text sample_env) err)) (zeroRetryState\<lparr>stMaxRetries := 3\<rparr>)"
  obtain e o' fs' runs where rec: "prov_loop sample_mode ?rc (Suc 0) ?t (w_orch w) (w_files w) = (e, o', fs', runs)"
    by (metis surj_pair)
  have "prov_loop sample_mode ?rc 0 zeroRetryState sample_orch (\<lambda>_. None)
      = (e, o', fs', (w_log w, snd (Setup ?rc sample_setup)) # runs)"
    using p r rec rc by (simp add: prov_loop.simps [of _ _ 0] sample_mode_def Decide_def CanRetry_def zeroRetryState_def Let_def)
  with prov_loop_length(1) [OF rec] sample_run(2) p show ?thesis by auto
qed

theorem retries_never_repeat_witness:
  "\<exists>r fs' runs. ProvisionMode_Run sample_mode (sample_cfg ''retry'') sample_orch (\<lambda>_. None) = (r, fs', runs)
     \<and> 1 < length runs \<and> ''report-init'' \<in> set (visited (fst (runs ! 0))) \<and> Started ''report-init'' \<notin> set (fst (runs ! 1))"
proof -
  obtain e o' fs' l sev runs where l: "prov_loop sample_mode (RescueConfig (sample_cfg ''retry'')) 0 zeroRetryState sample_orch (\<lambda>_. None)
     = (e, o', fs', (l, sev) # runs)" "runs \<noteq> []" "visited l = [''report-init'', ''release-stale-mounts'']"
    using sample_loop by blast
  then obtain r where r: "ProvisionMode_Run sample_mode (sample_cfg ''retry'') sample_orch (\<lambda>_. None) = (r, fs', (l, sev) # runs)"
    by (auto simp: ProvisionMode_Run_def)
  have "Started ''report-init'' \<notin> set (fst (((l, sev) # runs) ! 1))"
    using retries_never_repeat [OF r, of 0 1 "''report-init''"] l(2,3) report_init_no_state by (simp add: sample_mode_def)
  with r l(2,3) show ?thesis by auto
qed

subsection \<open>Acknowledgements\<close>

fun acks :: "sb_event list \<Rightarrow> (string \<times> string \<times> string) list" where
  "acks [] = []"
| "acks (Ack i s m # l) = (i, s, m) # acks l"
| "acks (_ # l) = acks l"

lemma acks_append [simp]: "acks (l @ m) = acks l @ acks m"
  by (induction l rule: acks.induct) auto

lemma acks_deferred [simp]: "acks (deferred r [DiscardFiles]) = []" "acks (deferred r [CommandRunning b]) = []"
  by (auto simp: deferred_def split: option.splits run_result.splits)

text \<open>A command is answered: one acknowledgement of its own identifier.\<close>

definition answered :: "command \<Rightarrow> 's run_result option \<Rightarrow> sb_event list \<Rightarrow> bool" where
  "answered cmd r ev \<longleftrightarrow>
     (\<exists>status msg. acks ev = [(cmdID cmd, status, msg)] \<and> status \<in> {''completed'', ''failed''}
        \<and> (cmdType cmd = ''provision'' \<longrightarrow> status = ''completed'' \<longleftrightarrow> (\<exists>f p c. r = Some (ProvisionComplete f p c))))
     \<and> r \<noteq> Some RescueShell"

definition unanswered :: "command \<Rightarrow> 's run_result option \<Rightarrow> sb_event list \<Rightarrow> bool" where
  "unanswered cmd r ev \<longleftrightarrow> acks ev = [] \<and> cmdType cmd = ''provision''
     \<and> (r = Some RescueShell \<or> (\<exists>s. r = Some (RunError (canceled_err ''retry'' s))))"

lemma handleProvision_acks:
  assumes "handleProvision E cmd cfg keys = (ev, r)" "cmdType cmd = ''provision''"
  shows "answered cmd r ev \<or> unanswered cmd r ev"
proof -
  obtain e o1 fs runs where "prov_loop (ce_mode E) (RescueConfig cfg) 0 zeroRetryState (ce_orch E cfg) (ce_disk E) = (e, o1, fs, runs)"
    by (metis surj_pair)
  with assms show ?thesis
    by (cases e) (auto simp: handleProvision_def answered_def unanswered_def Let_def split: option.splits)
qed

lemma handleDeprovision_acks:
  assumes "handleDeprovision E cmd cfg keys = (ev, r)" "cmdType cmd = ''deprovision''"
  shows "answered cmd r ev"
  using assms by (auto simp: handleDeprovision_def answered_def Let_def split: prod.splits option.splits if_splits)

lemma applyCommandFiles_acks: "applyCommandFiles E a cfg = (err, ev) \<Longrightarrow> acks ev = []"
  by (auto simp: applyCommandFiles_def split: sum.splits if_splits)

lemma answered_frame:
  "acks ev' = acks ev \<Longrightarrow> answered cmd r ev' = answered cmd r ev"
  "acks ev' = acks ev \<Longrightarrow> unanswered cmd r ev' = unanswered cmd r ev"
  by (simp_all add: answered_def unanswered_def)

text \<open>A command that is rejected: one acknowledgement, nothing else but dropping its files.\<close>

lemma handleRunCommand_rejected:
  assumes "commandConfig E live (cmdPayload cmd) = Inl err"
  shows "\<exists>msg. handleRunCommand E live cmd =
    (Ack (cmdID cmd) ''failed'' msg # (if ce_files E \<noteq> None then [DiscardFiles] else []), None)"
  using assms by (simp add: handleRunCommand_def deferred_def)

lemma handleRunCommand_accepted:
  assumes "commandConfig E live (cmdPayload cmd) = Inr (c, keys)" "handleRunCommand E live cmd = (ev, r)"
    "c' = c\<lparr>cfgMode := cmdType cmd, StandbyCommand := True\<rparr>"
  obtains (files) fev msg where "acks fev = []" "r = None" "ev = fev @ Ack (cmdID cmd) ''failed'' msg # (if ce_files E \<noteq> None then [DiscardFiles] else [])"
  | (run) fev rev where "acks fev = []"
      "(if cmdType cmd = ''provision'' then handleProvision E cmd c' keys else handleDeprovision E cmd c' keys) = (rev, r)"
      "ev = fev @ rev @ (if ce_files E \<noteq> None then deferred r [DiscardFiles] else [])"
proof -
  obtain err fev where f: "(case ce_files E of Some applied \<Rightarrow> applyCommandFiles E applied c' | None \<Rightarrow> (None, [])) = (err, fev)"
    by fastforce
  then have a: "acks fev = []" by (auto split: option.splits dest: applyCommandFiles_acks)
  obtain rev r' where h: "(if cmdType cmd = ''provision'' then handleProvision E cmd c' keys else handleDeprovision E cmd c' keys) = (rev, r')"
    by fastforce
  have H: "handleRunCommand E live cmd =
      (case err of
         Some e \<Rightarrow> (fev @ Ack (cmdID cmd) ''failed'' (cmdType cmd @ '' command failed: '' @ error_text (ce_text E) e)
                      # (if ce_files E \<noteq> None then [DiscardFiles] else []), None)
       | None \<Rightarrow> (fev @ rev @ (if ce_files E \<noteq> None then deferred r' [DiscardFiles] else []), r'))"
    unfolding handleRunCommand_def assms(1) sum.case prod.case Let_def assms(3) [symmetric] f h
    by (cases err) (simp_all add: deferred_def)
  show thesis
  proof (cases err)
    case None
    with H assms(2) a h show thesis by (intro run) auto
  next
    case (Some e)
    with H assms(2) a show thesis by (intro files) auto
  qed
qed

lemma handleCommand_acks:
  assumes "handleCommand E live cmd = (ev, r)"
  shows "answered cmd r ev \<or> unanswered cmd r ev"
proof (cases "cmdType cmd = ''provision'' \<or> cmdType cmd = ''deprovision''")
  case True
  with assms have h: "handleRunCommand E live cmd = (ev, r)" by (simp add: handleCommand_def)
  show ?thesis
  proof (cases "commandConfig E live (cmdPayload cmd)")
    case (Inl err)
    from handleRunCommand_rejected [of E live cmd, OF this] h show ?thesis by (auto simp: answered_def)
  next
    case (Inr p)
    obtain c keys where "p = (c, keys)" by fastforce
    with Inr have cc: "commandConfig E live (cmdPayload cmd) = Inr (c, keys)" by simp
    from cc h refl show ?thesis
    proof (cases rule: handleRunCommand_accepted)
      case (files fev msg)
      then show ?thesis by (auto simp: answered_def)
    next
      case (run fev rev)
      then have "acks ev = acks rev" by auto
      moreover have "answered cmd r rev \<or> unanswered cmd r rev"
        using run(2) True by (cases "cmdType cmd = ''provision''") (auto dest: handleProvision_acks handleDeprovision_acks)
      ultimately show ?thesis using answered_frame by blast
    qed
  qed
next
  case False
  with assms show ?thesis by (auto simp: handleCommand_def answered_def split: if_splits)
qed

lemma handleCommand_goes_on:
  assumes "handleCommand E live cmd = (ev, None)"
  shows "map fst (acks ev) = [cmdID cmd]"
  using handleCommand_acks [OF assms] by (auto simp: answered_def unanswered_def)

lemma handleCommand_ids:
  assumes "handleCommand E live cmd = (ev, r)"
  shows "map fst (acks ev) = [cmdID cmd] \<or> map fst (acks ev) = []"
  using handleCommand_acks [OF assms] by (auto simp: answered_def unanswered_def)

lemma run_commands_ids:
  assumes "run_commands live cmds = (ev, r)"
  shows "\<exists>k\<le>length cmds. map fst (acks ev) = map (cmdID \<circ> fst) (take k cmds)
    \<and> (r = None \<longrightarrow> k = length cmds)"
  using assms
proof (induction cmds arbitrary: ev r)
  case (Cons x cmds)
  obtain cmd E where x: "x = (cmd, E)" by fastforce
  obtain ev1 r1 where h: "handleCommand E live cmd = (ev1, r1)" by fastforce
  show ?case
  proof (cases r1)
    case (Some y)
    with Cons.prems x h have e: "ev = ev1" "r = Some y" by simp_all
    from handleCommand_ids [OF h] show ?thesis
    proof
      assume "map fst (acks ev1) = [cmdID cmd]"
      then show ?thesis using x e by (intro exI [of _ 1]) simp
    next
      assume "map fst (acks ev1) = []"
      then show ?thesis using e by (intro exI [of _ 0]) simp
    qed
  next
    case None
    obtain ev2 r2 where c: "run_commands live cmds = (ev2, r2)" by fastforce
    with Cons.prems x h None have e: "ev = ev1 @ ev2" "r = r2" by simp_all
    from Cons.IH [OF c] obtain k where "k \<le> length cmds"
      "map fst (acks ev2) = map (cmdID \<circ> fst) (take k cmds)" "r2 = None \<longrightarrow> k = length cmds" by blast
    then show ?thesis using handleCommand_goes_on [OF h [unfolded None]] x e by (intro exI [of _ "Suc k"]) simp
  qed
qed simp

text \<open>C29: Standby acknowledges a command exactly once and with its own identifier, as completed or as
  failed; a provision command is acknowledged as completed exactly when provisioning succeeded.
  The only command without an acknowledgement is a failed provision command whose rescue action is
  the shell, or whose context ends during the delay before a retry.\<close>

theorem command_acked:
  assumes "handleCommand E live cmd = (ev, r)"
  shows "(\<exists>status msg. acks ev = [(cmdID cmd, status, msg)] \<and> status \<in> {''completed'', ''failed''}
        \<and> (cmdType cmd = ''provision'' \<longrightarrow> status = ''completed'' \<longleftrightarrow> (\<exists>f p c. r = Some (ProvisionComplete f p c)))
        \<and> r \<noteq> Some RescueShell)
    \<or> (acks ev = [] \<and> cmdType cmd = ''provision''
        \<and> (r = Some RescueShell \<or> (\<exists>s. r = Some (RunError (canceled_err ''retry'' s)))))"
  using handleCommand_acks [OF assms] unfolding answered_def unanswered_def by blast

definition sample_cmd_env :: "(unit, unit) cmd_env" where
  "sample_cmd_env = \<lparr>ce_copy_err = None, ce_merge = None, ce_files = Some (Inr True), ce_ramdisk = None,
     ce_orch = \<lambda>_. sample_orch, ce_mode = sample_mode, ce_disk = \<lambda>_. None,
     ce_deprovision = \<lambda>_. (None, [''/dev/sda''], []), ce_text = \<lambda>_. []\<rparr>"

definition sample_cmd :: "string \<Rightarrow> string \<Rightarrow> command" where
  "sample_cmd t p = \<lparr>cmdID = ''7'', cmdType = t, cmdPayload = p\<rparr>"

lemmas sample_cmd_simps = sample_cmd_env_def sample_cmd_def sample_cfg_def handleCommand_def handleRunCommand_def
  commandConfig_def cloneConfig_def applyCommandFiles_def ProvisionerFilesInRamdisk_def handleDeprovision_def
  deferred_def Let_def

theorem command_acked_witness:
  "\<exists>status msg. acks (fst (handleCommand sample_cmd_env (sample_cfg []) (sample_cmd ''deprovision'' []))) = [(''7'', status, msg)]
     \<and> status \<in> {''completed'', ''failed''}"
proof -
  have t: "cmdType (sample_cmd ''deprovision'' []) \<noteq> ''provision''" "cmdID (sample_cmd ''deprovision'' []) = ''7''"
    by (simp_all add: sample_cmd_def)
  from command_acked [OF prod.collapse [symmetric, of "handleCommand sample_cmd_env (sample_cfg []) (sample_cmd ''deprovision'' [])"]] t
  show ?thesis by auto
qed



subsection \<open>The configuration of a command\<close>



subsection \<open>The rate of the polls\<close>

lemma nextPollDelay_bounds:
  assumes "0 \<le> since"
  shows "0 \<le> nextPollDelay since any" "nextPollDelay since any \<le> pollInterval"
    "any \<Longrightarrow> nextPollDelay since any \<le> repollAfterCommands"
    "(if any then repollAfterCommands else pollInterval) \<le> since + nextPollDelay since any"
  using assms by (auto simp: nextPollDelay_def pollInterval_def repollAfterCommands_def min_def max_def)

lemma standby_loop_step:
  assumes "standby_loop live s d ((took, fetched) # polls) = (ev, r, ds)"
  obtains (ends) "ds = [d]"
  | (again) any ev' ds' where "standby_loop live s (nextPollDelay took any) polls = (ev', r, ds')" "ds = d # ds'"
      "fetched = Inr [] \<or> isl fetched \<longrightarrow> \<not> any"
proof -
  obtain pev ans where p: "pollCommands live fetched = (pev, ans)" by fastforce
  have idle: "case ans of Inr (r, any) \<Rightarrow> fetched = Inr [] \<longrightarrow> \<not> any | Inl _ \<Rightarrow> True"
    "isl fetched \<Longrightarrow> isl ans"
    using p by (auto simp: pollCommands_def split: sum.splits prod.splits)
  show thesis
  proof (cases ans)
    case (Inl e)
    obtain ev' r' ds' where l: "standby_loop live s (nextPollDelay took False) polls = (ev', r', ds')" by (metis surj_pair)
    with assms p Inl show thesis by (intro again [of False ev' ds']) auto
  next
    case (Inr x)
    obtain y any where x: "x = (y, any)" by fastforce
    show thesis
    proof (cases y)
      case None
      obtain ev' r' ds' where l: "standby_loop live s (nextPollDelay took any) polls = (ev', r', ds')" by (metis surj_pair)
      with assms p Inr x None idle show thesis by (intro again [of any ev' ds']) auto
    next
      case (Some z)
      with assms p Inr x show thesis by (intro ends) auto
    qed
  qed
qed

lemma standby_loop_hd: "standby_loop live s d polls = (ev, r, ds) \<Longrightarrow> ds \<noteq> [] \<Longrightarrow> ds ! 0 = d"
proof (cases polls)
  case (Cons p polls')
  assume "standby_loop live s d polls = (ev, r, ds)"
  with Cons have "standby_loop live s d ((fst p, snd p) # polls') = (ev, r, ds)" by simp
  then show ?thesis by (cases rule: standby_loop_step) auto
qed simp

lemma standby_loop_delays:
  assumes "standby_loop live s d polls = (ev, r, ds)" "\<forall>p\<in>set polls. 0 \<le> fst p" "Suc i < length ds"
  shows "0 \<le> ds ! Suc i \<and> ds ! Suc i \<le> pollInterval \<and> repollAfterCommands \<le> fst (polls ! i) + ds ! Suc i
    \<and> (snd (polls ! i) = Inr [] \<or> isl (snd (polls ! i)) \<longrightarrow> pollInterval \<le> fst (polls ! i) + ds ! Suc i)"
  using assms
proof (induction polls arbitrary: d ev ds i)
  case (Cons p polls)
  obtain took fetched where p: "p = (took, fetched)" by fastforce
  from Cons.prems(1) p have "standby_loop live s d ((took, fetched) # polls) = (ev, r, ds)" by simp
  then show ?case
  proof (cases rule: standby_loop_step)
    case ends
    with Cons.prems(3) show ?thesis by simp
  next
    case (again any ev' ds')
    show ?thesis
    proof (cases i)
      case 0
      with Cons.prems(3) again(2) have "ds ! Suc i = nextPollDelay took any"
        using standby_loop_hd [OF again(1)] by auto
      moreover have "0 \<le> took" using Cons.prems(2) p by simp
      from nextPollDelay_bounds [OF this, of any] have "0 \<le> nextPollDelay took any"
        "nextPollDelay took any \<le> pollInterval" "repollAfterCommands \<le> took + nextPollDelay took any"
        "\<not> any \<Longrightarrow> pollInterval \<le> took + nextPollDelay took any"
        by (auto simp: pollInterval_def repollAfterCommands_def split: if_splits)
      ultimately show ?thesis using 0 p again(3) by simp
    next
      case (Suc j)
      with Cons.IH [OF again(1), of j] Cons.prems(2,3) again(2) show ?thesis by simp
    qed
  qed
qed simp

text \<open>The polls of standby keep their rate. The delay before the next poll is at most ten seconds,
  and two polls start at least one second apart, even when the server has commands on every poll;
  they start at least ten seconds apart when the first had no commands or failed.\<close>

theorem poll_rate:
  assumes "standby_loop live s d polls = (ev, r, ds)" "\<forall>p\<in>set polls. 0 \<le> fst p" "Suc i < length ds"
  shows "0 \<le> ds ! Suc i \<and> ds ! Suc i \<le> 10 * second \<and> second \<le> fst (polls ! i) + ds ! Suc i
    \<and> (snd (polls ! i) = Inr [] \<or> isl (snd (polls ! i)) \<longrightarrow> 10 * second \<le> fst (polls ! i) + ds ! Suc i)"
  using standby_loop_delays [OF assms] by (simp add: pollInterval_def repollAfterCommands_def)

theorem poll_rate_witness:
  "\<exists>ev r ds. standby_loop (sample_cfg []) DeadlineExceeded 0
      [(3, Inr []), (5, Inr [(sample_cmd ''health-check'' [], sample_cmd_env)])] = (ev, r, ds)
    \<and> 10 * second \<le> 3 + ds ! Suc 0"
proof -
  let ?polls = "[(3, Inr []), (5, Inr [(sample_cmd ''health-check'' [], sample_cmd_env)])]"
  obtain ev r ds where l: "standby_loop (sample_cfg []) DeadlineExceeded 0 ?polls = (ev, r, ds)" by (metis surj_pair)
  then have "length ds = 2" by (auto simp: pollCommands_def sample_cmd_simps)
  with poll_rate [OF l, of 0] l show ?thesis by auto
qed

end
