(* ===== verification/DHCP_Frame.thy ===== *)
theory DHCP_Frame
  imports Prelude
begin

text \<open>
  The frames of the DHCPv4 client (network/dhcp4/frame.go): an Ethernet broadcast frame with an
  IPv4 UDP datagram and both checksums, and the check of a received frame. The round trip rests on
  the arithmetic of the Internet checksum (RFC 1071).
\<close>

subsection \<open>The checksum\<close>

fun sum16 :: "u32 \<Rightarrow> bytes \<Rightarrow> u32" where
  "sum16 acc (x # y # b) = sum16 (acc + ucast (push_bit 8 (ucast x) OR ucast y :: u16)) b"
| "sum16 acc [x] = acc + push_bit 8 (ucast x)"
| "sum16 acc [] = acc"

lemma unat_drop16: "unat (drop_bit 16 acc :: u32) = unat acc div 65536"
proof -
  have "unat (drop_bit 16 acc) = drop_bit 16 (unat acc)" by (rule unat_drop_bit_eq)
  also have "\<dots> = unat acc div 2 ^ 16" by (rule drop_bit_eq_div)
  finally show ?thesis by simp
qed

lemma drop16_zero: "drop_bit 16 (acc :: u32) = 0 \<longleftrightarrow> unat acc < 65536"
proof -
  have "drop_bit 16 acc = 0 \<longleftrightarrow> unat (drop_bit 16 acc) = 0" by (rule unat_eq_0 [symmetric])
  also have "\<dots> \<longleftrightarrow> unat acc < 65536" unfolding unat_drop16 by (simp add: div_eq_0_iff)
  finally show ?thesis .
qed

lemma unat_low16: "unat (acc AND 0xffff :: u32) = unat acc mod 65536"
proof -
  have "acc AND 0xffff = take_bit 16 acc" by (simp add: take_bit_eq_mask mask_eq_exp_minus_1)
  then have "unat (acc AND 0xffff) = take_bit 16 (unat acc)" by (simp add: unsigned_take_bit_eq)
  also have "\<dots> = unat acc mod 2 ^ 16" by (rule take_bit_eq_mod)
  finally show ?thesis by simp
qed

lemma unat_fold_step: "unat ((acc AND 0xffff) + drop_bit 16 acc :: u32) = unat acc mod 65536 + unat acc div 65536"
proof -
  have "unat acc < 2 ^ 32" using unsigned_less [of acc] by simp
  then have "unat acc mod 65536 + unat acc div 65536 < 2 ^ 32" by simp
  then show ?thesis by (simp add: unat_word_ariths(1) unat_low16 unat_drop16)
qed

function fold16 :: "u32 \<Rightarrow> u32" where
  "fold16 acc = (if drop_bit 16 acc \<noteq> 0 then fold16 ((acc AND 0xffff) + drop_bit 16 acc) else acc)"
  by pat_completeness auto

lemma fold_step_less: "65536 \<le> n \<Longrightarrow> n mod 65536 + n div 65536 < (n :: nat)"
  using div_mult_mod_eq [of n 65536] div_greater_zero_iff [of n 65536] by linarith

termination fold16
proof (relation "measure unat", goal_cases)
  case (2 acc)
  then have "65536 \<le> unat acc" by (simp add: drop16_zero)
  then show ?case by (simp only: in_measure unat_fold_step fold_step_less)
qed simp

declare fold16.simps [simp del]

definition checksum :: "u32 \<Rightarrow> bytes \<Rightarrow> u16" where
  "checksum acc b = NOT (ucast (fold16 (sum16 acc b)))"

subsection \<open>Sending\<close>

text \<open>\<open>copy(b[off:], src)\<close>.\<close>

definition copy_at :: "nat \<Rightarrow> bytes \<Rightarrow> bytes \<Rightarrow> bytes" where
  "copy_at off src b = (let n = min (length src) (length b - off) in take off b @ take n src @ drop (off + n) b)"

text \<open>\<open>src\<close> and \<open>dst\<close> are the results of \<open>To4()\<close>, empty for \<open>nil\<close>. The writes go to the offsets of the
  slices \<open>ip\<close> and \<open>udp\<close> in the frame.\<close>

definition udpFrame :: "bytes \<Rightarrow> bytes \<Rightarrow> bytes \<Rightarrow> u16 \<Rightarrow> u16 \<Rightarrow> u8 \<Rightarrow> bytes \<Rightarrow> bytes" where
  "udpFrame mac src dst sport dport tos payload =
     (let b = replicate (14 + 20 + 8 + length payload) 0;
          b = copy_at 0 [0xff, 0xff, 0xff, 0xff, 0xff, 0xff] b;
          b = copy_at 6 mac b;
          b = copy_at 12 (put_u16 0x0800) b;
          b = b[14 := 0x45, 15 := tos, 22 := 64, 23 := 17];
          b = copy_at 16 (put_u16 (of_nat (length b - 14))) b;
          b = copy_at 26 src b;
          b = copy_at 30 dst b;
          b = copy_at 24 (put_u16 (checksum 0 (take 20 (drop 14 b)))) b;
          b = copy_at 34 (put_u16 sport) b;
          b = copy_at 36 (put_u16 dport) b;
          b = copy_at 38 (put_u16 (of_nat (length b - 34))) b;
          b = copy_at 42 payload b;
          pseudo = take 8 (drop 26 b) @ [0, 17, b ! 38, b ! 39]
      in copy_at 40 (put_u16 (checksum (sum16 0 pseudo) (drop 34 b))) b)"

subsection \<open>Receiving\<close>

definition ipv4UDP :: "bytes \<Rightarrow> (bytes \<times> nat) option go" where
  "ipv4UDP ip = do {
     b0 \<leftarrow> idx ip 0;
     tot16 \<leftarrow> slice_from ip 2 \<bind> get_u16;
     let ihl = unat (b0 AND 0x0f) * 4;
     let tot = unat tot16;
     proto \<leftarrow> idx ip 9;
     frag \<leftarrow> slice_from ip 6 \<bind> get_u16;
     if drop_bit 4 b0 \<noteq> 4 \<or> ihl < 20 \<or> tot < ihl + 8 \<or> tot > length ip \<or> proto \<noteq> 17 \<or> frag AND 0x3fff \<noteq> 0
     then Some None
     else do {
       header \<leftarrow> slice_to ip ihl;
       if checksum 0 header \<noteq> 0 then Some None
       else do {
         packet \<leftarrow> slice_to ip tot;
         Some (Some (packet, ihl))
       }
     }
   }"

definition udpChecksumOK :: "bytes \<Rightarrow> bytes \<Rightarrow> bool go" where
  "udpChecksumOK ip udp = do {
     c \<leftarrow> slice_from udp 6 \<bind> get_u16;
     if c = 0 then Some True
     else do {
       addrs \<leftarrow> slice ip 12 20;
       let pseudo = addrs @ [0, 17, of_nat (length udp div 256), of_nat (length udp)];
       Some (checksum (sum16 0 pseudo) udp = 0)
     }
   }"

definition udpPayload :: "bytes \<Rightarrow> bool \<Rightarrow> bytes option go" where
  "udpPayload frame verifyUDP =
     (if length frame < 14 + 20 then Some None
      else do {
        ethertype \<leftarrow> slice_from frame 12 \<bind> get_u16;
        if ethertype \<noteq> 0x0800 then Some None
        else do {
          r \<leftarrow> slice_from frame 14 \<bind> ipv4UDP;
          case r of
            None \<Rightarrow> Some None
          | Some (ip, ihl) \<Rightarrow> do {
              udp \<leftarrow> slice_from ip ihl;
              ulen16 \<leftarrow> slice_from udp 4 \<bind> get_u16;
              dport \<leftarrow> slice_from udp 2 \<bind> get_u16;
              let ulen = unat ulen16;
              if dport \<noteq> 68 \<or> ulen < 8 \<or> ulen > length udp then Some None
              else do {
                udp \<leftarrow> slice_to udp ulen;
                ok \<leftarrow> (if verifyUDP then udpChecksumOK ip udp else Some True);
                if \<not> ok then Some None
                else do {
                  payload \<leftarrow> slice_from udp 8;
                  Some (Some payload)
                }
              }
            }
        }
      })"

subsection \<open>The arithmetic of the checksum\<close>

text \<open>The sum of the 16-bit words without wrap-around.\<close>

fun wsum :: "bytes \<Rightarrow> nat" where
  "wsum (x # y # b) = unat x * 256 + unat y + wsum b"
| "wsum [x] = unat x * 256"
| "wsum [] = 0"

lemma byte_bound: "unat (x :: u8) < 256"
  using unsigned_less [of x] by simp

lemma be16_unat: "unat (push_bit 8 (ucast (x :: u8)) OR ucast (y :: u8) :: u16) = unat x * 256 + unat y"
proof -
  have "unat x * 256 + unat y < 65536" using byte_bound [of x] byte_bound [of y] by linarith
  moreover have "push_bit 8 (ucast x) OR ucast y = (push_bit 8 (ucast x) + ucast y :: u16)"
    by (intro disjunctive_add [symmetric]) (auto simp: bit_simps)
  then have "push_bit 8 (ucast x) OR ucast y = (of_nat (unat x * 256 + unat y) :: u16)"
    by (simp add: push_bit_eq_mult)
  ultimately show ?thesis by (simp only: unat_of_nat) simp
qed

lemma sum16_eq: "sum16 acc b = acc + of_nat (wsum b)"
proof (induction acc b rule: sum16.induct)
  case (1 acc x y b)
  have "ucast (push_bit 8 (ucast x) OR ucast y :: u16) = (of_nat (unat x * 256 + unat y) :: u32)"
    unfolding be16_unat [symmetric] by simp
  with 1 show ?case by simp
next
  case (2 acc x)
  then show ?case by (simp add: push_bit_eq_mult)
qed simp

lemma fold16_nat:
  "unat (fold16 acc) < 65536 \<and> unat (fold16 acc) mod 65535 = unat acc mod 65535
   \<and> (unat (fold16 acc) = 0 \<longleftrightarrow> unat acc = 0)"
proof (induction acc rule: fold16.induct)
  case (1 acc)
  show ?case
  proof (cases "drop_bit 16 acc = 0")
    case True
    then show ?thesis by (simp add: fold16.simps [of acc] drop16_zero)
  next
    case False
    then have "65536 \<le> unat acc" by (simp add: drop16_zero)
    moreover from this have "0 < unat acc div 65536" by (simp add: div_greater_zero_iff)
    moreover have "(unat acc mod 65536 + unat acc div 65536) mod 65535 = unat acc mod 65535"
    proof -
      have "unat acc = unat acc div 65536 * 65535 + (unat acc mod 65536 + unat acc div 65536)"
        using div_mult_mod_eq [of "unat acc" 65536] by linarith
      then show ?thesis by (metis mod_mult_self3)
    qed
    ultimately show ?thesis using 1 [OF False] False
      by (subst (1 2 3) fold16.simps) (auto simp: unat_fold_step)
  qed
qed

lemma unat_checksum: "unat (checksum acc b) = 65535 - unat (fold16 (sum16 acc b))"
proof -
  have f: "unat (fold16 (sum16 acc b)) < 65536" using fold16_nat by blast
  have "unat (NOT (w :: u16)) = 65535 - unat w" for w
  proof -
    have "unat (- 1 - w) = unat (- 1 :: u16) - unat w" by (rule unat_sub) simp
    moreover have "unat (- 1 :: u16) = 65535" by (simp add: unsigned_minus_1_eq_mask mask_eq_exp_minus_1)
    moreover have "NOT w = - 1 - w" by (simp add: not_eq_complement)
    ultimately show ?thesis by simp
  qed
  moreover have "unat (ucast (fold16 (sum16 acc b)) :: u16) = unat (fold16 (sum16 acc b))"
  proof -
    have "unat (ucast (fold16 (sum16 acc b)) :: u16) = take_bit 16 (unat (fold16 (sum16 acc b)))"
      by (simp add: unsigned_ucast_eq)
    also have "\<dots> = unat (fold16 (sum16 acc b)) mod 2 ^ 16" by (rule take_bit_eq_mod)
    finally show ?thesis using f by simp
  qed
  ultimately show ?thesis by (simp add: checksum_def)
qed

lemma checksum_zero:
  assumes "sum16 acc b = of_nat n" "0 < n" "n < 2 ^ 32" "65535 dvd n"
  shows "checksum acc b = 0"
proof -
  have n: "unat (sum16 acc b) = n" using assms by (simp add: unat_of_nat)
  have "unat (fold16 (sum16 acc b)) mod 65535 = 0" "unat (fold16 (sum16 acc b)) \<noteq> 0" "unat (fold16 (sum16 acc b)) < 65536"
    using fold16_nat [of "sum16 acc b"] n assms(2,4) by (auto simp: dvd_eq_mod_eq_0)
  then have "unat (fold16 (sum16 acc b)) = 65535" by (auto simp: mod_eq_0_iff_dvd elim!: dvdE)
  then have "unat (checksum acc b) = 0" by (simp add: unat_checksum)
  then show ?thesis by (simp add: unat_eq_0)
qed

text \<open>A sum of which the checksum is taken and the checksum itself add up to a positive multiple of
  65535.\<close>

lemma checksum_adds:
  assumes "sum16 acc b = of_nat n" "n < 2 ^ 32"
  shows "0 < n + unat (checksum acc b)" "65535 dvd n + unat (checksum acc b)"
proof -
  let ?f = "unat (fold16 (sum16 acc b))"
  have "unat (sum16 acc b) = n" using assms by (simp add: unat_of_nat)
  then have f: "?f < 65536" "?f mod 65535 = n mod 65535" "?f = 0 \<longleftrightarrow> n = 0"
    using fold16_nat [of "sum16 acc b"] by auto
  then show "0 < n + unat (checksum acc b)" unfolding unat_checksum by auto
  have "(n + (65535 - ?f)) mod 65535 = (?f + (65535 - ?f)) mod 65535"
    using f(2) by (metis mod_add_left_eq)
  also have "\<dots> = 0" using f(1) by simp
  finally show "65535 dvd n + unat (checksum acc b)" unfolding unat_checksum by (simp add: mod_eq_0_iff_dvd)
qed

lemma wsum_append: "even (length a) \<Longrightarrow> wsum (a @ b) = wsum a + wsum b"
  by (induction a rule: wsum.induct) auto

lemma wsum_put [simp]: "wsum (put_u16 w) = unat w"
proof -
  have "unat (push_bit 8 (ucast (ucast (drop_bit 8 w) :: u8)) OR ucast (ucast w :: u8) :: u16) = wsum (put_u16 w)"
    unfolding be16_unat put_u16_def by simp
  then show ?thesis by (simp add: u16_bytes)
qed

lemma wsum_bound: "wsum b \<le> 65535 * ((length b + 1) div 2)"
proof (induction b rule: wsum.induct)
  case (1 x y b)
  have "unat x * 256 + unat y \<le> 65535" using byte_bound [of x] byte_bound [of y] by linarith
  with 1 show ?case by simp
next
  case (2 x)
  have "unat x * 256 \<le> 65535" using byte_bound [of x] by linarith
  then show ?case by simp
qed simp

subsection \<open>The form of a frame\<close>

lemma copy_at_simps [simp]:
  "copy_at 0 [] b = b"
  "copy_at 0 (s # src) (x # b) = s # copy_at 0 src b"
  "copy_at (Suc k) src (x # b) = x # copy_at k src b"
  "copy_at (numeral m) src (x # b) = x # copy_at (pred_numeral m) src b"
  "length p = length q \<Longrightarrow> copy_at 0 p q = p"
  by (simp_all add: copy_at_def numeral_eq_Suc Let_def)

definition ip_header :: "u8 \<Rightarrow> bytes \<Rightarrow> bytes \<Rightarrow> nat \<Rightarrow> u16 \<Rightarrow> bytes" where
  "ip_header tos src dst n c =
     [0x45, tos] @ put_u16 (of_nat (28 + n)) @ [0, 0, 0, 0, 64, 17] @ put_u16 c @ src @ dst"

definition udp_header :: "u16 \<Rightarrow> u16 \<Rightarrow> nat \<Rightarrow> u16 \<Rightarrow> bytes" where
  "udp_header sport dport n c = put_u16 sport @ put_u16 dport @ put_u16 (of_nat (8 + n)) @ put_u16 c"

definition pseudo_header :: "bytes \<Rightarrow> bytes \<Rightarrow> nat \<Rightarrow> bytes" where
  "pseudo_header src dst n = src @ dst @ [0, 17] @ put_u16 (of_nat (8 + n))"

lemma zeros42: "replicate (42 + n) (0 :: u8) =
  [0,0,0,0,0,0,0,0,0,0,0,0,0,0,0,0,0,0,0,0,0,0,0,0,0,0,0,0,0,0,0,0,0,0,0,0,0,0,0,0,0,0] @ replicate n 0"
  by (simp add: replicate_add numeral_eq_Suc)

lemma ones6: "replicate 6 (0xff :: u8) = [0xff, 0xff, 0xff, 0xff, 0xff, 0xff]"
  by (simp add: numeral_eq_Suc)

lemma length4: "length xs = 4 \<Longrightarrow> \<exists>a b c d. xs = [a, b, c, d]"
  by (auto simp: numeral_eq_Suc length_Suc_conv)

lemma length6: "length xs = 6 \<Longrightarrow> \<exists>a b c d e f. xs = [a, b, c, d, e, f]"
  by (auto simp: numeral_eq_Suc length_Suc_conv)

lemma udpFrame_form:
  assumes "length mac = 6" "length src = 4" "length dst = 4"
  shows "udpFrame mac src dst sport dport tos payload =
    replicate 6 0xff @ mac @ put_u16 0x0800
    @ ip_header tos src dst (length payload) (checksum 0 (ip_header tos src dst (length payload) 0))
    @ udp_header sport dport (length payload)
        (checksum (sum16 0 (pseudo_header src dst (length payload))) (udp_header sport dport (length payload) 0 @ payload))
    @ payload"
proof -
  obtain m0 m1 m2 m3 m4 m5 where mac: "mac = [m0, m1, m2, m3, m4, m5]" using length6 [OF assms(1)] by blast
  obtain s0 s1 s2 s3 where src: "src = [s0, s1, s2, s3]" using length4 [OF assms(2)] by blast
  obtain d0 d1 d2 d3 where dst: "dst = [d0, d1, d2, d3]" using length4 [OF assms(3)] by blast
  have n: "14 + 20 + 8 + length payload = 42 + length payload" by simp
  show ?thesis
    unfolding udpFrame_def n zeros42 mac src dst ip_header_def udp_header_def pseudo_header_def put_u16_def
    by (simp add: Let_def ones6 cong: let_weak_cong)
qed

subsection \<open>The round trip\<close>

text \<open>The checksum over data that carries its own checksum is zero.\<close>

lemma checksum_inserted:
  assumes "even (length a)" "acc = of_nat k" "k + wsum (a @ put_u16 0 @ b) + 65535 < 2 ^ 32"
  shows "checksum acc (a @ put_u16 (checksum acc (a @ put_u16 0 @ b)) @ b) = 0"
proof -
  define n where "n = k + wsum (a @ put_u16 0 @ b)"
  define c where "c = checksum acc (a @ put_u16 0 @ b)"
  have w: "wsum (a @ put_u16 x @ b) = wsum a + unat x + wsum b" for x
    using assms(1) by (simp add: wsum_append)
  have s0: "sum16 acc (a @ put_u16 0 @ b) = of_nat n" by (simp add: sum16_eq assms(2) n_def)
  have cb: "unat c \<le> 65535" unfolding c_def unat_checksum by (rule diff_le_self)
  have lt: "n + 65535 < 2 ^ 32" using assms(3) by (simp only: n_def)
  then have n32: "n < 2 ^ 32" by (rule add_lessD1)
  have nc: "n + unat c < 2 ^ 32" using add_left_mono [OF cb, of n] lt by (rule le_less_trans)
  have "sum16 acc (a @ put_u16 c @ b) = of_nat (n + unat c)"
    unfolding sum16_eq n_def w assms(2) by simp
  from checksum_zero [OF this checksum_adds(1) [OF s0 n32, folded c_def] nc checksum_adds(2) [OF s0 n32, folded c_def]]
  show ?thesis unfolding c_def .
qed

lemma length_headers [simp]:
  "length src = 4 \<Longrightarrow> length dst = 4 \<Longrightarrow> length (ip_header tos src dst n c) = 20"
  "length (udp_header sport dport n c) = 8"
  by (simp_all add: ip_header_def udp_header_def)

lemma ip_header_checksum:
  assumes "length src = 4" "length dst = 4"
  shows "checksum 0 (ip_header tos src dst n (checksum 0 (ip_header tos src dst n 0))) = 0"
proof -
  let ?a = "[0x45, tos] @ put_u16 (of_nat (28 + n)) @ [0, 0, 0, 0, 64, 17]"
  have h: "ip_header tos src dst n c = ?a @ put_u16 c @ src @ dst" for c by (simp add: ip_header_def)
  have "wsum (?a @ put_u16 0 @ src @ dst) \<le> 65535 * ((length (?a @ put_u16 0 @ src @ dst) + 1) div 2)" by (rule wsum_bound)
  then have "0 + wsum (?a @ put_u16 0 @ src @ dst) + 65535 < 2 ^ 32" using assms by simp
  then show ?thesis unfolding h by (intro checksum_inserted [where k = 0]) simp_all
qed

lemma udp_checksum:
  fixes sport dport :: u16
  assumes "length src = 4" "length dst = 4" "length payload \<le> 65507"
  defines "acc \<equiv> sum16 0 (pseudo_header src dst (length payload))"
    and "h \<equiv> udp_header sport dport (length payload)"
  shows "checksum acc (h (checksum acc (h 0 @ payload)) @ payload) = 0"
proof -
  let ?p = "pseudo_header src dst (length payload)"
  let ?a = "put_u16 sport @ put_u16 dport @ put_u16 (of_nat (8 + length payload))"
  have h: "h c @ payload = ?a @ put_u16 c @ payload" for c by (simp add: h_def udp_header_def)
  have "wsum (?a @ put_u16 0 @ payload) \<le> 65535 * ((length (?a @ put_u16 0 @ payload) + 1) div 2)" by (rule wsum_bound)
  also have "\<dots> \<le> 65535 * 32758" using assms(3) by (intro mult_le_mono2) simp
  finally have "wsum (?a @ put_u16 0 @ payload) \<le> 65535 * 32758" .
  moreover have "wsum ?p \<le> 65535 * ((length ?p + 1) div 2)" by (rule wsum_bound)
  then have "wsum ?p \<le> 65535 * 6" using assms(1,2) by (simp add: pseudo_header_def)
  ultimately have "wsum ?p + wsum (?a @ put_u16 0 @ payload) + 65535 < 2 ^ 32" by simp
  then show ?thesis unfolding h
    by (intro checksum_inserted [where k = "wsum ?p"]) (simp_all add: acc_def sum16_eq)
qed

lemma ucast_of_nat16:
  assumes "k < 65536"
  shows "ucast (of_nat k :: u16) = (of_nat k :: u8)"
proof -
  have u: "unat (of_nat k :: u16) = k" using assms by (simp add: unat_of_nat)
  have "ucast (of_nat k :: u16) = (of_nat (unat (of_nat k :: u16)) :: u8)" by (rule of_nat_unat [symmetric])
  then show ?thesis by (simp only: u)
qed

lemma put_u16_of_nat:
  assumes "m < 65536"
  shows "put_u16 (of_nat m) = [of_nat (m div 256), of_nat m]"
proof -
  have "unat (drop_bit 8 (of_nat m :: u16)) = drop_bit 8 (unat (of_nat m :: u16))" by (rule unat_drop_bit_eq)
  also have "\<dots> = unat (of_nat m :: u16) div 2 ^ 8" by (rule drop_bit_eq_div)
  also have "\<dots> = m div 256" using assms by (simp add: unat_of_nat)
  finally have u: "unat (drop_bit 8 (of_nat m :: u16)) = m div 256" .
  have "ucast (drop_bit 8 (of_nat m :: u16)) = (of_nat (unat (drop_bit 8 (of_nat m :: u16))) :: u8)"
    by (rule of_nat_unat [symmetric])
  then show ?thesis unfolding put_u16_def u ucast_of_nat16 [OF assms] by (simp only: u)
qed

lemma get_put [simp]: "get_u16 (put_u16 w @ r) = Some w"
  by (rule be16.dec_enc)

lemma ipv4UDP_frame:
  fixes tos :: u8
  assumes "length src = 4" "length dst = 4" "length payload \<le> 65507" "length U = 8"
  defines "I \<equiv> ip_header tos src dst (length payload) (checksum 0 (ip_header tos src dst (length payload) 0))"
  shows "ipv4UDP (I @ U @ payload) = Some (Some (I @ U @ payload, 20))"
proof -
  let ?n = "length payload"
  define r where "r = put_u16 (checksum 0 (ip_header tos src dst ?n 0)) @ src @ dst"
  have r: "I = [0x45, tos] @ put_u16 (of_nat (28 + ?n)) @ [0, 0, 0, 0, 64, 17] @ r" "length r = 10"
    using assms(1,2) by (simp_all add: I_def r_def ip_header_def)
  have len: "length I = 20" using assms(1,2) by (simp add: I_def)
  have tot: "unat (of_nat (28 + ?n) :: u16) = 28 + ?n" using assms(3) by (simp add: unat_of_nat del: of_nat_add)
  have i: "idx (I @ U @ payload) 0 = Some 0x45" "idx (I @ U @ payload) 9 = Some 17"
    by (simp_all add: idx_def r nth_append put_u16_def)
  have s2: "slice_from (I @ U @ payload) 2 \<bind> get_u16 = Some (of_nat (28 + ?n))"
    by (simp add: slice_from_def r del: of_nat_add)
  have s6: "slice_from (I @ U @ payload) 6 \<bind> get_u16 = Some 0"
    by (simp add: slice_from_def r put_u16_def get_u16_def)
  have c: "checksum 0 I = 0" unfolding I_def by (rule ip_header_checksum [OF assms(1,2)])
  have b: "unat ((0x45 :: u8) AND 0x0f) * 4 = 20" "drop_bit 4 (0x45 :: u8) = 4" by simp_all
  show ?thesis
    unfolding ipv4UDP_def i s2 s6 using c len tot assms(4) b
    by (simp add: Let_def slice_to_def del: of_nat_add)
qed

lemma udpChecksumOK_frame:
  fixes sport dport :: u16
  assumes "length src = 4" "length dst = 4" "length payload \<le> 65507" "length pre = 12"
  defines "acc \<equiv> sum16 0 (pseudo_header src dst (length payload))"
  defines "U \<equiv> udp_header sport dport (length payload) (checksum acc (udp_header sport dport (length payload) 0 @ payload))"
  shows "udpChecksumOK (pre @ src @ dst @ rest) (U @ payload) = Some True"
proof -
  have len: "length (U @ payload) = 8 + length payload" by (simp add: U_def)
  have addr: "slice (pre @ src @ dst @ rest) 12 20 = Some (src @ dst)"
    using assms(1,2,4) by (simp add: slice_def)
  have pseudo: "(src @ dst) @ [0, 17, of_nat (length (U @ payload) div 256), of_nat (length (U @ payload))]
      = pseudo_header src dst (length payload)"
    unfolding len pseudo_header_def using assms(3) by (subst put_u16_of_nat) simp_all
  have c: "checksum acc (U @ payload) = 0"
    unfolding U_def acc_def by (rule udp_checksum [OF assms(1-3)])
  obtain w where w: "slice_from (U @ payload) 6 \<bind> get_u16 = Some w"
    by (simp add: U_def udp_header_def slice_from_def)
  show ?thesis unfolding udpChecksumOK_def w addr using c
    by (simp only: bind.bind_lunit Let_def pseudo acc_def [symmetric]) simp
qed

text \<open>No frame makes the check panic.\<close>

lemma get_u16_Some: "2 \<le> length b \<Longrightarrow> \<exists>w. get_u16 b = Some w"
  by (auto simp: get_u16_def neq_Nil_conv numeral_eq_Suc Suc_le_length_iff)

lemma slice_get_u16: "i + 2 \<le> length b \<Longrightarrow> \<exists>w. slice_from b i \<bind> get_u16 = Some w"
  using get_u16_Some [of "drop i b"] by (simp add: slice_from_def)

lemma ipv4UDP_result:
  assumes "20 \<le> length ip"
  shows "ipv4UDP ip = Some None \<or> (\<exists>t ihl. ipv4UDP ip = Some (Some (take t ip, ihl)) \<and> 20 \<le> ihl \<and> ihl + 8 \<le> t \<and> t \<le> length ip)"
proof -
  obtain tot where t: "slice_from ip 2 \<bind> get_u16 = Some tot"
    using slice_get_u16 [of 2 ip] assms by auto
  obtain frag where f: "slice_from ip 6 \<bind> get_u16 = Some frag"
    using slice_get_u16 [of 6 ip] assms by auto
  have i: "idx ip 0 = Some (ip ! 0)" "idx ip 9 = Some (ip ! 9)" using assms by (intro idx_Some; linarith)+
  show ?thesis unfolding ipv4UDP_def i t f by (auto simp: Let_def slice_to_def)
qed

lemma udpPayload_no_panic: "udpPayload frame v \<noteq> None"
proof (cases "length frame < 34")
  case False
  obtain e where e: "slice_from frame 12 \<bind> get_u16 = Some e"
    using slice_get_u16 [of 12 frame] False by auto
  let ?ip = "drop 14 frame"
  have s: "slice_from frame 14 \<bind> ipv4UDP = ipv4UDP ?ip" using False by (simp add: slice_from_def)
  have "20 \<le> length ?ip" using False by simp
  from ipv4UDP_result [OF this] show ?thesis
  proof
    assume "ipv4UDP ?ip = Some None"
    then show ?thesis unfolding udpPayload_def e s using False by auto
  next
    assume "\<exists>t ihl. ipv4UDP ?ip = Some (Some (take t ?ip, ihl)) \<and> 20 \<le> ihl \<and> ihl + 8 \<le> t \<and> t \<le> length ?ip"
    then obtain t ihl where p: "ipv4UDP ?ip = Some (Some (take t ?ip, ihl))" and b: "20 \<le> ihl" "ihl + 8 \<le> t" "t \<le> length ?ip"
      by blast
    define ip where "ip = take t ?ip"
    have len: "length ip = t" using b by (simp add: ip_def)
    define udp where "udp = drop ihl ip"
    have ulen: "8 \<le> length udp" using b len by (simp add: udp_def)
    have su: "slice_from ip ihl = Some udp" using b len by (simp add: slice_from_def udp_def)
    obtain l where l: "slice_from udp 4 \<bind> get_u16 = Some l"
      using slice_get_u16 [of 4 udp] ulen by auto
    obtain d where d: "slice_from udp 2 \<bind> get_u16 = Some d"
      using slice_get_u16 [of 2 udp] ulen by auto
    have ok: "udpChecksumOK ip (take n udp) \<noteq> None" if n8: "8 \<le> n" for n
    proof -
      obtain c where c: "slice_from (take n udp) 6 \<bind> get_u16 = Some c"
        using slice_get_u16 [of 6 "take n udp"] ulen n8 by auto
      have a: "slice ip 12 20 = Some (take 8 (drop 12 ip))" using b len by (simp add: slice_def)
      show ?thesis unfolding udpChecksumOK_def c a by (cases "c = 0") (simp_all add: Let_def)
    qed
    have fin: "(if v then udpChecksumOK ip (take (unat l) udp) else Some True)
        \<bind> (\<lambda>ok. if \<not> ok then Some None else slice_from (take (unat l) udp) 8 \<bind> (\<lambda>p. Some (Some p))) \<noteq> None"
      if l8: "8 \<le> unat l" "unat l \<le> length udp"
    proof -
      obtain x where x: "(if v then udpChecksumOK ip (take (unat l) udp) else Some True) = Some x"
        using ok [OF l8(1)] by (cases v) auto
      show ?thesis unfolding x using l8 by (simp add: slice_from_def)
    qed
    have "udpPayload frame v = (if e \<noteq> 0x0800 \<or> d \<noteq> 68 \<or> unat l < 8 \<or> unat l > length udp then Some None
      else (if v then udpChecksumOK ip (take (unat l) udp) else Some True)
        \<bind> (\<lambda>ok. if \<not> ok then Some None else slice_from (take (unat l) udp) 8 \<bind> (\<lambda>p. Some (Some p))))"
      unfolding udpPayload_def e s p ip_def [symmetric] using False
      by (simp add: su l d Let_def slice_to_def del: Option.bind_assoc)
    with fin show ?thesis by (simp add: not_less)
  qed
qed (simp add: udpPayload_def)

text \<open>C32: A frame that the client builds is accepted, and with the payload it was built from: a
  frame to port 68 with addresses of the right length and a payload that fits into one IPv4 packet
  passes the checks of the receiver, both checksums included.\<close>

theorem udp_frame_roundtrip:
  assumes "length mac = 6" "length src = 4" "length dst = 4" "length payload \<le> 65507"
  shows "udpPayload (udpFrame mac src dst sport 68 tos payload) verify = Some (Some payload)"
proof -
  let ?n = "length payload"
  define I where "I = ip_header tos src dst ?n (checksum 0 (ip_header tos src dst ?n 0))"
  define U where "U = udp_header sport 68 ?n (checksum (sum16 0 (pseudo_header src dst ?n)) (udp_header sport 68 ?n 0 @ payload))"
  define E where "E = replicate 6 (0xff :: u8) @ mac @ put_u16 0x0800"
  have F: "udpFrame mac src dst sport 68 tos payload = E @ I @ U @ payload"
    by (simp add: udpFrame_form [OF assms(1-3)] E_def I_def U_def)
  have len: "length E = 14" "length I = 20" "length U = 8" using assms(1-3) by (simp_all add: E_def I_def U_def)
  have e: "slice_from (E @ I @ U @ payload) 12 \<bind> get_u16 = Some 0x0800"
    using assms(1) by (simp add: slice_from_def E_def)
  have i: "slice_from (E @ I @ U @ payload) 14 \<bind> ipv4UDP = Some (Some (I @ U @ payload, 20))"
    using len ipv4UDP_frame [OF assms(2-4), of U tos] by (simp add: slice_from_def I_def [symmetric])
  have u: "slice_from (I @ U @ payload) 20 = Some (U @ payload)" using len by (simp add: slice_from_def)
  have l: "slice_from (U @ payload) 4 \<bind> get_u16 = Some (of_nat (8 + ?n))"
    and d: "slice_from (U @ payload) 2 \<bind> get_u16 = Some 68"
    by (simp_all add: slice_from_def U_def udp_header_def del: of_nat_add)
  have n: "unat (of_nat (8 + ?n) :: u16) = 8 + ?n" using assms(4) by (simp add: unat_of_nat del: of_nat_add)
  define pre where "pre = [0x45, tos] @ put_u16 (of_nat (28 + ?n)) @ [0, 0, 0, 0, 64, 17]
    @ put_u16 (checksum 0 (ip_header tos src dst ?n 0))"
  have pre: "I @ U @ payload = pre @ src @ dst @ U @ payload" "length pre = 12"
    by (simp_all add: I_def pre_def ip_header_def)
  have ok: "udpChecksumOK (I @ U @ payload) (U @ payload) = Some True"
    unfolding pre(1) unfolding U_def by (rule udpChecksumOK_frame [OF assms(2-4) pre(2)])
  have cuts: "slice_to (U @ payload) (8 + ?n) = Some (U @ payload)" "slice_from (U @ payload) 8 = Some payload"
    using len by (simp_all add: slice_to_def slice_from_def)
  show ?thesis unfolding F udpPayload_def e i
    using len n ok cuts by (simp add: u l d Let_def del: of_nat_add Option.bind_assoc)
qed

theorem udp_frame_roundtrip_witness:
  "udpPayload (udpFrame [2, 0, 0, 0, 0, 1] [0, 0, 0, 0] [255, 255, 255, 255] 67 68 0xc0 [1, 2, 3]) True = Some (Some [1, 2, 3])"
  by (rule udp_frame_roundtrip) simp_all

end
