(* ===== verification/DHCP_Options.thy ===== *)
theory DHCP_Options
  imports Prelude
begin

text \<open>
  The options of a DHCPv4 reply and the lease times (network/dhcp4/message.go). The options are
  read copy by copy, with the checks of single copies, and the result is shown equal to a
  description over all copies of a code.

  The decoder of domain names, \<open>rfc1035label.FromBytes\<close>, is an argument: the labels, or \<open>None\<close> for an
  error. Option codes are the registered numbers.
\<close>

subsection \<open>Checks of an option\<close>

text \<open>\<open>terminated\<close>, with the flag that a name has begun.\<close>

function terminated_loop :: "bool \<Rightarrow> bytes \<Rightarrow> bool" where
  "terminated_loop inName [] = (\<not> inName)"
| "terminated_loop inName (n # b) =
     (if n = 0 then terminated_loop False b
      else if n AND 0xc0 = 0xc0 \<and> b \<noteq> [] then terminated_loop False (tl b)
      else if Suc (length b) > unat n then terminated_loop True (drop (unat n) b)
      else False)"
  by pat_completeness auto
termination by (relation "measure (\<lambda>(_, b). length b)") auto

definition terminated :: "bytes \<Rightarrow> bool" where
  "terminated b = terminated_loop False b"

definition SearchDomains :: "(bytes \<Rightarrow> string list option) \<Rightarrow> bytes \<Rightarrow> string list option" where
  "SearchDomains labels data =
     (case labels data of
        None \<Rightarrow> None
      | Some l \<Rightarrow> if terminated data then Some (filter (\<lambda>s. s \<noteq> []) l) else None)"

definition length_is :: "nat \<Rightarrow> bytes \<Rightarrow> bool" where "length_is n b = (length b = n)"
definition multiple :: "nat \<Rightarrow> bytes \<Rightarrow> bool" where "multiple n b = (length b mod n = 0)"

text \<open>The table \<open>valid\<close>: the check of a code, if it has one.\<close>

definition valid :: "(bytes \<Rightarrow> string list option) \<Rightarrow> u8 \<Rightarrow> (bytes \<Rightarrow> bool) option" where
  "valid labels code =
     (if code \<in> {1, 28, 54, 51, 58, 59} then Some (length_is 4)
      else if code = 26 then Some (length_is 2)
      else if code \<in> {3, 4, 6, 42} then Some (multiple 4)
      else if code = 33 then Some (multiple 8)
      else if code = 121 then Some (\<lambda>b. length b > 0)
      else if code = 119 then Some (\<lambda>b. length b > 0 \<and> SearchDomains labels b \<noteq> None)
      else None)"

definition errorMessage :: "bytes \<Rightarrow> bool" where
  "errorMessage b =
     (if b = [] then False
      else let b = (if last b = 0 then butlast b else b) in \<not> (\<exists>c\<in>set b. c = 0 \<or> c \<ge> 0x80))"

text \<open>The end of the last whole route, from \<open>n\<close> on.\<close>

function classless_end :: "bytes \<Rightarrow> nat \<Rightarrow> nat" where
  "classless_end b n =
     (if n < length b then
        (let width = unat (b ! n); nxt = n + 1 + (width + 7) div 8 + 4
         in if width > 32 \<or> nxt > length b then n else classless_end b nxt)
      else n)"
  by pat_completeness auto
termination by (relation "measure (\<lambda>(b, n). length b - n)") (auto simp: Let_def)

declare classless_end.simps [simp del]

definition classless :: "bytes \<Rightarrow> bytes" where
  "classless b = take (classless_end b 0) b"

text \<open>\<open>prepare\<close>: \<open>None\<close> fails the message.\<close>

definition prepare :: "u8 \<Rightarrow> bytes \<Rightarrow> bytes option" where
  "prepare code data =
     (if code = 53 \<or> code = 52 then (if length data = 1 then Some data else None)
      else if code = 56 then (if errorMessage data then Some data else None)
      else if code = 121 then Some (classless data)
      else Some data)"

subsection \<open>Reading the options\<close>

text \<open>One copy of an option: the options so far and the codes that have only malformed copies.\<close>

definition add_option ::
    "(bytes \<Rightarrow> string list option) \<Rightarrow> u8 \<Rightarrow> bytes \<Rightarrow> (u8 \<rightharpoonup> bytes) \<times> (u8 \<Rightarrow> bool) \<Rightarrow> (u8 \<rightharpoonup> bytes) \<times> (u8 \<Rightarrow> bool)" where
  "add_option labels code data st =
     (let (opts, malformed) = st in
      if (case valid labels code of Some check \<Rightarrow> \<not> check data | None \<Rightarrow> False) then
        (if opts code = None then (opts(code \<mapsto> data), malformed(code := True)) else (opts, malformed))
      else
        let (opts, malformed) = (if malformed code then (opts(code := None), malformed(code := False)) else (opts, malformed))
        in if code = 33 \<or> code = 121
           then (opts(code \<mapsto> (case opts code of Some d \<Rightarrow> d | None \<Rightarrow> []) @ data), malformed)
           else (opts(code \<mapsto> data), malformed))"

function options_loop ::
    "(bytes \<Rightarrow> string list option) \<Rightarrow> bytes \<Rightarrow> (u8 \<rightharpoonup> bytes) \<times> (u8 \<Rightarrow> bool) \<Rightarrow> (u8 \<rightharpoonup> bytes) option" where
  "options_loop labels [] st = Some (fst st)"
| "options_loop labels (code # b) st =
     (if code = 0 then options_loop labels b st
      else if code = 255 then Some (fst st)
      else case b of
        [] \<Rightarrow> None
      | n # b \<Rightarrow>
          if length b < unat n then None
          else case prepare code (take (unat n) b) of
                 None \<Rightarrow> None
               | Some data \<Rightarrow> options_loop labels (drop (unat n) b) (add_option labels code data st))"
  by pat_completeness auto
termination by (relation "measure (\<lambda>(_, b, _). length b)") auto

definition options :: "(bytes \<Rightarrow> string list option) \<Rightarrow> bytes \<Rightarrow> (u8 \<rightharpoonup> bytes) option" where
  "options labels b = options_loop labels b (Map.empty, \<lambda>_. False)"

subsection \<open>Lease times\<close>

record leaseTimes =
  lt_lease :: u32
  lt_t1 :: u32
  lt_t2 :: u32

text \<open>The times of the lease that \<open>set\<close> writes.\<close>

record lease_ends =
  Expire :: int
  Renew :: int
  Rebind :: int

definition set_times :: "leaseTimes \<Rightarrow> int \<Rightarrow> lease_ends option" where
  "set_times t now =
     (if lt_lease t = 0 then None
      else
        let lease = unat (lt_lease t);
            seven8 = (of_nat (lease * 7 div 8) :: u32);
            t = (if lt_t2 t = 0 \<or> lt_t2 t \<ge> lt_lease t then t\<lparr>lt_t2 := seven8\<rparr> else t);
            t = (if lt_t1 t = 0 \<or> lt_t1 t \<ge> lt_t2 t
                 then let t = t\<lparr>lt_t1 := lt_lease t div 2\<rparr>
                      in if lt_t1 t \<ge> lt_t2 t then t\<lparr>lt_t2 := seven8\<rparr> else t
                 else t)
        in Some \<lparr>Expire = now + int (unat (lt_lease t)) * second, Renew = now + int (unat (lt_t1 t)) * second,
                 Rebind = now + int (unat (lt_t2 t)) * second\<rparr>)"

subsection \<open>The options as a whole\<close>

text \<open>The copies of all options up to the end, in their order; \<open>None\<close> when the message fails.\<close>

function copies :: "bytes \<Rightarrow> (u8 \<times> bytes) list option" where
  "copies [] = Some []"
| "copies (code # b) =
     (if code = 0 then copies b
      else if code = 255 then Some []
      else case b of
        [] \<Rightarrow> None
      | n # b \<Rightarrow>
          if length b < unat n then None
          else case prepare code (take (unat n) b) of
                 None \<Rightarrow> None
               | Some data \<Rightarrow> map_option (\<lambda>l. (code, data) # l) (copies (drop (unat n) b)))"
  by pat_completeness auto
termination by (relation "measure length") auto

definition of_code :: "u8 \<Rightarrow> (u8 \<times> bytes) list \<Rightarrow> bytes list" where
  "of_code c l = map snd (filter (\<lambda>x. fst x = c) l)"

definition good :: "(bytes \<Rightarrow> string list option) \<Rightarrow> u8 \<Rightarrow> bytes \<Rightarrow> bool" where
  "good labels c d = (case valid labels c of Some check \<Rightarrow> check d | None \<Rightarrow> True)"

text \<open>What the copies of a code make: the last good copy, or all good copies together for the routes;
  without a good copy the first one.\<close>

definition value_of :: "(bytes \<Rightarrow> string list option) \<Rightarrow> u8 \<Rightarrow> bytes list \<Rightarrow> bytes option" where
  "value_of labels c ds =
     (let goods = filter (good labels c) ds in
      if goods \<noteq> [] then Some (if c = 33 \<or> c = 121 then concat goods else last goods)
      else if ds \<noteq> [] then Some (hd ds) else None)"

definition state_for :: "(bytes \<Rightarrow> string list option) \<Rightarrow> (u8 \<times> bytes) list \<Rightarrow> (u8 \<rightharpoonup> bytes) \<times> (u8 \<Rightarrow> bool)" where
  "state_for labels l =
     (\<lambda>c. value_of labels c (of_code c l), \<lambda>c. of_code c l \<noteq> [] \<and> filter (good labels c) (of_code c l) = [])"

lemma of_code_snoc: "of_code c (l @ [(code, d)]) = (if c = code then of_code c l @ [d] else of_code c l)"
  by (simp add: of_code_def)

lemma add_option_state:
  "add_option labels code d (state_for labels l) = state_for labels (l @ [(code, d)])"
proof -
  let ?ds = "of_code code l"
  have check: "(case valid labels code of Some check \<Rightarrow> \<not> check d | None \<Rightarrow> False) \<longleftrightarrow> \<not> good labels code d"
    by (simp add: good_def split: option.splits)
  show ?thesis
    unfolding add_option_def check state_for_def
    by (auto simp: of_code_snoc value_of_def Let_def fun_eq_iff)
qed

lemma options_loop_copies:
  "options_loop labels b (state_for labels l) =
     map_option (\<lambda>m. fst (state_for labels (l @ m))) (copies b)"
proof (induction b arbitrary: l rule: copies.induct)
  case (2 code b)
  show ?case
  proof (cases "code = 0 \<or> code = 255 \<or> b = []")
    case True
    with 2(1) show ?thesis by (cases b) auto
  next
    case False
    then obtain n r where b: "b = n # r" by (cases b) auto
    show ?thesis
    proof (cases "length r < unat n \<or> prepare code (take (unat n) r) = None")
      case True
      with False b show ?thesis by auto
    next
      case ok: False
      then obtain d where d: "prepare code (take (unat n) r) = Some d" by auto
      from False b ok d 2(2) [of n r d "l @ [(code, d)]"] show ?thesis
        by (simp add: add_option_state option.map_comp comp_def)
    qed
  qed
qed simp

text \<open>C34: Reading the options copy by copy gives for every code what its copies say as a whole: the
  last copy that passes the check of the code, for the two route options all such copies together,
  and the first copy when none passes. The message fails exactly when an option is cut off or fails
  the message on its own.\<close>

theorem options_spec:
  "options labels b = map_option (\<lambda>l c. value_of labels c (of_code c l)) (copies b)"
proof -
  have "state_for labels [] = (Map.empty, \<lambda>_. False)"
    by (simp add: state_for_def of_code_def value_of_def)
  with options_loop_copies [of labels b "[]"] show ?thesis
    by (simp add: options_def state_for_def)
qed

subsection \<open>The order of the lease times\<close>

lemma unat_seven8: "unat (of_nat (unat w * 7 div 8) :: u32) = unat w * 7 div 8" for w :: u32
proof -
  have "unat w < 4294967296" using unsigned_less [of w] by simp
  moreover have "unat w * 7 div 8 \<le> unat w" by linarith
  ultimately show ?thesis by (simp add: unat_of_nat)
qed

lemma unat_half: "unat (w div 2 :: u32) = unat w div 2"
  by (simp add: unat_div)

lemma unat_half_nat: "unat (of_nat (unat w div 2) :: u32) = unat w div 2" for w :: u32
proof -
  have "unat w < 4294967296" using unsigned_less [of w] by simp
  then show ?thesis by (simp add: unat_of_nat)
qed

text \<open>The lease times are in order: from the time of the lease the renewal comes first, then the
  rebinding, and both before the end, whatever the options 51, 58 and 59 say. Times that are already
  in order are taken as they are; a lease time of zero sets none.\<close>

lemma set_times_ordered:
  assumes "set_times t now = Some l"
  shows "now \<le> Renew l \<and> Renew l \<le> Rebind l \<and> Rebind l < Expire l
    \<and> Expire l = now + int (unat (lt_lease t)) * second
    \<and> (0 < lt_t1 t \<and> lt_t1 t < lt_t2 t \<and> lt_t2 t < lt_lease t \<longrightarrow>
         Renew l = now + int (unat (lt_t1 t)) * second \<and> Rebind l = now + int (unat (lt_t2 t)) * second)"
proof -
  let ?n = "unat (lt_lease t)"
  have pos: "0 < ?n" using assms by (auto simp: set_times_def unat_gt_0 split: if_splits)
  have arith: "?n div 2 \<le> ?n * 7 div 8" "?n * 7 div 8 < ?n" using pos by linarith+
  show ?thesis
    using assms pos arith
    by (auto simp: set_times_def Let_def word_le_nat_alt word_less_nat_alt unat_seven8 unat_half unat_half_nat unat_eq_0 simp del: of_nat_unat split: if_splits)
qed

end
