(* ===== verification/DHCP_Message.thy ===== *)
theory DHCP_Message
  imports DHCP_Options
begin

text \<open>
  The messages of the DHCPv4 client (network/dhcp4/message.go): what the client sends, what it takes
  from a reply, and which replies are usable.

  The package insomniacslk/dhcp is an argument, the record \<open>dhcp_lib\<close>: the header it writes and
  reads, the bytes of an option value, and its getters on a map of options. A \<open>net.IP\<close> of the model is an
  IPv4 address or \<open>nil\<close>, the result of \<open>To4\<close>.
\<close>

subsection \<open>Data\<close>

type_synonym ip = "u32 option"
type_synonym opts = "u8 \<rightharpoonup> bytes"

abbreviation IsUnspecified :: "ip \<Rightarrow> bool" where "IsUnspecified a \<equiv> a = Some 0"

definition MessageTypeDiscover :: u8 where "MessageTypeDiscover = 1"
definition MessageTypeOffer :: u8 where "MessageTypeOffer = 2"
definition MessageTypeRequest :: u8 where "MessageTypeRequest = 3"
definition MessageTypeAck :: u8 where "MessageTypeAck = 5"
definition MessageTypeNak :: u8 where "MessageTypeNak = 6"
definition MessageTypeRelease :: u8 where "MessageTypeRelease = 7"

lemmas type_defs = MessageTypeDiscover_def MessageTypeOffer_def MessageTypeRequest_def MessageTypeAck_def
  MessageTypeNak_def MessageTypeRelease_def

text \<open>The options that the client sends.\<close>

datatype dopt = OptMessageType u8 | OptClientIdentifier bytes | OptParameterRequestList "u8 list"
  | OptMaxMessageSize u16 | OptServerIdentifier u32 | OptRequestedIPAddress u32 | OptRapidCommit
  | OptHostName string

fun opt_code :: "dopt \<Rightarrow> u8" where
  "opt_code (OptMessageType _) = 53"
| "opt_code (OptClientIdentifier _) = 61"
| "opt_code (OptParameterRequestList _) = 55"
| "opt_code (OptMaxMessageSize _) = 57"
| "opt_code (OptServerIdentifier _) = 54"
| "opt_code (OptRequestedIPAddress _) = 50"
| "opt_code OptRapidCommit = 80"
| "opt_code (OptHostName _) = 12"

record message =
  mTyp :: u8
  mXid :: u32
  mSecs :: u16
  mCiaddr :: ip
  mMac :: bytes
  mOptions :: "dopt list"

record bootp =
  OpCode :: u8
  TransactionID :: u32
  ClientHWAddr :: bytes
  YourIPAddr :: ip
  ServerIPAddr :: ip

text \<open>The library: the bytes of a request header (from transaction, seconds, client address and
  hardware address), the value of an option, the header of a message, and the getters for the message
  type, an address, addresses, a mask, a text, a duration and a 16-bit number.\<close>

record dhcp_lib =
  lib_ToBytes :: "u32 \<Rightarrow> u16 \<Rightarrow> u32 \<Rightarrow> bytes \<Rightarrow> bytes"
  lib_value :: "dopt \<Rightarrow> bytes"
  lib_FromBytes :: "bytes \<Rightarrow> bootp option"
  lib_MessageType :: "opts \<Rightarrow> u8"
  lib_GetIP :: "u8 \<Rightarrow> opts \<Rightarrow> ip"
  lib_GetIPs :: "u8 \<Rightarrow> opts \<Rightarrow> ip list"
  lib_GetIPMask :: "u8 \<Rightarrow> opts \<Rightarrow> bytes"
  lib_GetString :: "u8 \<Rightarrow> opts \<Rightarrow> string"
  lib_GetDuration :: "u8 \<Rightarrow> opts \<Rightarrow> duration"
  lib_GetUint16 :: "u8 \<Rightarrow> opts \<Rightarrow> u16 option"
  lib_labels :: "bytes \<Rightarrow> string list option"

text \<open>A lease; \<open>LeaseEnds\<close> holds the times T1, T2 and the expiry, \<open>None\<close> when they are zero.\<close>

record lease =
  ServerID :: ip
  FixedAddress :: ip
  Netmask :: bytes
  NextServer :: ip
  BroadcastAddr :: ip
  Router :: "ip list"
  DNS :: "ip list"
  TimeServer :: "ip list"
  DomainName :: string
  MTU :: u16
  Options :: opts
  BoundAt :: int
  LeaseEnds :: "lease_ends option"

record reply =
  rTyp :: u8
  rXid :: u32
  rMac :: bytes
  rLease :: lease
  rapidCommit :: bool
  overload :: bool

subsection \<open>Sending\<close>

definition minMessageSize :: nat where "minMessageSize = 300"
definition bootpLen :: nat where "bootpLen = 240"

definition ipOrZero :: "ip \<Rightarrow> u32" where
  "ipOrZero a = (case a of Some x \<Rightarrow> x | None \<Rightarrow> 0)"

definition put_option :: "dhcp_lib \<Rightarrow> dopt \<Rightarrow> bytes" where
  "put_option L o1 = (let v = lib_value L o1 in [opt_code o1, of_nat (length v)] @ v)"

definition encode :: "dhcp_lib \<Rightarrow> message \<Rightarrow> bytes go" where
  "encode L m = do {
     b \<leftarrow> slice_to (lib_ToBytes L (mXid m) (mSecs m) (ipOrZero (mCiaddr m)) (mMac m)) bootpLen;
     let b = b @ concat (map (put_option L) (OptMessageType (mTyp m) # mOptions m));
     let b = b @ replicate (minMessageSize - 1 - length b) 0;
     Some (b @ [255])
   }"

subsection \<open>Receiving\<close>

definition seconds :: "duration \<Rightarrow> u32" where
  "seconds d = of_int (go_div d second)"

definition usable :: "reply \<Rightarrow> bool \<Rightarrow> bool" where
  "usable r hasLease =
     (if rTyp r = MessageTypeOffer \<or> rTyp r = MessageTypeAck then
        (let yi = FixedAddress (rLease r); sid = ServerID (rLease r)
         in yi \<noteq> None \<and> \<not> IsUnspecified yi \<and> sid \<noteq> None \<and> \<not> IsUnspecified sid \<and> hasLease \<and> \<not> overload r)
      else if rTyp r = MessageTypeNak then ServerID (rLease r) \<noteq> None
      else True)"

definition lease_times_of :: "dhcp_lib \<Rightarrow> opts \<Rightarrow> leaseTimes" where
  "lease_times_of L opts =
     \<lparr>lt_lease = seconds (lib_GetDuration L 51 opts), lt_t1 = seconds (lib_GetDuration L 58 opts),
      lt_t2 = seconds (lib_GetDuration L 59 opts)\<rparr>"

definition reply_of :: "dhcp_lib \<Rightarrow> bootp \<Rightarrow> opts \<Rightarrow> int \<Rightarrow> reply" where
  "reply_of L d opts now =
     \<lparr>rTyp = lib_MessageType L opts, rXid = TransactionID d, rMac = ClientHWAddr d,
      rLease = \<lparr>ServerID = lib_GetIP L 54 opts, FixedAddress = YourIPAddr d, Netmask = lib_GetIPMask L 1 opts,
                NextServer = (if IsUnspecified (ServerIPAddr d) then None else ServerIPAddr d),
                BroadcastAddr = lib_GetIP L 28 opts, Router = lib_GetIPs L 3 opts, DNS = lib_GetIPs L 6 opts,
                TimeServer = lib_GetIPs L 4 opts, DomainName = lib_GetString L 15 opts,
                MTU = (case lib_GetUint16 L 26 opts of Some mtu \<Rightarrow> max mtu 576 | None \<Rightarrow> 0),
                Options = opts, BoundAt = now, LeaseEnds = set_times (lease_times_of L opts) now\<rparr>,
      rapidCommit = (opts 80 \<noteq> None), overload = (opts 52 \<noteq> None)\<rparr>"

text \<open>\<open>decodeReply\<close>: \<open>None\<close> when the second result is false. The guard on the length keeps the indices and
  slices in range.\<close>

definition decodeReply :: "dhcp_lib \<Rightarrow> bytes \<Rightarrow> int \<Rightarrow> reply option" where
  "decodeReply L payload now =
     (if length payload < bootpLen \<or> payload ! 1 \<noteq> 1 \<or> payload ! 2 \<noteq> 6 then None
      else case lib_FromBytes L (take bootpLen payload @ [255]) of
        None \<Rightarrow> None
      | Some d \<Rightarrow>
         if OpCode d \<noteq> 2 then None
         else case options (lib_labels L) (drop bootpLen payload) of
           None \<Rightarrow> None
         | Some opts \<Rightarrow>
            (let r = reply_of L d opts now
             in if usable r (lt_lease (lease_times_of L opts) > 0) then Some r else None))"

subsection \<open>What a reply promises\<close>

text \<open>A lease that the client can bind: an address and a server, and times in order.\<close>

definition lease_ok :: "lease \<Rightarrow> bool" where
  "lease_ok l \<longleftrightarrow> FixedAddress l \<noteq> None \<and> \<not> IsUnspecified (FixedAddress l) \<and> ServerID l \<noteq> None
     \<and> \<not> IsUnspecified (ServerID l)
     \<and> (\<exists>e. LeaseEnds l = Some e \<and> BoundAt l \<le> Renew e \<and> Renew e \<le> Rebind e \<and> Rebind e < Expire e)"

lemma decodeReply_lease:
  assumes "decodeReply L payload now = Some r" "rTyp r = MessageTypeOffer \<or> rTyp r = MessageTypeAck"
  shows "lease_ok (rLease r) \<and> BoundAt (rLease r) = now"
proof -
  obtain d opts where r: "r = reply_of L d opts now" "usable r (lt_lease (lease_times_of L opts) > 0)"
    using assms(1) by (auto simp: decodeReply_def Let_def split: if_splits option.splits)
  have u: "FixedAddress (rLease r) \<noteq> None \<and> \<not> IsUnspecified (FixedAddress (rLease r)) \<and> ServerID (rLease r) \<noteq> None
      \<and> \<not> IsUnspecified (ServerID (rLease r)) \<and> lt_lease (lease_times_of L opts) > 0"
    using r(2) assms(2) by (auto simp: usable_def Let_def)
  then have "set_times (lease_times_of L opts) now \<noteq> None"
    by (simp add: set_times_def Let_def word_gt_0)
  then obtain e where "set_times (lease_times_of L opts) now = Some e" by blast
  with set_times_ordered [OF this] u r(1) show ?thesis
    by (auto simp: lease_ok_def reply_of_def)
qed

lemma decodeReply_nak:
  "decodeReply L payload now = Some r \<Longrightarrow> rTyp r = MessageTypeNak \<Longrightarrow> ServerID (rLease r) \<noteq> None"
  by (auto simp: decodeReply_def Let_def usable_def type_defs split: if_splits option.splits)

subsection \<open>What a message says\<close>

lemma copies_option:
  assumes "code \<noteq> 0" "code \<noteq> 255" "length v \<le> 255" "prepare code v = Some v"
  shows "copies ([code, of_nat (length v)] @ v @ r) = map_option (\<lambda>l. (code, v) # l) (copies r)"
proof -
  have "unat (of_nat (length v) :: u8) = length v" using assms(3) by (simp add: unat_of_nat)
  with assms show ?thesis by simp
qed

lemma copies_padding: "copies (replicate n 0 @ [255]) = Some []"
  by (induction n) auto

text \<open>The options of the client pass the checks of a reader that has none for them.\<close>

lemma opt_code_plain: "opt_code o1 \<noteq> 0" "opt_code o1 \<noteq> 255" "opt_code o1 = 53 \<longleftrightarrow> (\<exists>t. o1 = OptMessageType t)"
  by (cases o1; simp)+

lemma prepare_option:
  assumes "\<And>t. length (lib_value L (OptMessageType t)) = 1"
  shows "prepare (opt_code o1) (lib_value L o1) = Some (lib_value L o1)"
  using assms by (cases o1) (auto simp: prepare_def)

lemma copies_options:
  assumes "\<forall>o1\<in>set os. length (lib_value L o1) \<le> 255" "\<And>t. length (lib_value L (OptMessageType t)) = 1"
  shows "copies (concat (map (put_option L) os) @ replicate n 0 @ [255])
    = Some (map (\<lambda>o1. (opt_code o1, lib_value L o1)) os)"
  using assms(1)
proof (induction os)
  case Nil
  show ?case by (simp add: copies_padding)
next
  case (Cons o1 os)
  have "put_option L o1 @ r = [opt_code o1, of_nat (length (lib_value L o1))] @ lib_value L o1 @ r" for r
    by (simp add: put_option_def Let_def)
  with Cons copies_option [OF opt_code_plain(1,2) _ prepare_option [OF assms(2)], of o1] show ?case
    by (simp del: copies.simps)
qed

text \<open>C33: A message on the wire says what the client means: after the fixed header, a reader finds the
  message type and then the options of the message, each with its value and in the order of the
  client. The message has at least 300 bytes and ends with End. This holds for options of at most 255
  bytes; the library writes a header of at least 240 bytes and a message type of one byte.\<close>

theorem encode_options_roundtrip:
  assumes header: "240 \<le> length (lib_ToBytes L (mXid m) (mSecs m) (ipOrZero (mCiaddr m)) (mMac m))"
    and one: "\<And>t. length (lib_value L (OptMessageType t)) = 1"
    and fits: "\<forall>o1\<in>set (mOptions m). length (lib_value L o1) \<le> 255"
  shows "\<exists>b. encode L m = Some b \<and> 300 \<le> length b \<and> last b = 255
    \<and> copies (drop 240 b) = Some (map (\<lambda>o1. (opt_code o1, lib_value L o1)) (OptMessageType (mTyp m) # mOptions m))"
proof -
  let ?h = "take 240 (lib_ToBytes L (mXid m) (mSecs m) (ipOrZero (mCiaddr m)) (mMac m))"
  let ?os = "OptMessageType (mTyp m) # mOptions m"
  let ?o = "concat (map (put_option L) ?os)"
  let ?n = "299 - length (?h @ ?o)"
  have e: "encode L m = Some (?h @ ?o @ replicate ?n 0 @ [255])"
    using header by (simp add: encode_def slice_to_def bootpLen_def minMessageSize_def Let_def)
  moreover have "copies (?o @ replicate ?n 0 @ [255]) = Some (map (\<lambda>o1. (opt_code o1, lib_value L o1)) ?os)"
    using fits one by (intro copies_options) auto
  ultimately show ?thesis using header
    by (intro exI [of _ "?h @ ?o @ replicate ?n 0 @ [255]"] conjI) (simp_all del: copies.simps)
qed

definition sample_lib :: dhcp_lib where
  "sample_lib = \<lparr>lib_ToBytes = \<lambda>_ _ _ _. replicate 300 0,
     lib_value = \<lambda>o1. (case o1 of OptMessageType t \<Rightarrow> [t] | _ \<Rightarrow> []),
     lib_FromBytes = \<lambda>b. Some \<lparr>OpCode = 2, TransactionID = 7, ClientHWAddr = [1, 2, 3, 4, 5, 6], YourIPAddr = Some 9, ServerIPAddr = Some 0\<rparr>,
     lib_MessageType = \<lambda>o1. (case o1 53 of Some [t] \<Rightarrow> t | _ \<Rightarrow> 0), lib_GetIP = \<lambda>_ _. Some 3, lib_GetIPs = \<lambda>_ _. [],
     lib_GetIPMask = \<lambda>_ _. [], lib_GetString = \<lambda>_ _. [],
     lib_GetDuration = \<lambda>c _. (if c = 51 then 3600 * second else 0),
     lib_GetUint16 = \<lambda>_ _. None, lib_labels = \<lambda>_. None\<rparr>"

theorem encode_options_roundtrip_witness:
  "\<exists>b. encode sample_lib \<lparr>mTyp = 1, mXid = 7, mSecs = 0, mCiaddr = None, mMac = [], mOptions = [OptRapidCommit]\<rparr> = Some b
     \<and> copies (drop 240 b) = Some [(53, [1]), (80, [])]"
  using encode_options_roundtrip [of sample_lib "\<lparr>mTyp = 1, mXid = 7, mSecs = 0, mCiaddr = None, mMac = [], mOptions = [OptRapidCommit]\<rparr>"]
  by (auto simp: sample_lib_def)

end
