(* ===== verification/DHCP_Client.thy ===== *)
theory DHCP_Client
  imports DHCP_Message
begin

text \<open>
  The DHCPv4 client of one NIC (network/dhcp4/client.go): the states of RFC 2131, the exchange of a
  message for a reply, and the lease that the client holds.

  The surroundings are scripts: for every exchange what opening, sending and receiving give, for
  every wait what ends it, and when \<open>Stop\<close> and \<open>Reboot\<close> are called. A \<open>sig\<close> is the calls that arrive up to
  a point where the code looks at the two flags. The token of the channel \<open>reboot\<close> only wakes a wait, so
  a wake is an entry of a script, with or without the flag. A state that its script leaves waiting has
  no next state. The calls of the callbacks, both set, and the messages handed to the transport are
  events. The open transport, which \<open>Stop\<close> and \<open>Reboot\<close> close to end a receive, has no field.
\<close>

subsection \<open>Client\<close>

datatype cstate = StateInit | StateRebooting | StateBound | StateRenewing | StateRebinding

record client =
  HardwareAddr :: bytes
  Hostname :: string
  ClientID :: bytes
  Params :: "u8 list"
  SendRelease :: bool
  IfaceMTU :: int
  stopped :: bool
  rebootReq :: bool
  lease_of :: "lease option"
  lastAddr :: ip
  started :: int

datatype dest = Broadcast | Unicast ip ip

text \<open>A message with its destination, the time at which its wait was computed and the wait; the calls
  of \<open>OnBound\<close> and \<open>OnExpire\<close>, the latter with the time or the reply that ends the lease.\<close>

datatype why = Timeup int | Nak reply

datatype cevent = Send dest message int duration | OnBound lease reply | OnExpire lease why
  | Release dest message

record sig =
  sig_stop :: bool
  sig_reboot :: bool

definition poll :: "sig \<Rightarrow> client \<Rightarrow> client" where
  "poll s c = c\<lparr>stopped := stopped c \<or> sig_stop s, rebootReq := rebootReq c \<or> sig_reboot s\<rparr>"

subsection \<open>Messages\<close>

definition common :: "client \<Rightarrow> int option \<Rightarrow> dopt list" where
  "common c ifaceMTU =
     (let mtu = (case ifaceMTU of Some m \<Rightarrow> m | None \<Rightarrow> IfaceMTU c)
      in (if ClientID c \<noteq> [] then [OptClientIdentifier (ClientID c)] else [])
         @ (if Params c \<noteq> [] then [OptParameterRequestList (Params c)] else [])
         @ (if mtu \<ge> 576 then [OptMaxMessageSize (of_int (mtu - 28))] else []))"

definition withHostname :: "client \<Rightarrow> dopt list \<Rightarrow> dopt list" where
  "withHostname c opts = (if Hostname c \<noteq> [] then opts @ [OptHostName (Hostname c)] else opts)"

definition discover :: "client \<Rightarrow> int option \<Rightarrow> u32 \<Rightarrow> message" where
  "discover c mtu xid =
     (let opts = common c mtu;
          last = (case lease_of c of Some l \<Rightarrow> FixedAddress l | None \<Rightarrow> lastAddr c);
          opts = (case last of Some ip \<Rightarrow> opts @ [OptRequestedIPAddress ip] | None \<Rightarrow> opts);
          opts = opts @ [OptRapidCommit]
      in \<lparr>mTyp = MessageTypeDiscover, mXid = xid, mSecs = 0, mCiaddr = None, mMac = HardwareAddr c,
          mOptions = withHostname c opts\<rparr>)"

definition request :: "client \<Rightarrow> int option \<Rightarrow> u32 \<Rightarrow> ip \<Rightarrow> ip \<Rightarrow> ip \<Rightarrow> message" where
  "request c mtu xid ciaddr server addr =
     (let opts = common c mtu;
          opts = (case server of Some s \<Rightarrow> opts @ [OptServerIdentifier s] | None \<Rightarrow> opts);
          opts = (case addr of Some a \<Rightarrow> opts @ [OptRequestedIPAddress a] | None \<Rightarrow> opts)
      in \<lparr>mTyp = MessageTypeRequest, mXid = xid, mSecs = 0, mCiaddr = ciaddr, mMac = HardwareAddr c,
          mOptions = withHostname c opts\<rparr>)"

definition secs :: "client \<Rightarrow> int \<Rightarrow> u16" where
  "secs c now = of_int (min (max (go_div (now - started c) second) 0) 0xffff)"

text \<open>\<open>timeout\<close> of the n-th retransmission.\<close>

definition timeout :: "nat \<Rightarrow> duration \<Rightarrow> duration" where
  "timeout n jitter = (let n = (if n > 5 then 5 else n) in 2 * 2 ^ n * second + jitter)"

subsection \<open>The exchange\<close>

datatype xerr = ErrTimeout | ErrStopped | ErrReboot

definition interrupted :: "xerr \<Rightarrow> bool" where
  "interrupted e = (e = ErrStopped \<or> e = ErrReboot)"

text \<open>\<open>pause\<close>: what arrives before each look at the flag, and the case that the select takes then; the
  case \<open>stop\<close> is taken when \<open>Stop\<close> has been called. The timer ends the list.\<close>

datatype pick = PickStop | PickReboot | PickTimeout

fun pause :: "client \<Rightarrow> (sig \<times> pick) list \<Rightarrow> xerr \<times> client" where
  "pause c [] = (if rebootReq c then (ErrReboot, c) else (ErrTimeout, c))"
| "pause c ((s, p) # ws) =
     (let c = poll s c in
      if rebootReq c then (ErrReboot, c)
      else case p of
        PickStop \<Rightarrow> (ErrStopped, c\<lparr>stopped := True\<rparr>)
      | PickReboot \<Rightarrow> pause c ws
      | PickTimeout \<Rightarrow> (ErrTimeout, c))"

datatype rx_result = RxPayload bytes int | RxTimeout | RxError

record rx =
  rx_now :: int
  rx_sig :: sig
  rx_res :: rx_result

text \<open>The script of an exchange: whether the transport opens and the message goes out, the times of
  \<open>secs\<close> and of the deadline, the receives (the end of the list is a time past the deadline) and the pause
  after an error.\<close>

record xscript =
  x_open :: bool
  x_sig :: sig
  x_secs_now :: int
  x_send :: bool
  x_sent_now :: int
  x_rx :: "rx list"
  x_pause :: "(sig \<times> pick) list"

definition wanted :: "client \<Rightarrow> reply \<Rightarrow> message \<Rightarrow> ip \<Rightarrow> u8 list \<Rightarrow> bool" where
  "wanted c r m server types =
     (if rXid r \<noteq> mXid m \<or> rMac r \<noteq> HardwareAddr c \<or> rTyp r \<notin> set types then False
      else if rTyp r = MessageTypeNak \<and> server \<noteq> None \<and> ServerID (rLease r) \<noteq> server then False
      else True)"

fun receive_loop ::
    "dhcp_lib \<Rightarrow> client \<Rightarrow> message \<Rightarrow> int \<Rightarrow> ip \<Rightarrow> u8 list \<Rightarrow> (sig \<times> pick) list \<Rightarrow> rx list \<Rightarrow> (xerr + reply) \<times> client" where
  "receive_loop L c m deadline server types ws [] = (Inl ErrTimeout, c)"
| "receive_loop L c m deadline server types ws (x # xs) =
     (if deadline - rx_now x \<le> 0 then (Inl ErrTimeout, c)
      else let c = poll (rx_sig x) c in
        if stopped c then (Inl ErrStopped, c)
        else if rebootReq c then (Inl ErrReboot, c)
        else case rx_res x of
          RxTimeout \<Rightarrow> (Inl ErrTimeout, c)
        | RxError \<Rightarrow> (let (e, c) = pause c ws in (Inl e, c))
        | RxPayload payload now \<Rightarrow>
            (case decodeReply L payload now of
               Some r \<Rightarrow> if wanted c r m server types then (Inr r, c)
                         else receive_loop L c m deadline server types ws xs
             | None \<Rightarrow> receive_loop L c m deadline server types ws xs))"

text \<open>\<open>exchange\<close>, with the time \<open>asked\<close> at which the caller computed the wait.\<close>

definition dhcp_exchange ::
    "dhcp_lib \<Rightarrow> client \<Rightarrow> dest \<Rightarrow> message \<Rightarrow> int \<Rightarrow> duration \<Rightarrow> ip \<Rightarrow> u8 list \<Rightarrow> xscript
     \<Rightarrow> (xerr + reply) \<times> client \<times> cevent list" where
  "dhcp_exchange L c d m asked wait server types X =
     (if \<not> x_open X then (let (e, c) = pause c (x_pause X) in (Inl e, c, []))
      else let c = poll (x_sig X) c in
        if stopped c then (Inl ErrStopped, c, [])
        else if rebootReq c then (Inl ErrReboot, c, [])
        else let m = m\<lparr>mSecs := secs c (x_secs_now X)\<rparr>; ev = [Send d m asked wait] in
          if \<not> x_send X then (let (e, c) = pause c (x_pause X) in (Inl e, c, ev))
          else let (r, c) = receive_loop L c m (x_sent_now X + wait) server types (x_pause X) (x_rx X) in (r, c, ev))"

subsection \<open>The lease\<close>

definition bind_lease :: "client \<Rightarrow> reply \<Rightarrow> sig \<Rightarrow> cstate \<times> client \<times> cevent list" where
  "bind_lease c r s =
     (let c = poll s (c\<lparr>lease_of := Some (rLease r)\<rparr>)
      in (StateBound, c\<lparr>rebootReq := False\<rparr>, [OnBound (rLease r) r]))"

definition expire :: "client \<Rightarrow> why \<Rightarrow> cstate \<times> client \<times> cevent list" where
  "expire c w =
     (case lease_of c of
        None \<Rightarrow> (StateInit, c, [])
      | Some l \<Rightarrow> (StateInit, c\<lparr>lease_of := None, lastAddr := FixedAddress l\<rparr>, [OnExpire l w]))"

definition leaseLeft :: "client \<Rightarrow> int \<Rightarrow> duration option" where
  "leaseLeft c now =
     (case lease_of c of
        None \<Rightarrow> None
      | Some l \<Rightarrow> map_option (\<lambda>e. Expire e - now) (LeaseEnds l))"

subsection \<open>States\<close>

text \<open>One attempt of a state: what arrives before it, the time and the jitter of its wait, the MTU of the NIC, the exchange, and
  what arrives while a callback runs.\<close>

record attempt =
  a_sig :: sig
  a_now :: int
  a_jitter :: duration
  a_mtu :: "int option"
  a_x :: xscript
  a_bound_sig :: sig

fun selecting :: "dhcp_lib \<Rightarrow> client \<Rightarrow> u32 \<Rightarrow> lease \<Rightarrow> nat \<Rightarrow> attempt list \<Rightarrow> cstate option \<times> client \<times> cevent list" where
  "selecting L c xid offer n as =
     (if n \<ge> 5 then (Some StateInit, c, [])
      else case as of
        [] \<Rightarrow> (None, c, [])
      | a # as \<Rightarrow>
         (case dhcp_exchange L c Broadcast (request c (a_mtu a) xid None (ServerID offer) (FixedAddress offer)) (a_now a)
                 (timeout n (a_jitter a)) (ServerID offer) [MessageTypeAck, MessageTypeNak] (a_x a) of
            (Inl e, c, ev) \<Rightarrow>
              if interrupted e then (Some StateInit, c, ev)
              else (let (st, c, ev') = selecting L c xid offer (Suc n) as in (st, c, ev @ ev'))
          | (Inr r, c, ev) \<Rightarrow>
              if rTyp r = MessageTypeAck
              then (let (st, c, ev') = bind_lease c r (a_bound_sig a) in (Some st, c, ev @ ev'))
              else (Some StateInit, c, ev)))"

declare selecting.simps [simp del]

text \<open>The wait of an attempt in INIT; a lease that has ended expires before it.\<close>

definition init_wait :: "client \<Rightarrow> nat \<Rightarrow> attempt \<Rightarrow> duration \<times> client \<times> cevent list" where
  "init_wait c n a =
     (let wait = timeout n (a_jitter a) in
      case leaseLeft c (a_now a) of
        None \<Rightarrow> (wait, c, [])
      | Some left \<Rightarrow>
          if left \<le> 0 then (let (_, c, ev) = expire c (Timeup (a_now a)) in (wait, c, ev))
          else (min wait left, c, []))"

fun init_loop ::
    "dhcp_lib \<Rightarrow> client \<Rightarrow> u32 \<Rightarrow> attempt list \<Rightarrow> nat \<Rightarrow> attempt list \<Rightarrow> cstate option \<times> client \<times> cevent list" where
  "init_loop L c xid sel n [] = (None, c, [])"
| "init_loop L c xid sel n (a # as) =
     (let (wait, c, ev0) = init_wait c n a in
      case dhcp_exchange L c Broadcast (discover c (a_mtu a) xid) (a_now a) wait None [MessageTypeOffer, MessageTypeAck] (a_x a) of
        (Inl e, c, ev) \<Rightarrow>
          if interrupted e then (Some StateInit, c, ev0 @ ev)
          else (let (st, c, ev') = init_loop L c xid sel (Suc n) as in (st, c, ev0 @ ev @ ev'))
      | (Inr r, c, ev) \<Rightarrow>
          if rTyp r = MessageTypeAck \<and> rapidCommit r
          then (let (st, c, ev') = bind_lease c r (a_bound_sig a) in (Some st, c, ev0 @ ev @ ev'))
          else if rTyp r = MessageTypeOffer
          then (let (st, c, ev') = selecting L c xid (rLease r) 0 sel in (st, c, ev0 @ ev @ ev'))
          else (let (st, c, ev') = init_loop L c xid sel (Suc n) as in (st, c, ev0 @ ev @ ev')))"

text \<open>One turn of the run loop: what arrives before it, its time and transaction, its attempts, those of
  SELECTING, and what ends the wait in BOUND (\<open>None\<close> the timer).\<close>

record turn =
  t_sig :: sig
  t_now :: int
  t_xid :: u32
  t_attempts :: "attempt list"
  t_select :: "attempt list"
  t_wake :: "sig option"

definition initState :: "dhcp_lib \<Rightarrow> client \<Rightarrow> turn \<Rightarrow> cstate option \<times> client \<times> cevent list" where
  "initState L c t = init_loop L (c\<lparr>started := t_now t\<rparr>) (t_xid t) (t_select t) 0 (t_attempts t)"

definition rebootState :: "dhcp_lib \<Rightarrow> client \<Rightarrow> turn \<Rightarrow> cstate option \<times> client \<times> cevent list" where
  "rebootState L c t =
     (case lease_of c of
        None \<Rightarrow> (Some StateInit, c, [])
      | Some old \<Rightarrow>
         (let c = c\<lparr>started := t_now t\<rparr> in
          case t_attempts t of
            [] \<Rightarrow> (None, c, [])
          | a # _ \<Rightarrow>
             (case dhcp_exchange L c Broadcast (request c (a_mtu a) (t_xid t) None None (FixedAddress old)) (a_now a)
                     (timeout 0 (a_jitter a)) (ServerID old) [MessageTypeAck, MessageTypeNak] (a_x a) of
                (Inl e, c, ev) \<Rightarrow> (Some StateInit, c, ev)
              | (Inr r, c, ev) \<Rightarrow>
                  (let (st, c, ev') = (if rTyp r = MessageTypeAck then bind_lease c r (a_bound_sig a) else expire c (Nak r))
                   in (Some st, c, ev @ ev')))))"

definition boundState :: "client \<Rightarrow> turn \<Rightarrow> cstate option \<times> client \<times> cevent list" where
  "boundState c t =
     (case t_wake t of
        Some s \<Rightarrow> (Some StateBound, poll s c, [])
      | None \<Rightarrow>
         (case lease_of c of
            Some l \<Rightarrow> (if LeaseEnds l = None then None else Some StateRenewing, c, [])
          | None \<Rightarrow> (None, c, [])))"

text \<open>\<open>extend\<close> for a lease with its end \<open>until\<close>, where \<open>None\<close> is the zero time, which is past;
  \<open>renewing\<close> tells which of the two states calls it.\<close>

definition extend_wait :: "duration \<Rightarrow> duration" where
  "extend_wait left = min (max (go_div left 2) (60 * second)) left"

fun extend_loop ::
    "dhcp_lib \<Rightarrow> client \<Rightarrow> u32 \<Rightarrow> lease \<Rightarrow> bool \<Rightarrow> int option \<Rightarrow> attempt list \<Rightarrow> cstate option \<times> client \<times> cevent list" where
  "extend_loop L c xid l renewing until [] = (if stopped c then Some StateBound else None, c, [])"
| "extend_loop L c xid l renewing until (a # as) =
     (let c = poll (a_sig a) c; left = (case until of Some u \<Rightarrow> u - a_now a | None \<Rightarrow> 0) in
      if stopped c then (Some StateBound, c, [])
      else if left \<le> 0 then
        (if renewing then (Some StateRebinding, c, [])
         else let (st, c, ev) = expire c (Timeup (a_now a)) in (Some st, c, ev))
      else case dhcp_exchange L c (if renewing then Unicast (FixedAddress l) (ServerID l) else Broadcast)
                  (request c (a_mtu a) xid (FixedAddress l) None None) (a_now a) (extend_wait left) (ServerID l)
                  [MessageTypeAck, MessageTypeNak] (a_x a) of
          (Inl e, c, ev) \<Rightarrow>
            if interrupted e then (Some StateBound, c, ev)
            else (let (st, c, ev') = extend_loop L c xid l renewing until as in (st, c, ev @ ev'))
        | (Inr r, c, ev) \<Rightarrow>
            (let (st, c, ev') = (if rTyp r = MessageTypeAck then bind_lease c r (a_bound_sig a) else expire c (Nak r))
             in (Some st, c, ev @ ev')))"

definition extend :: "dhcp_lib \<Rightarrow> bool \<Rightarrow> client \<Rightarrow> turn \<Rightarrow> cstate option \<times> client \<times> cevent list" where
  "extend L renewing c t =
     (case lease_of c of
        None \<Rightarrow> (Some StateInit, c, [])
      | Some l \<Rightarrow>
          extend_loop L (c\<lparr>started := t_now t\<rparr>) (t_xid t) l renewing
            (map_option (if renewing then Rebind else Expire) (LeaseEnds l)) (t_attempts t))"

definition renewState :: "dhcp_lib \<Rightarrow> client \<Rightarrow> turn \<Rightarrow> cstate option \<times> client \<times> cevent list" where
  "renewState L = extend L True"

definition rebindState :: "dhcp_lib \<Rightarrow> client \<Rightarrow> turn \<Rightarrow> cstate option \<times> client \<times> cevent list" where
  "rebindState L = extend L False"

fun state_step :: "dhcp_lib \<Rightarrow> cstate \<Rightarrow> client \<Rightarrow> turn \<Rightarrow> cstate option \<times> client \<times> cevent list" where
  "state_step L StateInit c t = initState L c t"
| "state_step L StateRebooting c t = rebootState L c t"
| "state_step L StateBound c t = boundState c t"
| "state_step L StateRenewing c t = renewState L c t"
| "state_step L StateRebinding c t = rebindState L c t"

text \<open>The loop of \<open>run\<close>: the last state, \<open>None\<close> while a state still waits, the client and the events.\<close>

fun run_client :: "dhcp_lib \<Rightarrow> cstate \<Rightarrow> client \<Rightarrow> turn list \<Rightarrow> cstate option \<times> client \<times> cevent list" where
  "run_client L st c [] = (Some st, c, [])"
| "run_client L st c (t # ts) =
     (let c = poll (t_sig t) c in
      if stopped c then (Some st, c, [])
      else let (st, c) = (if rebootReq c then (StateRebooting, c\<lparr>rebootReq := False\<rparr>) else (st, c)) in
        case state_step L st c t of
          (None, c, ev) \<Rightarrow> (None, c, ev)
        | (Some st, c, ev) \<Rightarrow> (let (st, c, ev') = run_client L st c ts in (st, c, ev @ ev')))"

definition new_client :: "bytes \<Rightarrow> string \<Rightarrow> bytes \<Rightarrow> u8 list \<Rightarrow> bool \<Rightarrow> int \<Rightarrow> client" where
  "new_client hw host cid params rel mtu =
     \<lparr>HardwareAddr = hw, Hostname = host, ClientID = cid, Params = params, SendRelease = rel, IfaceMTU = mtu,
      stopped = False, rebootReq = False, lease_of = None, lastAddr = None, started = 0\<rparr>"

text \<open>\<open>Stop\<close>, after the loop has ended: the release of a bound lease, with a fresh transaction and whether
  a transport opens.\<close>

definition release :: "client \<Rightarrow> u32 \<Rightarrow> bool \<Rightarrow> cevent list" where
  "release c xid opened =
     (case lease_of c of
        None \<Rightarrow> []
      | Some l \<Rightarrow>
          if ServerID l = None \<or> \<not> opened then []
          else [Release (Unicast (FixedAddress l) (ServerID l))
                 \<lparr>mTyp = MessageTypeRelease, mXid = xid, mSecs = 0, mCiaddr = FixedAddress l, mMac = HardwareAddr c,
                  mOptions = (if ClientID c \<noteq> [] then [OptClientIdentifier (ClientID c)] else [])\<rparr>])"

definition Stop_release :: "client \<Rightarrow> u32 \<Rightarrow> bool \<Rightarrow> cevent list" where
  "Stop_release c xid opened = (if SendRelease c then release c xid opened else [])"

subsection \<open>The events as a trace\<close>

text \<open>A monitor of the events: it knows the lease that the callbacks have announced and the message
  that was sent last, and asks of every event whether these allow it.\<close>

type_synonym rule = "lease option \<Rightarrow> message option \<Rightarrow> cevent \<Rightarrow> bool"

fun after_event :: "lease option \<Rightarrow> message option \<Rightarrow> cevent \<Rightarrow> lease option \<times> message option" where
  "after_event cur p (Send d m asked wait) = (cur, Some m)"
| "after_event cur p (OnBound l r) = (Some l, None)"
| "after_event cur p (OnExpire l w) = (None, None)"
| "after_event cur p (Release d m) = (cur, None)"

fun lease_trace :: "rule \<Rightarrow> lease option \<Rightarrow> message option \<Rightarrow> cevent list \<Rightarrow> lease option option" where
  "lease_trace P cur p [] = Some cur"
| "lease_trace P cur p (e # es) =
     (if P cur p e then (case after_event cur p e of (cur, p) \<Rightarrow> lease_trace P cur p es) else None)"

definition answers :: "bytes \<Rightarrow> message \<Rightarrow> reply \<Rightarrow> bool" where
  "answers hw m r \<longleftrightarrow> rXid r = mXid m \<and> rMac r = hw"

text \<open>A message carries the address of the NIC, and as client address only that of the lease held. A
  lease is bound for an ACK to the last message, where an ACK to a DISCOVER has rapid commit. The
  lease that ends is the one held, at its expiry or for a NAK of its own server to the last message.\<close>

fun lease_rule :: "bytes \<Rightarrow> rule" where
  "lease_rule hw cur p (Send d m asked wait) \<longleftrightarrow>
     mMac m = hw \<and> (mCiaddr m = None \<or> (case cur of Some l \<Rightarrow> mCiaddr m = FixedAddress l | None \<Rightarrow> False))"
| "lease_rule hw cur p (OnBound l r) \<longleftrightarrow>
     (case p of None \<Rightarrow> False
      | Some m \<Rightarrow> answers hw m r \<and> rTyp r = MessageTypeAck \<and> (mTyp m = MessageTypeDiscover \<longrightarrow> rapidCommit r)
          \<and> rLease r = l \<and> lease_ok l)"
| "lease_rule hw cur p (OnExpire l (Timeup now)) \<longleftrightarrow>
     cur = Some l \<and> (case LeaseEnds l of Some e \<Rightarrow> Expire e \<le> now | None \<Rightarrow> False)"
| "lease_rule hw cur p (OnExpire l (Nak r)) \<longleftrightarrow>
     cur = Some l \<and> (case p of None \<Rightarrow> False
       | Some m \<Rightarrow> answers hw m r \<and> rTyp r = MessageTypeNak \<and> ServerID (rLease r) = ServerID l)"
| "lease_rule hw cur p (Release d m) \<longleftrightarrow> False"

text \<open>The wait for the answer to a DISCOVER or a renewal ends with the lease held.\<close>

fun wait_rule :: rule where
  "wait_rule cur p (Send d m asked wait) \<longleftrightarrow>
     (mTyp m = MessageTypeDiscover \<or> mCiaddr m \<noteq> None \<longrightarrow>
       (case cur of None \<Rightarrow> True
        | Some l \<Rightarrow> (case LeaseEnds l of Some e \<Rightarrow> asked + wait \<le> Expire e | None \<Rightarrow> True)))"
| "wait_rule cur p _ \<longleftrightarrow> True"

definition both_rules :: "bytes \<Rightarrow> rule" where
  "both_rules hw cur p e \<longleftrightarrow> lease_rule hw cur p e \<and> wait_rule cur p e"

lemma lease_trace_mono:
  "(\<And>cur p e. P cur p e \<Longrightarrow> Q cur p e) \<Longrightarrow> lease_trace P cur p es = Some z \<Longrightarrow> lease_trace Q cur p es = Some z"
  by (induction es arbitrary: cur p) (auto split: if_splits prod.splits)

lemma lease_trace_start:
  assumes "lease_trace (both_rules hw) cur None es = Some z"
  shows "lease_trace (both_rules hw) cur p es = Some z"
proof (cases es)
  case (Cons e es')
  show ?thesis
  proof (cases e)
    case (OnExpire l w)
    then show ?thesis using assms Cons by (cases w) (auto simp: both_rules_def split: if_splits)
  qed (use assms Cons in \<open>auto simp: both_rules_def split: if_splits\<close>)
qed (use assms in simp)

lemma lease_trace_append:
  "lease_trace (both_rules hw) cur p xs = Some mid \<Longrightarrow> lease_trace (both_rules hw) mid None ys = Some z
   \<Longrightarrow> lease_trace (both_rules hw) cur p (xs @ ys) = Some z"
proof (induction xs arbitrary: cur p)
  case Nil
  then show ?case using lease_trace_start [of hw mid ys z p] by simp
qed (auto split: if_splits prod.splits)

lemma after_event_lease_ok:
  assumes "both_rules hw cur p e" "\<forall>l. cur = Some l \<longrightarrow> lease_ok l" "after_event cur p e = (cur', p')" "cur' = Some l"
  shows "lease_ok l"
  using assms by (cases e) (auto simp: both_rules_def split: option.splits)

lemma lease_trace_lease_ok:
  assumes "lease_trace (both_rules hw) cur p es = Some z" "\<forall>l. cur = Some l \<longrightarrow> lease_ok l"
  shows "\<forall>l. z = Some l \<longrightarrow> lease_ok l"
  using assms
proof (induction es arbitrary: cur p)
  case Nil
  then show ?case by simp
next
  case (Cons e es)
  obtain cur' p' where n: "after_event cur p e = (cur', p')" by (cases "after_event cur p e")
  have "both_rules hw cur p e" and rest: "lease_trace (both_rules hw) cur' p' es = Some z"
    using Cons.prems(1) n by (simp_all split: if_splits)
  then have "\<forall>l. cur' = Some l \<longrightarrow> lease_ok l" using after_event_lease_ok [OF _ Cons.prems(2) n] by blast
  then show ?case by (rule Cons.IH [OF rest])
qed

subsection \<open>Exchanges\<close>

text \<open>What an exchange leaves alone.\<close>

definition same_client :: "client \<Rightarrow> client \<Rightarrow> bool" where
  "same_client c c' \<longleftrightarrow> HardwareAddr c' = HardwareAddr c \<and> lease_of c' = lease_of c"

lemma same_client_poll [simp]: "same_client c (poll s c)"
  by (simp add: same_client_def poll_def)

lemma pause_same: "same_client c (snd (pause c ws))"
  by (induction c ws rule: pause.induct)
     (auto simp: Let_def same_client_def poll_def split: pick.splits)

lemma receive_same: "same_client c (snd (receive_loop L c m dl server types ws xs))"
proof (induction xs arbitrary: c)
  case (Cons x xs)
  show ?case
    using Cons [of "poll (rx_sig x) c"] pause_same [of "poll (rx_sig x) c" ws]
    by (auto simp: Let_def same_client_def poll_def split: rx_result.splits option.splits prod.splits)
qed (simp add: same_client_def)

lemma receive_reply:
  "fst (receive_loop L c m dl server types ws xs) = Inr r
   \<Longrightarrow> \<exists>payload now. decodeReply L payload now = Some r \<and> wanted c r m server types"
proof (induction xs arbitrary: c)
  case (Cons x xs)
  have w: "wanted (poll s c) = wanted c" for s by (simp add: wanted_def poll_def fun_eq_iff)
  show ?case
    using Cons.prems Cons.IH [of "poll (rx_sig x) c"]
    by (auto simp: Let_def w split: rx_result.splits option.splits prod.splits if_splits)
qed simp

lemma dhcp_exchange_facts:
  assumes "dhcp_exchange L c d m asked wait server types X = (res, c', ev)"
  shows "same_client c c'"
    and "ev = [] \<or> (\<exists>s. ev = [Send d (m\<lparr>mSecs := s\<rparr>) asked wait])"
    and "res = Inr r \<Longrightarrow> (\<exists>s. ev = [Send d (m\<lparr>mSecs := s\<rparr>) asked wait])
      \<and> (\<exists>payload now. decodeReply L payload now = Some r \<and> wanted c r m server types)"
proof -
  let ?c = "poll (x_sig X) c"
  let ?m = "m\<lparr>mSecs := secs ?c (x_secs_now X)\<rparr>"
  have w: "wanted ?c r ?m server types = wanted c r m server types" for r by (simp add: wanted_def poll_def)
  note f = pause_same [of c "x_pause X"] pause_same [of ?c "x_pause X"]
    receive_same [of ?c L ?m "x_sent_now X + wait" server types "x_pause X" "x_rx X"]
    receive_reply [of L ?c ?m "x_sent_now X + wait" server types "x_pause X" "x_rx X" r]
  show "same_client c c'"
    using assms f(1-3) by (auto simp: dhcp_exchange_def Let_def same_client_def poll_def split: if_splits prod.splits)
  show "ev = [] \<or> (\<exists>s. ev = [Send d (m\<lparr>mSecs := s\<rparr>) asked wait])"
    using assms by (auto simp: dhcp_exchange_def Let_def split: if_splits prod.splits)
  show "res = Inr r \<Longrightarrow> (\<exists>s. ev = [Send d (m\<lparr>mSecs := s\<rparr>) asked wait])
      \<and> (\<exists>payload now. decodeReply L payload now = Some r \<and> wanted c r m server types)"
    using assms f(4) w by (auto simp: dhcp_exchange_def Let_def split: if_splits prod.splits)
qed

subsection \<open>What every state keeps\<close>

definition held_ok :: "client \<Rightarrow> bool" where
  "held_ok c \<longleftrightarrow> (\<forall>l. lease_of c = Some l \<longrightarrow> lease_ok l)"

text \<open>BOUND, RENEWING and REBINDING have a lease.\<close>

definition state_ok :: "cstate \<Rightarrow> client \<Rightarrow> bool" where
  "state_ok st c \<longleftrightarrow> st \<in> {StateBound, StateRenewing, StateRebinding} \<longrightarrow> lease_of c \<noteq> None"

definition contract :: "client \<Rightarrow> cstate option \<times> client \<times> cevent list \<Rightarrow> bool" where
  "contract c res \<longleftrightarrow> (case res of (st, c', ev) \<Rightarrow>
     HardwareAddr c' = HardwareAddr c
     \<and> lease_trace (both_rules (HardwareAddr c)) (lease_of c) None ev = Some (lease_of c')
     \<and> (\<forall>s. st = Some s \<longrightarrow> state_ok s c'))"

definition send_ok :: "client \<Rightarrow> message \<Rightarrow> int \<Rightarrow> duration \<Rightarrow> bool" where
  "send_ok c m asked wait \<longleftrightarrow> both_rules (HardwareAddr c) (lease_of c) None (Send Broadcast m asked wait)"

lemma contract_append:
  assumes "contract c1 (st, c2, ev')" "HardwareAddr c1 = HardwareAddr c"
    "lease_trace (both_rules (HardwareAddr c)) (lease_of c) None ev = Some (lease_of c1)"
  shows "contract c (st, c2, ev @ ev')"
  using assms lease_trace_append [OF assms(3), of ev' "lease_of c2"] by (simp add: contract_def)

lemma contract_held_ok: "contract c (st, c', ev) \<Longrightarrow> held_ok c \<Longrightarrow> held_ok c'"
  using lease_trace_lease_ok [of "HardwareAddr c" "lease_of c" None ev "lease_of c'"]
  by (simp add: contract_def held_ok_def)

lemma send_rules:
  assumes "send_ok c m asked wait"
  shows "both_rules (HardwareAddr c) (lease_of c) p (Send d (m\<lparr>mSecs := s\<rparr>) asked wait)"
  using assms by (cases "lease_of c") (simp_all add: send_ok_def both_rules_def)

lemma dhcp_exchange_trace:
  assumes "dhcp_exchange L c d m asked wait server types X = (res, c', ev)" "send_ok c m asked wait"
  shows "lease_trace (both_rules (HardwareAddr c)) (lease_of c) None ev = Some (lease_of c')"
    and "HardwareAddr c' = HardwareAddr c" and "lease_of c' = lease_of c"
  using dhcp_exchange_facts(1,2) [OF assms(1)] send_rules [OF assms(2)] by (auto simp: same_client_def)

lemma dhcp_exchange_silent:
  assumes "dhcp_exchange L c d m asked wait server types X = (res, c', ev)" "send_ok c m asked wait"
    "\<And>s. st = Some s \<Longrightarrow> state_ok s c"
  shows "contract c (st, c', ev)"
  using dhcp_exchange_trace [OF assms(1,2)] assms(3) by (auto simp: contract_def state_ok_def)

lemma dhcp_exchange_ack:
  assumes x: "dhcp_exchange L c d m asked wait server types X = (Inr r, c1, ev)" and ok: "send_ok c m asked wait"
    and ack: "rTyp r = MessageTypeAck" "mTyp m = MessageTypeDiscover \<longrightarrow> rapidCommit r"
    and b: "bind_lease c1 r s = (st, c2, ev')"
  shows "contract c (Some st, c2, ev @ ev')"
proof -
  obtain se payload now where e: "ev = [Send d (m\<lparr>mSecs := se\<rparr>) asked wait]"
    and r: "decodeReply L payload now = Some r" "wanted c r m server types"
    using dhcp_exchange_facts(3) [OF x, of r] by blast
  have l: "lease_ok (rLease r)" using decodeReply_lease [OF r(1)] ack(1) by simp
  have a: "answers (HardwareAddr c) m r" using r(2) by (auto simp: wanted_def answers_def split: if_splits)
  have h: "both_rules (HardwareAddr c) (lease_of c) (Some (m\<lparr>mSecs := se\<rparr>)) (OnBound (rLease r) r)"
    using l a ack by (simp add: both_rules_def answers_def)
  have b': "st = StateBound" "ev' = [OnBound (rLease r) r]" "lease_of c2 = Some (rLease r)"
    "HardwareAddr c2 = HardwareAddr c1"
    using b by (auto simp: bind_lease_def poll_def)
  show ?thesis
    using h send_rules [OF ok, of None d se] e b' dhcp_exchange_trace(2) [OF x ok]
    by (simp add: contract_def state_ok_def)
qed

lemma dhcp_exchange_nak:
  assumes x: "dhcp_exchange L c d m asked wait (ServerID l) types X = (Inr r, c1, ev)" and ok: "send_ok c m asked wait"
    and nak: "rTyp r = MessageTypeNak" and l: "lease_of c = Some l" "lease_ok l"
    and b: "expire c1 (Nak r) = (st, c2, ev')"
  shows "contract c (Some st, c2, ev @ ev')"
proof -
  obtain se payload now where e: "ev = [Send d (m\<lparr>mSecs := se\<rparr>) asked wait]"
    and r: "wanted c r m (ServerID l) types"
    using dhcp_exchange_facts(3) [OF x, of r] by blast
  have a: "answers (HardwareAddr c) m r \<and> ServerID (rLease r) = ServerID l"
    using r nak l(2) by (auto simp: wanted_def answers_def lease_ok_def split: if_splits)
  have h: "both_rules (HardwareAddr c) (lease_of c) (Some (m\<lparr>mSecs := se\<rparr>)) (OnExpire l (Nak r))"
    using a nak l by (simp add: both_rules_def answers_def)
  have b': "st = StateInit" "ev' = [OnExpire l (Nak r)]" "lease_of c2 = None" "HardwareAddr c2 = HardwareAddr c1"
    using b dhcp_exchange_trace(3) [OF x ok] l(1) by (auto simp: expire_def)
  show ?thesis
    using h send_rules [OF ok, of None d se] e b' dhcp_exchange_trace(2) [OF x ok]
    by (simp add: contract_def state_ok_def)
qed

lemma expire_time:
  assumes "expire c (Timeup now) = (st, c', ev)" "\<And>l. lease_of c = Some l \<Longrightarrow> \<exists>e. LeaseEnds l = Some e \<and> Expire e \<le> now"
  shows "contract c (Some st, c', ev)" "lease_of c' = None" "st = StateInit"
  using assms by (auto simp: expire_def contract_def both_rules_def state_ok_def split: option.splits)

lemma wanted_types: "wanted c r m server types \<Longrightarrow> rTyp r \<in> set types"
  by (auto simp: wanted_def split: if_splits)

lemma dhcp_exchange_types:
  assumes "dhcp_exchange L c d m asked wait server types X = (Inr r, c1, ev)"
  shows "rTyp r \<in> set types"
  using dhcp_exchange_facts(3) [OF assms, of r] wanted_types by blast

subsection \<open>The states\<close>

lemma request_fields [simp]:
  "mTyp (request c mtu xid ciaddr server addr) = MessageTypeRequest"
  "mXid (request c mtu xid ciaddr server addr) = xid"
  "mCiaddr (request c mtu xid ciaddr server addr) = ciaddr"
  "mMac (request c mtu xid ciaddr server addr) = HardwareAddr c"
  by (simp_all add: request_def Let_def)

lemma discover_fields [simp]:
  "mTyp (discover c mtu xid) = MessageTypeDiscover" "mXid (discover c mtu xid) = xid"
  "mCiaddr (discover c mtu xid) = None" "mMac (discover c mtu xid) = HardwareAddr c"
  by (simp_all add: discover_def Let_def)

lemma request_not_discover [simp]: "MessageTypeRequest \<noteq> MessageTypeDiscover"
  by (simp add: type_defs)

lemma send_ok_request: "send_ok c (request c mtu xid None server addr) asked wait"
  by (simp add: send_ok_def both_rules_def)

lemma selecting_contract:
  "contract c (selecting L c xid offer n as)"
proof (induction "5 - n" arbitrary: c n as)
  case 0
  then show ?case by (simp add: selecting.simps contract_def state_ok_def)
next
  case (Suc k)
  then have n: "n < 5" "k = 5 - Suc n" by simp_all
  show ?case
  proof (cases as)
    case Nil
    then show ?thesis using n by (simp add: selecting.simps contract_def)
  next
    case (Cons a as')
    obtain res c1 ev where x: "dhcp_exchange L c Broadcast (request c (a_mtu a) xid None (ServerID offer) (FixedAddress offer)) (a_now a)
        (timeout n (a_jitter a)) (ServerID offer) [MessageTypeAck, MessageTypeNak] (a_x a) = (res, c1, ev)"
      by (metis prod_cases3)
    note t = dhcp_exchange_trace [OF x send_ok_request] and silent = dhcp_exchange_silent [OF x send_ok_request]
    note step = selecting.simps [of L c xid offer n as]
    show ?thesis
    proof (cases res)
      case (Inl e)
      obtain st c2 ev' where s: "selecting L c1 xid offer (Suc n) as' = (st, c2, ev')" by (metis prod_cases3)
      have "contract c (st, c2, ev @ ev')"
        using contract_append [OF _ t(2,1)] Suc.hyps(1) [OF n(2), of c1 as'] s by simp
      then show ?thesis using silent [of "Some StateInit"] step n Cons x Inl s by (simp add: state_ok_def)
    next
      case (Inr r)
      obtain st c2 ev' where s: "bind_lease c1 r (a_bound_sig a) = (st, c2, ev')" by (metis prod_cases3)
      show ?thesis
        using dhcp_exchange_ack [OF x [unfolded Inr] send_ok_request _ _ s] silent [of "Some StateInit"] step n Cons x Inr s
        by (simp add: state_ok_def)
    qed
  qed
qed

lemma init_wait_contract:
  assumes "init_wait c n a = (wait, c', ev)" "held_ok c"
  shows "contract c (None, c', ev) \<and> send_ok c' (discover c' mtu xid) (a_now a) wait"
proof (cases "leaseLeft c (a_now a)")
  case None
  then have "c' = c" "ev = []" using assms by (auto simp: init_wait_def Let_def)
  with None show ?thesis
    by (auto simp: contract_def send_ok_def both_rules_def leaseLeft_def split: option.splits)
next
  case (Some left)
  then obtain l e where l: "lease_of c = Some l" "LeaseEnds l = Some e" "left = Expire e - a_now a"
    by (auto simp: leaseLeft_def split: option.splits)
  show ?thesis
  proof (cases "left \<le> 0")
    case True
    then obtain st where x: "expire c (Timeup (a_now a)) = (st, c', ev)"
      using assms(1) Some by (auto simp: init_wait_def Let_def split: prod.splits)
    have "lease_of c' = None" "contract c (None, c', ev)"
      using expire_time [OF x] l True by (auto simp: contract_def)
    then show ?thesis by (simp add: send_ok_def both_rules_def)
  next
    case False
    then have "c' = c" "ev = []" "wait \<le> left" using assms(1) Some by (auto simp: init_wait_def Let_def)
    with l show ?thesis by (simp add: contract_def send_ok_def both_rules_def)
  qed
qed

lemma init_loop_contract:
  "held_ok c \<Longrightarrow> contract c (init_loop L c xid sel n as)"
proof (induction as arbitrary: c n)
  case Nil
  then show ?case by (simp add: contract_def)
next
  case (Cons a as)
  obtain wait c0 ev0 where w: "init_wait c n a = (wait, c0, ev0)" by (metis prod_cases3)
  note w0 = init_wait_contract [OF w Cons.prems, of "a_mtu a" xid]
  then have ok: "send_ok c0 (discover c0 (a_mtu a) xid) (a_now a) wait" and c0: "contract c (None, c0, ev0)" by simp_all
  have h0: "held_ok c0" using contract_held_ok [OF c0 Cons.prems] .
  obtain res c1 ev where x: "dhcp_exchange L c0 Broadcast (discover c0 (a_mtu a) xid) (a_now a) wait None
      [MessageTypeOffer, MessageTypeAck] (a_x a) = (res, c1, ev)" by (metis prod_cases3)
  note t = dhcp_exchange_trace [OF x ok]
  have h1: "held_ok c1" using h0 t(3) by (simp add: held_ok_def)
  have lift: "contract c (st, c2, ev0 @ ev')" if "contract c0 (st, c2, ev')" for st c2 ev'
    by (rule contract_append [OF that]) (use c0 in \<open>simp_all add: contract_def\<close>)
  have seq: "contract c (st, c2, ev0 @ ev @ ev')" if "contract c1 (st, c2, ev')" for st c2 ev'
    by (rule lift) (rule contract_append [OF that t(2,1)])
  obtain sti ci evi where i: "init_loop L c1 xid sel (Suc n) as = (sti, ci, evi)" by (metis prod_cases3)
  have ci: "contract c (sti, ci, ev0 @ ev @ evi)" using seq Cons.IH [OF h1, of "Suc n"] i by simp
  show ?case
  proof (cases res)
    case (Inl e)
    then show ?thesis
      using lift [OF dhcp_exchange_silent [OF x ok, of "Some StateInit"]] ci w x i by (simp add: state_ok_def)
  next
    case (Inr r)
    obtain sts cs evs where s: "selecting L c1 xid (rLease r) 0 sel = (sts, cs, evs)" by (metis prod_cases3)
    obtain stb cb evb where b: "bind_lease c1 r (a_bound_sig a) = (stb, cb, evb)" by (metis prod_cases3)
    have "contract c (sts, cs, ev0 @ ev @ evs)" using seq selecting_contract [of c1 L xid "rLease r" 0 sel] s by simp
    moreover have "contract c (Some stb, cb, ev0 @ ev @ evb)" if "rTyp r = MessageTypeAck" "rapidCommit r"
      using lift [OF dhcp_exchange_ack [OF x [unfolded Inr] ok _ _ b]] that by simp
    ultimately show ?thesis using ci w x i Inr s b by simp
  qed
qed

lemma rebootState_contract:
  assumes "held_ok c"
  shows "contract c (rebootState L c t)"
proof (cases "lease_of c")
  case None
  then show ?thesis by (simp add: rebootState_def contract_def state_ok_def)
next
  case (Some l)
  let ?c = "c\<lparr>started := t_now t\<rparr>"
  have lift: "contract c res" if "contract ?c res" for res using that by (simp add: contract_def)
  have l: "lease_of ?c = Some l" "lease_ok l" using assms Some by (simp_all add: held_ok_def)
  show ?thesis
  proof (cases "t_attempts t")
    case Nil
    then show ?thesis using Some by (simp add: rebootState_def contract_def)
  next
    case (Cons a as)
    obtain res c1 ev where x: "dhcp_exchange L ?c Broadcast (request ?c (a_mtu a) (t_xid t) None None (FixedAddress l)) (a_now a)
        (timeout 0 (a_jitter a)) (ServerID l) [MessageTypeAck, MessageTypeNak] (a_x a) = (res, c1, ev)" by (metis prod_cases3)
    show ?thesis
    proof (cases res)
      case (Inl e)
      then show ?thesis
        using lift [OF dhcp_exchange_silent [OF x send_ok_request, of "Some StateInit"]] Some Cons x
        by (simp add: rebootState_def state_ok_def)
    next
      case (Inr r)
      obtain stb cb evb where b: "bind_lease c1 r (a_bound_sig a) = (stb, cb, evb)" by (metis prod_cases3)
      obtain ste ce eve where e: "expire c1 (Nak r) = (ste, ce, eve)" by (metis prod_cases3)
      have nak: "rTyp r \<noteq> MessageTypeAck \<Longrightarrow> rTyp r = MessageTypeNak" using dhcp_exchange_types [OF x [unfolded Inr]] by simp
      show ?thesis
        using lift [OF dhcp_exchange_ack [OF x [unfolded Inr] send_ok_request _ _ b]]
          lift [OF dhcp_exchange_nak [OF x [unfolded Inr] send_ok_request nak l e]] Some Cons x Inr b e
        by (auto simp: rebootState_def)
    qed
  qed
qed

lemma boundState_contract: "state_ok StateBound c \<Longrightarrow> contract c (boundState c t)"
  by (auto simp: boundState_def contract_def state_ok_def poll_def split: option.splits)

text \<open>A wait of \<open>extend\<close> ends with the time left, and lasts a minute or all of it.\<close>

lemma extend_wait_le: "extend_wait left \<le> left"
  by (simp add: extend_wait_def)

lemma extend_loop_contract:
  assumes "lease_of c = Some l" "lease_ok l" "LeaseEnds l = Some e" "until = (if renewing then Rebind e else Expire e)"
  shows "contract c (extend_loop L c xid l renewing (Some until) as)"
  using assms(1)
proof (induction as arbitrary: c)
  case Nil
  then show ?case by (simp add: contract_def state_ok_def)
next
  case (Cons a as)
  let ?c = "poll (a_sig a) c" and ?left = "until - a_now a"
  let ?m = "request ?c (a_mtu a) xid (FixedAddress l) None None"
  have lift: "contract c res" if "contract ?c res" for res using that by (simp add: contract_def poll_def)
  have l: "lease_of ?c = Some l" using Cons.prems by (simp add: poll_def)
  have le: "until \<le> Expire e" using assms(2-4) by (auto simp: lease_ok_def)
  have ok: "send_ok ?c ?m (a_now a) (extend_wait ?left)"
    using l le assms(3) extend_wait_le [of ?left] by (simp add: send_ok_def both_rules_def)
  let ?d = "if renewing then Unicast (FixedAddress l) (ServerID l) else Broadcast"
  obtain res c1 ev where x: "dhcp_exchange L ?c ?d ?m (a_now a) (extend_wait ?left) (ServerID l)
      [MessageTypeAck, MessageTypeNak] (a_x a) = (res, c1, ev)" by (metis prod_cases3)
  note t = dhcp_exchange_trace [OF x ok]
  obtain st0 c0 ev0 where e0: "expire ?c (Timeup (a_now a)) = (st0, c0, ev0)" by (metis prod_cases3)
  have past: "contract c (Some st0, c0, ev0)" if "?left \<le> 0" "\<not> renewing"
    using lift [OF expire_time(1) [OF e0]] that l assms(3,4) by simp
  have quiet: "contract c (Some s, ?c, [])" for s using Cons.prems by (simp add: contract_def state_ok_def poll_def)
  have main: "contract c (case (res, c1, ev) of
      (Inl e, c, ev) \<Rightarrow> if interrupted e then (Some StateBound, c, ev)
         else (let (st, c, ev') = extend_loop L c xid l renewing (Some until) as in (st, c, ev @ ev'))
    | (Inr r, c, ev) \<Rightarrow> (let (st, c, ev') = (if rTyp r = MessageTypeAck then bind_lease c r (a_bound_sig a) else expire c (Nak r))
         in (Some st, c, ev @ ev')))"
  proof (cases res)
    case (Inl e)
    obtain sti ci evi where i: "extend_loop L c1 xid l renewing (Some until) as = (sti, ci, evi)" by (metis prod_cases3)
    have "contract c1 (sti, ci, evi)" using Cons.IH [of c1] t(3) l i by simp
    from lift [OF contract_append [OF this t(2,1)]] show ?thesis
      using lift [OF dhcp_exchange_silent [OF x ok, of "Some StateBound"]] Inl i l by (simp add: state_ok_def)
  next
    case (Inr r)
    obtain stb cb evb where b: "bind_lease c1 r (a_bound_sig a) = (stb, cb, evb)" by (metis prod_cases3)
    obtain ste ce eve where n: "expire c1 (Nak r) = (ste, ce, eve)" by (metis prod_cases3)
    have nak: "rTyp r \<noteq> MessageTypeAck \<Longrightarrow> rTyp r = MessageTypeNak" using dhcp_exchange_types [OF x [unfolded Inr]] by simp
    show ?thesis
      using lift [OF dhcp_exchange_ack [OF x [unfolded Inr] ok _ _ b]]
        lift [OF dhcp_exchange_nak [OF x [unfolded Inr] ok nak l assms(2) n]] Inr b n by auto
  qed
  show ?case using main past quiet x e0 by (simp add: Let_def del: prod.case)
qed

lemma extend_contract:
  assumes "held_ok c"
  shows "contract c (extend L renewing c t)"
proof (cases "lease_of c")
  case None
  then show ?thesis by (simp add: extend_def contract_def state_ok_def)
next
  case (Some l)
  then obtain e where l: "lease_ok l" "LeaseEnds l = Some e" using assms by (auto simp: held_ok_def lease_ok_def)
  let ?c = "c\<lparr>started := t_now t\<rparr>"
  have "contract c res" if "contract ?c res" for res using that by (simp add: contract_def)
  moreover have "contract ?c (extend_loop L ?c (t_xid t) l renewing (Some (if renewing then Rebind e else Expire e)) (t_attempts t))"
    by (rule extend_loop_contract [OF _ l]) (use Some in simp_all)
  ultimately show ?thesis using Some l by (simp add: extend_def split: if_splits)
qed

lemma state_step_contract:
  assumes "held_ok c" "state_ok st c"
  shows "contract c (state_step L st c t)"
proof (cases st)
  case StateInit
  have "held_ok (c\<lparr>started := t_now t\<rparr>)" using assms(1) by (simp add: held_ok_def)
  from init_loop_contract [OF this] show ?thesis using StateInit by (simp add: initState_def contract_def)
next
  case StateBound
  then show ?thesis using assms(2) by (simp add: boundState_contract)
qed (simp_all add: assms rebootState_contract renewState_def rebindState_def extend_contract)

lemma run_client_contract:
  "held_ok c \<Longrightarrow> state_ok st c \<Longrightarrow> contract c (run_client L st c ts)"
proof (induction ts arbitrary: st c)
  case Nil
  then show ?case by (simp add: contract_def)
next
  case (Cons t ts)
  let ?c = "poll (t_sig t) c"
  let ?st = "if rebootReq ?c then StateRebooting else st"
  let ?c1 = "if rebootReq ?c then ?c\<lparr>rebootReq := False\<rparr> else ?c"
  have f: "lease_of ?c1 = lease_of c" "HardwareAddr ?c1 = HardwareAddr c" by (simp_all add: poll_def)
  have h: "held_ok ?c1" "state_ok ?st ?c1" using Cons.prems f by (simp_all add: held_ok_def state_ok_def)
  have lift: "contract c res" if "contract ?c1 res" for res using that f by (simp add: contract_def)
  have quiet: "contract c (Some st, ?c, [])" using Cons.prems by (simp add: contract_def state_ok_def poll_def)
  obtain st2 c2 ev where s: "state_step L ?st ?c1 t = (st2, c2, ev)" by (metis prod_cases3)
  have c2: "contract ?c1 (st2, c2, ev)" using state_step_contract [OF h, of L t] s by simp
  have step: "run_client L st c (t # ts) =
     (if stopped ?c then (Some st, ?c, []) else case (st2, c2, ev) of (None, c, ev) \<Rightarrow> (None, c, ev)
        | (Some st, c, ev) \<Rightarrow> (let (st, c, ev') = run_client L st c ts in (st, c, ev @ ev')))"
    unfolding run_client.simps Let_def s [symmetric] by simp
  show ?case
  proof (cases st2)
    case None
    then show ?thesis using step quiet lift [OF c2] by simp
  next
    case (Some st3)
    obtain st4 c4 ev4 where r: "run_client L st3 c2 ts = (st4, c4, ev4)" by (metis prod_cases3)
    have "contract c2 (st4, c4, ev4)"
      using Cons.IH [OF contract_held_ok [OF c2 h(1)], of st3] c2 Some r by (simp add: contract_def)
    then have "contract ?c1 (st4, c4, ev @ ev4)"
      by (rule contract_append) (use c2 in \<open>simp_all add: contract_def\<close>)
    then show ?thesis using step quiet lift Some r by simp
  qed
qed

subsection \<open>The life of a lease\<close>

text \<open>C21: In every run of the client, whatever the network, the clock and the calls of \<open>Stop\<close> and
  \<open>Reboot\<close> do, the callbacks tell the truth about the lease. \<open>OnBound\<close> reports the lease of an ACK for this NIC
  that answers the last message sent (with rapid commit when that was a DISCOVER), with an address, a
  server and times in order. \<open>OnExpire\<close> reports the lease reported last, and only at its expiry or for a
  NAK of its own server to the last message. After the run the client holds the lease that the
  callbacks have announced, and a message carries no other client address.\<close>

theorem dhcp_lease_lifecycle:
  "case run_client L StateInit (new_client hw host cid params rel mtu) ts of
     (st, c, ev) \<Rightarrow> lease_trace (lease_rule hw) None None ev = Some (lease_of c)"
proof -
  let ?c = "new_client hw host cid params rel mtu"
  have f: "lease_of ?c = None" "HardwareAddr ?c = hw" by (simp_all add: new_client_def)
  have "contract ?c (run_client L StateInit ?c ts)"
    by (rule run_client_contract) (simp_all add: held_ok_def state_ok_def f)
  then show ?thesis
    using lease_trace_mono [of "both_rules hw" "lease_rule hw" None None]
    by (auto simp: contract_def f both_rules_def split: prod.splits)
qed


text \<open>C25: The client is well formed after every run: a lease that it holds has an address, a server and
  T1, T2 and expiry in order, and in BOUND, RENEWING and REBINDING it holds one. So the wait without an
  end in BOUND, for a lease without times, is never entered.\<close>

theorem dhcp_client_wellformed:
  "case run_client L StateInit (new_client hw host cid params rel mtu) ts of
     (st, c, ev) \<Rightarrow> held_ok c \<and> (case st of Some s \<Rightarrow> state_ok s c | None \<Rightarrow> True)"
proof -
  let ?c = "new_client hw host cid params rel mtu"
  have h: "held_ok ?c" "state_ok StateInit ?c" by (simp_all add: new_client_def held_ok_def state_ok_def)
  obtain st c ev where r: "run_client L StateInit ?c ts = (st, c, ev)" by (metis prod_cases3)
  have "contract ?c (st, c, ev)" using run_client_contract [OF h, of L ts] r by simp
  with contract_held_ok [OF this h(1)] r show ?thesis by (auto simp: contract_def split: option.splits)
qed

text \<open>The waits of SELECTING know nothing of a lease that the client has kept: it sends and waits for
  the rest of its five attempts after the expiry, and the lease stays.\<close>

definition sample_lease :: lease where
  "sample_lease = \<lparr>ServerID = Some 3, FixedAddress = Some 9, Netmask = [], NextServer = None, BroadcastAddr = None,
     Router = [], DNS = [], TimeServer = [], DomainName = [], MTU = 0, Options = Map.empty, BoundAt = 0,
     LeaseEnds = Some \<lparr>Expire = 10 * second, Renew = 5 * second, Rebind = 8 * second\<rparr>\<rparr>"

definition no_sig :: sig where "no_sig = \<lparr>sig_stop = False, sig_reboot = False\<rparr>"

definition unanswered_try :: "int \<Rightarrow> attempt" where
  "unanswered_try now = \<lparr>a_sig = no_sig, a_now = now, a_jitter = 0, a_mtu = None,
     a_x = \<lparr>x_open = True, x_sig = no_sig, x_secs_now = now, x_send = True, x_sent_now = now, x_rx = [], x_pause = []\<rparr>,
     a_bound_sig = no_sig\<rparr>"

lemma selecting_keeps_ended_lease:
  "case selecting L ((new_client hw host cid params rel mtu)\<lparr>lease_of := Some sample_lease\<rparr>) xid sample_lease 0
       (map unanswered_try [9 * second, 11 * second, 15 * second, 23 * second, 39 * second]) of
     (st, c, ev) \<Rightarrow> st = Some StateInit \<and> lease_of c = Some sample_lease \<and> length ev = 5"
  by (simp add: selecting.simps dhcp_exchange_def Let_def unanswered_try_def poll_def no_sig_def new_client_def interrupted_def)

text \<open>A run that binds a lease: a DISCOVER, and an ACK with rapid commit a second later.\<close>

definition rapid_ack :: bytes where
  "rapid_ack = [2, 1, 6] @ replicate 237 0 @ [53, 1, 5, 80, 0, 255]"

lemma rapid_ack_options:
  "options labels [53, 1, 5, 80, 0, 255] = Some [53 \<mapsto> [5], 80 \<mapsto> []]"
  by (simp add: options_def prepare_def add_option_def valid_def Let_def)

lemma rapid_ack_decodes:
  "decodeReply sample_lib rapid_ack now =
     Some (reply_of sample_lib (the (lib_FromBytes sample_lib [])) [53 \<mapsto> [5], 80 \<mapsto> []] now)"
proof -
  have "length rapid_ack = 246" "rapid_ack ! 1 = 1" "rapid_ack ! 2 = 6" "drop bootpLen rapid_ack = [53, 1, 5, 80, 0, 255]"
    by (simp_all add: rapid_ack_def bootpLen_def)
  then show ?thesis
    by (simp add: decodeReply_def bootpLen_def rapid_ack_options sample_lib_def reply_of_def usable_def
        lease_times_of_def seconds_def go_div_def type_defs Let_def)
qed

lemma sample_lib_fields:
  "the (lib_FromBytes sample_lib b) = \<lparr>OpCode = 2, TransactionID = 7, ClientHWAddr = [1, 2, 3, 4, 5, 6], YourIPAddr = Some 9, ServerIPAddr = Some 0\<rparr>"
  "lib_MessageType sample_lib o1 = (case o1 53 of Some [t] \<Rightarrow> t | _ \<Rightarrow> 0)"
  by (simp_all add: sample_lib_def)

definition bound_turn :: turn where
  "bound_turn = \<lparr>t_sig = no_sig, t_now = 0, t_xid = 7,
     t_attempts = [(unanswered_try 0)\<lparr>a_x := (a_x (unanswered_try 0))
       \<lparr>x_rx := [\<lparr>rx_now = 0, rx_sig = no_sig, rx_res = RxPayload rapid_ack second\<rparr>]\<rparr>\<rparr>],
     t_select = [], t_wake = None\<rparr>"

lemma bound_turn_binds:
  "case run_client sample_lib StateInit (new_client [1, 2, 3, 4, 5, 6] [] [] [] False 1500) [bound_turn] of
     (st, c, ev) \<Rightarrow> st = Some StateBound \<and> lease_of c \<noteq> None \<and> length ev = 2"
  by (simp add: bound_turn_def unanswered_try_def no_sig_def initState_def init_wait_def leaseLeft_def dhcp_exchange_def
      rapid_ack_decodes reply_of_def sample_lib_fields wanted_def discover_def poll_def new_client_def
      bind_lease_def timeout_def type_defs Let_def)

end
