(* ===== verification/Go_Text.thy ===== *)
theory Go_Text
  imports Go_Strings
begin

text \<open>
  The functions of the packages \<open>strings\<close> and \<open>path/filepath\<close> that the readers of configurations use, and the
  first of several checks that fails.
\<close>

subsection \<open>Strings\<close>

definition Fields :: "string \<Rightarrow> string list" where
  "Fields s = FieldsFunc IsSpace [] s"

definition TrimPrefix :: "string \<Rightarrow> string \<Rightarrow> string" where
  "TrimPrefix s p = (if HasPrefix s p then drop (length p) s else s)"

definition TrimSuffix :: "string \<Rightarrow> string \<Rightarrow> string" where
  "TrimSuffix s p = (if HasSuffix s p then take (length s - length p) s else s)"

text \<open>\<open>strings.Cut\<close> at one character: what is before and after its first occurrence, and whether it
  occurs.\<close>

definition Cut :: "string \<Rightarrow> char \<Rightarrow> string \<times> string \<times> bool" where
  "Cut s c =
     (if c \<in> set s then (takeWhile (\<lambda>x. x \<noteq> c) s, tl (dropWhile (\<lambda>x. x \<noteq> c) s), True) else (s, [], False))"

abbreviation backslash :: char where "backslash \<equiv> CHR 0x5C"
abbreviation squote :: char where "squote \<equiv> CHR 0x27"
abbreviation dquote :: char where "dquote \<equiv> CHR 0x22"
abbreviation dollar :: char where "dollar \<equiv> CHR ''$''"
abbreviation tab :: char where "tab \<equiv> CHR 0x09"
abbreviation blank :: char where "blank \<equiv> CHR '' ''"

definition EqualFold :: "string \<Rightarrow> string \<Rightarrow> bool" where
  "EqualFold a b = (ToLower a = ToLower b)"

subsection \<open>Paths\<close>

text \<open>\<open>filepath.Clean\<close> on slash-separated paths: empty components and dots go, and a double dot takes the
  component before it.\<close>

fun clean_components :: "bool \<Rightarrow> string list \<Rightarrow> string list \<Rightarrow> string list" where
  "clean_components rooted out [] = out"
| "clean_components rooted out (c # cs) =
     clean_components rooted
       (if c = [] \<or> c = ''.'' then out
        else if c = ''..'' then
          (if out \<noteq> [] \<and> last out \<noteq> ''..'' then butlast out else if rooted then out else out @ [c])
        else out @ [c]) cs"

definition Clean :: "string \<Rightarrow> string" where
  "Clean p =
     (if p = [] then ''.''
      else let rooted = (hd p = CHR ''/''); out = clean_components rooted [] (Split CHR ''/'' p)
           in if rooted then CHR ''/'' # Join ''/'' out else if out = [] then ''.'' else Join ''/'' out)"

subsection \<open>Checks\<close>

text \<open>The first of several checks that fails.\<close>

fun first_error :: "'e option list \<Rightarrow> 'e option" where
  "first_error [] = None"
| "first_error (None # es) = first_error es"
| "first_error (Some e # es) = Some e"

abbreviation reject :: "bool \<Rightarrow> 'e \<Rightarrow> 'e option" where
  "reject c e \<equiv> (if c then Some e else None)"

lemma first_error_None [simp]: "first_error es = None \<longleftrightarrow> (\<forall>e\<in>set es. e = None)"
  by (induction es rule: first_error.induct) auto

text \<open>Go compares strings byte by byte: the order of this key.\<close>

definition str_key :: "string \<Rightarrow> nat list" where
  "str_key s = map of_char s"

lemma inj_str_key: "inj str_key"
  unfolding str_key_def by (intro injI) (metis inj_map_eq_map inj_of_char)

end
