(* ===== verification/Grub_Words.thy ===== *)
theory Grub_Words
  imports Go_Text
begin

text \<open>
  The lexer for GRUB scripts (kexec/grubwords.go): the commands of a line, and the words of a command
  with quotes, escapes and variables. A rune of the code is a byte here; the lexer looks at ASCII
  characters only and copies the others.
\<close>

subsection \<open>Errors\<close>

text \<open>The errors of the package; all but the first two wrap \<open>ErrUnsupported\<close>.\<close>

datatype grub_err = ReadError string | NoGrubCfg | BLSOnly | ScriptProblem string string
  | VarUnsure string | NestTooDeep | UnterminatedQuote
  | GrubenvSets string | DefaultError grub_err | NoEntry string string | IsSubmenu string
  | EntryProblem string string | LinuxCount string nat | InitrdCount string nat | EntryError string grub_err
  | NoKernel string | InitrdFile string | FallbackMixed string | FallbackShape string | FallbackDiffers string
  | ArgQuote

fun ErrUnsupported :: "grub_err \<Rightarrow> bool" where
  "ErrUnsupported (ReadError _) = False"
| "ErrUnsupported NoGrubCfg = False"
| "ErrUnsupported (DefaultError e) = ErrUnsupported e"
| "ErrUnsupported (EntryError _ e) = ErrUnsupported e"
| "ErrUnsupported _ = True"

subsection \<open>Commands of a line\<close>

definition appendCommand :: "string list \<Rightarrow> string \<Rightarrow> string list" where
  "appendCommand cmds cmd = (let cmd = TrimSpace cmd in if cmd \<noteq> [] then cmds @ [cmd] else cmds)"

text \<open>The loop of \<open>splitCommands\<close>: the commands so far, the current one, the open quote, whether the last
  character escapes this one, and whether a word may start here. \<open>split_quote\<close> is what a character of a
  command does to the quote and the escape.\<close>

definition split_quote :: "char option \<Rightarrow> bool \<Rightarrow> char \<Rightarrow> char option \<times> bool" where
  "split_quote quote escaped r =
     (if escaped then (quote, False)
      else if r = backslash \<and> quote \<noteq> Some squote then (quote, True)
      else if quote \<noteq> None then (if quote = Some r then None else quote, False)
      else if r = squote \<or> r = dquote then (Some r, False)
      else (quote, False))"

fun split_loop :: "string list \<Rightarrow> string \<Rightarrow> char option \<Rightarrow> bool \<Rightarrow> bool \<Rightarrow> string \<Rightarrow> string list" where
  "split_loop cmds cur quote escaped wordStart [] = appendCommand cmds cur"
| "split_loop cmds cur quote escaped wordStart (r # rs) =
     (if \<not> escaped \<and> quote = None \<and> r = CHR ''#'' \<and> wordStart then appendCommand cmds cur
      else if \<not> escaped \<and> quote = None \<and> r = CHR '';'' then split_loop (appendCommand cmds cur) [] None False True rs
      else case split_quote quote escaped r of
        (quote, escaped) \<Rightarrow>
          split_loop cmds (cur @ [r]) quote escaped (quote = None \<and> \<not> escaped \<and> (r = blank \<or> r = tab)) rs)"

definition splitCommands :: "string \<Rightarrow> string list" where
  "splitCommands line = split_loop [] [] None False True line"

subsection \<open>Words of a command\<close>

record lexer =
  lx_words :: "string list"
  lx_cur :: string
  lx_started :: bool
  lx_quote :: "char option"

type_synonym var_lookups = "string \<Rightarrow> grub_err + string list"

definition new_lexer :: lexer where
  "new_lexer = \<lparr>lx_words = [], lx_cur = [], lx_started = False, lx_quote = None\<rparr>"

definition lx_add :: "lexer \<Rightarrow> string \<Rightarrow> lexer" where
  "lx_add l s = l\<lparr>lx_cur := lx_cur l @ s, lx_started := True\<rparr>"

definition lx_flush :: "lexer \<Rightarrow> lexer" where
  "lx_flush l =
     (let l = (if lx_started l then l\<lparr>lx_words := lx_words l @ [lx_cur l]\<rparr> else l)
      in l\<lparr>lx_cur := [], lx_started := False\<rparr>)"

definition quoteRune :: "lexer \<Rightarrow> char \<Rightarrow> lexer \<times> bool" where
  "quoteRune l r =
     (if lx_quote l = Some r then (l\<lparr>lx_quote := None\<rparr>, True)
      else if lx_quote l = None \<and> (r = squote \<or> r = dquote) then (l\<lparr>lx_quote := Some r, lx_started := True\<rparr>, True)
      else (l, False))"

definition name_char :: "char \<Rightarrow> bool" where
  "name_char c = (c = CHR ''_'' \<or> IsLower c \<or> IsUpper c \<or> IsDigit c)"

definition varName :: "string \<Rightarrow> string \<times> nat" where
  "varName rs =
     (if rs \<noteq> [] \<and> hd rs = CHR ''{'' then
        (if CHR ''}'' \<in> set (tl rs)
         then let name = takeWhile (\<lambda>c. c \<noteq> CHR ''}'') (tl rs) in (name, length name + 2)
         else ([], 0))
      else let name = takeWhile name_char rs in (name, length name))"

text \<open>The fields of an unquoted expansion; the first one continues the current word.\<close>

definition add_fields :: "lexer \<Rightarrow> string list \<Rightarrow> lexer" where
  "add_fields l flds =
     (case flds of [] \<Rightarrow> l | f # fs \<Rightarrow> foldl (\<lambda>l f. lx_add (lx_flush l) f) (lx_add l f) fs)"

definition lx_expand :: "var_lookups \<Rightarrow> lexer \<Rightarrow> string \<Rightarrow> bool \<Rightarrow> grub_err + lexer \<times> nat" where
  "lx_expand lk l rest quoted =
     (let (name, n) = varName rest in
      if name = [] then Inr (lx_add l [dollar], 0)
      else case lk name of
        Inl e \<Rightarrow> Inl e
      | Inr flds \<Rightarrow>
          if quoted then Inr (lx_add l (Join [blank] flds), n) else Inr (add_fields l flds, n))"

text \<open>\<open>step\<close>: the rune and those after it; how many more it consumes. \<open>lookup\<close> may be \<open>nil\<close>.\<close>

definition lx_step :: "var_lookups option \<Rightarrow> lexer \<Rightarrow> char \<Rightarrow> string \<Rightarrow> grub_err + lexer \<times> nat" where
  "lx_step lookup l r rest =
     (if r = backslash \<and> lx_quote l \<noteq> Some squote \<and> rest \<noteq> [] then Inr (lx_add l [hd rest], 1)
      else let (q, isq) = quoteRune l r in
        if isq then Inr (q, 0)
        else if r = dollar \<and> lx_quote l \<noteq> Some squote \<and> lookup \<noteq> None
        then lx_expand (the lookup) l rest (lx_quote l = Some dquote)
        else if lx_quote l = None \<and> (r = blank \<or> r = tab) then Inr (lx_flush l, 0)
        else Inr (lx_add l [r], 0))"

function lex_loop :: "var_lookups option \<Rightarrow> lexer \<Rightarrow> string \<Rightarrow> grub_err + lexer" where
  "lex_loop lookup l [] = Inr l"
| "lex_loop lookup l (r # rest) =
     (case lx_step lookup l r rest of
        Inl e \<Rightarrow> Inl e
      | Inr (l, n) \<Rightarrow> lex_loop lookup l (drop n rest))"
  by pat_completeness auto
termination by (relation "measure (\<lambda>(_, _, rs). length rs)") auto

definition lexWords :: "string \<Rightarrow> var_lookups option \<Rightarrow> nat \<Rightarrow> grub_err + string list" where
  "lexWords cmd lookup depth =
     (if depth > 5 then Inl NestTooDeep
      else case lex_loop lookup new_lexer cmd of
        Inl e \<Rightarrow> Inl e
      | Inr l \<Rightarrow> if lx_quote l \<noteq> None then Inl UnterminatedQuote else Inr (lx_words (lx_flush l)))"

text \<open>\<open>literalWords\<close> drops the error, and has no words then.\<close>

definition literalWords :: "string \<Rightarrow> string list" where
  "literalWords cmd = (case lexWords cmd None 0 of Inr ws \<Rightarrow> ws | Inl _ \<Rightarrow> [])"

definition cosmeticVars :: "string \<Rightarrow> bool" where
  "cosmeticVars name = (name = ''vt_handoff'')"

text \<open>\<open>expandWords\<close> on the variables of the script and those that are unsure.\<close>

definition var_lookup :: "(string \<rightharpoonup> string) \<Rightarrow> (string \<Rightarrow> bool) \<Rightarrow> (string \<rightharpoonup> string) \<Rightarrow> var_lookups" where
  "var_lookup vars unsure extra name =
     (case extra name of
        Some v \<Rightarrow> Inr (Fields v)
      | None \<Rightarrow>
          if cosmeticVars name then Inr []
          else case vars name of
            None \<Rightarrow> Inl (VarUnsure name)
          | Some v \<Rightarrow> if unsure name then Inl (VarUnsure name) else Inr (Fields v))"

definition expandWords ::
    "(string \<rightharpoonup> string) \<Rightarrow> (string \<Rightarrow> bool) \<Rightarrow> string \<Rightarrow> (string \<rightharpoonup> string) \<Rightarrow> grub_err + string list" where
  "expandWords vars unsure cmd extra = lexWords cmd (Some (var_lookup vars unsure extra)) 0"

subsection \<open>Quoting and lexing\<close>

text \<open>A command that quotes every word.\<close>

definition quote_word :: "string \<Rightarrow> string" where
  "quote_word w = squote # w @ [squote]"

definition quote_words :: "string list \<Rightarrow> string" where
  "quote_words ws = Join [blank] (map quote_word ws)"

lemma lex_quoted_run:
  "squote \<notin> set w \<Longrightarrow> lx_quote l = Some squote \<Longrightarrow>
   lex_loop lk l (w @ rest) = lex_loop lk (if w = [] then l else lx_add l w) rest"
proof (induction w arbitrary: l)
  case (Cons r w)
  let ?l = "lx_add l [r]"
  have "lx_quote ?l = Some squote" using Cons.prems by (simp add: lx_add_def)
  moreover have "lx_step lk l r (w @ rest) = Inr (?l, 0)"
    using Cons.prems by (auto simp: lx_step_def quoteRune_def Let_def)
  moreover have "(if w = [] then ?l else lx_add ?l w) = lx_add l (r # w)" by (simp add: lx_add_def)
  ultimately show ?case using Cons.IH [of ?l] Cons.prems by simp
qed simp

lemma lex_quote_word:
  assumes "squote \<notin> set w" "lx_quote l = None" "lx_cur l = []"
  shows "lex_loop lk l (quote_word w @ rest) = lex_loop lk (l\<lparr>lx_cur := w, lx_started := True\<rparr>) rest"
proof -
  let ?q = "l\<lparr>lx_quote := Some squote, lx_started := True\<rparr>"
  let ?w = "if w = [] then ?q else lx_add ?q w"
  have "lx_step lk l squote (w @ squote # rest) = Inr (?q, 0)"
    using assms by (simp add: lx_step_def quoteRune_def)
  then have "lex_loop lk l (quote_word w @ rest) = lex_loop lk ?q (w @ squote # rest)" by (simp add: quote_word_def)
  also have "\<dots> = lex_loop lk ?w (squote # rest)" using assms by (intro lex_quoted_run) simp_all
  also have "lx_step lk ?w squote rest = Inr (?w\<lparr>lx_quote := None\<rparr>, 0)"
    by (simp add: lx_step_def quoteRune_def lx_add_def)
  then have "lex_loop lk ?w (squote # rest) = lex_loop lk (?w\<lparr>lx_quote := None\<rparr>) rest" by simp
  also have "?w\<lparr>lx_quote := None\<rparr> = l\<lparr>lx_cur := w, lx_started := True\<rparr>"
    using assms by (cases l) (simp add: lx_add_def)
  finally show ?thesis .
qed

lemma lex_blank:
  "lx_quote l = None \<Longrightarrow> lex_loop lk l (blank # rest) = lex_loop lk (lx_flush l) rest"
  by (simp add: lx_step_def quoteRune_def)

lemma lex_quote_words:
  assumes "\<forall>w\<in>set ws. squote \<notin> set w" "ws \<noteq> []" "lx_quote l = None" "lx_cur l = []" "\<not> lx_started l"
  shows "\<exists>l'. lex_loop lk l (quote_words ws) = Inr l' \<and> lx_quote l' = None \<and> lx_words (lx_flush l') = lx_words l @ ws"
  using assms
proof (induction ws arbitrary: l)
  case (Cons w ws)
  note q = lex_quote_word [of w l lk] and prems = Cons.prems
  let ?l = "l\<lparr>lx_cur := w, lx_started := True\<rparr>"
  show ?case
  proof (cases ws)
    case Nil
    have "lex_loop lk l (quote_word w @ []) = lex_loop lk ?l []" using q [of "[]"] prems by simp
    then show ?thesis using Nil prems by (auto simp: quote_words_def lx_flush_def)
  next
    case (Cons v vs)
    have "lex_loop lk l (quote_words (w # ws)) = lex_loop lk (lx_flush ?l) (quote_words ws)"
      using q [of "blank # quote_words ws"] prems lex_blank [of ?l lk] Cons by (simp add: quote_words_def)
    with Cons.IH [of "lx_flush ?l"] prems Cons show ?thesis by (simp add: lx_flush_def)
  qed
qed simp

text \<open>Quoting protects: a command that puts each word in single quotes has exactly these words, with
  or without variables to expand, whatever blanks, dollars, semicolons or backslashes they contain.\<close>

theorem lex_quote_roundtrip:
  assumes "\<forall>w\<in>set ws. squote \<notin> set w"
  shows "lexWords (quote_words ws) lk 0 = Inr ws"
proof (cases "ws = []")
  case True
  then show ?thesis by (simp add: quote_words_def lexWords_def new_lexer_def lx_flush_def)
next
  case False
  from lex_quote_words [OF assms False, of new_lexer lk] show ?thesis
    by (auto simp: new_lexer_def lexWords_def)
qed

theorem lex_quote_roundtrip_witness:
  "lexWords (quote_words [''set'', ''a=$b;'', '''']) None 0 = Inr [''set'', ''a=$b;'', '''']"
  by (rule lex_quote_roundtrip) simp

text \<open>An expansion that succeeds looks at certain variables only: with another lookup that agrees with
  every value found, the words are the same.\<close>

lemma lx_expand_agree:
  assumes "\<And>name v. lk name = Inr v \<Longrightarrow> lk' name = Inr v" "lx_expand lk l rest quoted = Inr x"
  shows "lx_expand lk' l rest quoted = Inr x"
proof (cases "fst (varName rest) = []")
  case True
  then show ?thesis using assms(2) by (simp add: lx_expand_def split: prod.splits)
next
  case False
  then obtain v where v: "lk (fst (varName rest)) = Inr v"
    using assms(2) by (auto simp: lx_expand_def split: prod.splits sum.splits)
  from False assms(2) v assms(1) [OF v] show ?thesis by (simp add: lx_expand_def split: prod.splits)
qed

lemma lx_step_lookup:
  "lx_step (Some lk) l r rest =
     (if r = dollar \<and> lx_quote l \<noteq> Some squote \<and> \<not> snd (quoteRune l r) then lx_expand lk l rest (lx_quote l = Some dquote)
      else lx_step None l r rest)"
  by (cases "quoteRune l r"; cases "snd (quoteRune l r)") (auto simp: lx_step_def)

lemma lx_step_agree:
  assumes "\<And>name v. lk name = Inr v \<Longrightarrow> lk' name = Inr v" "lx_step (Some lk) l r rest = Inr x"
  shows "lx_step (Some lk') l r rest = Inr x"
  using assms(2) lx_expand_agree [OF assms(1)] unfolding lx_step_lookup by (auto split: if_split_asm)

lemma lex_loop_agree:
  assumes "\<And>name v. lk name = Inr v \<Longrightarrow> lk' name = Inr v"
  shows "lex_loop (Some lk) l cmd = Inr l' \<Longrightarrow> lex_loop (Some lk') l cmd = Inr l'"
proof (induction "length cmd" arbitrary: l cmd rule: less_induct)
  case less
  show ?case
  proof (cases cmd)
    case (Cons r rest)
    from less.prems Cons obtain l1 n where s: "lx_step (Some lk) l r rest = Inr (l1, n)" "lex_loop (Some lk) l1 (drop n rest) = Inr l'"
      by (auto split: sum.splits)
    have "lx_step (Some lk') l r rest = Inr (l1, n)"
      by (rule lx_step_agree [OF assms s(1)])
    with less.hyps [of "drop n rest" l1] s(2) Cons show ?thesis by simp
  qed (use less.prems in simp)
qed

lemma lexWords_agree:
  assumes "\<And>name v. lk name = Inr v \<Longrightarrow> lk' name = Inr v" "lexWords cmd (Some lk) depth = Inr ws"
  shows "lexWords cmd (Some lk') depth = Inr ws"
proof -
  from assms(2) obtain l where l: "lex_loop (Some lk) new_lexer cmd = Inr l"
    by (auto simp: lexWords_def split: sum.splits if_splits)
  have "lex_loop (Some lk') new_lexer cmd = Inr l" by (rule lex_loop_agree [OF assms(1) l])
  with l assms(2) show ?thesis unfolding lexWords_def by (simp split: if_splits)
qed

text \<open>The lexer fails with \<open>ErrUnsupported\<close> only.\<close>

lemma lx_step_error:
  assumes "\<And>name e. lk name = Inl e \<Longrightarrow> ErrUnsupported e" "lx_step (Some lk) l r rest = Inl e"
  shows "ErrUnsupported e"
proof -
  have "lx_step None l r rest \<noteq> Inl e" by (simp add: lx_step_def split: prod.splits)
  then have "lx_expand lk l rest (lx_quote l = Some dquote) = Inl e"
    using assms(2) unfolding lx_step_lookup by (simp split: if_splits)
  then show ?thesis using assms(1) by (auto simp: lx_expand_def split: prod.splits if_splits sum.splits)
qed

lemma lex_loop_error:
  assumes "\<And>name e. lk name = Inl e \<Longrightarrow> ErrUnsupported e"
  shows "lex_loop (Some lk) l cmd = Inl e \<Longrightarrow> ErrUnsupported e"
proof (induction "length cmd" arbitrary: l cmd rule: less_induct)
  case less
  show ?case
  proof (cases cmd)
    case (Cons r rest)
    show ?thesis
    proof (cases "lx_step (Some lk) l r rest")
      case (Inl e')
      then show ?thesis using less.prems Cons lx_step_error [OF assms Inl] by simp
    next
      case (Inr x)
      obtain l1 n where "x = (l1, n)" by (cases x)
      then show ?thesis using less.hyps [of "drop n rest" l1] less.prems Cons Inr by simp
    qed
  qed (use less.prems in simp)
qed

lemma expandWords_error: "expandWords vars unsure cmd extra = Inl e \<Longrightarrow> ErrUnsupported e"
proof -
  assume e: "expandWords vars unsure cmd extra = Inl e"
  have "ErrUnsupported e'" if "var_lookup vars unsure extra name = Inl e'" for name e'
    using that by (auto simp: var_lookup_def split: option.splits if_splits)
  with lex_loop_error [of "var_lookup vars unsure extra" new_lexer cmd] e show ?thesis
    by (auto simp: expandWords_def lexWords_def split: sum.splits if_splits)
qed

end
