(* ===== verification/Grub_Script.thy ===== *)
theory Grub_Script
  imports Grub_Words
begin

text \<open>
  The reader of grub.cfg (kexec/default.go): the entry that GRUB boots by default, for the scripts that
  grub-mkconfig writes, and an error for every other one.

  The items of a script are pointers that the reader changes while it is inside them; they live in a
  store, and their address is their position there. The stacks of blocks and of open menus have
  their top first. An index out of range is \<open>None\<close>.
\<close>

subsection \<open>Data\<close>

record branch =
  b_linux :: "string list"
  b_initrd :: "string list"

record grubItem =
  title :: string
  item_id :: string
  submenu :: bool
  children :: "nat list"
  linux :: "string list"
  initrd :: "string list"
  fb_then :: branch
  fb_else :: branch
  item_problem :: string
  conditional :: bool

datatype blockKind = BlockMenu | BlockSubmenu | BlockIf | BlockFunction | BlockLoop

fun kind_rank :: "blockKind \<Rightarrow> nat" where
  "kind_rank BlockMenu = 0"
| "kind_rank BlockSubmenu = 1"
| "kind_rank BlockIf = 2"
| "kind_rank BlockFunction = 3"
| "kind_rank BlockLoop = 4"

instantiation blockKind :: linorder
begin

definition less_eq_blockKind :: "blockKind \<Rightarrow> blockKind \<Rightarrow> bool" where
  "a \<le> b \<longleftrightarrow> kind_rank a \<le> kind_rank b"

definition less_blockKind :: "blockKind \<Rightarrow> blockKind \<Rightarrow> bool" where
  "a < b \<longleftrightarrow> kind_rank a < kind_rank b"

instance
proof
  fix a b :: blockKind
  show "a \<le> b \<Longrightarrow> b \<le> a \<Longrightarrow> a = b" by (cases a; cases b) (simp_all add: less_eq_blockKind_def)
qed (auto simp: less_eq_blockKind_def less_blockKind_def)

end

record block =
  bkind :: blockKind
  bcond :: string
  inElse :: bool

record defaultSet =
  ds_value :: string
  nextEntryElse :: bool

record grubScript =
  store :: "grubItem list"
  items :: "nat list"
  defaults :: "defaultSet list"
  vars :: "string \<rightharpoonup> string"
  unsure :: "string \<Rightarrow> bool"
  problem :: string

record BootEntry =
  beName :: string
  beKernel :: string
  beInitramfs :: string
  beKernelArgs :: string

definition nextEntryCond :: string where
  "nextEntryCond = ''[ '' @ [dquote] @ ''${next_entry}'' @ [dquote] @ '' ]''"

definition initrdfailCond :: string where
  "initrdfailCond = ''[ '' @ [dquote] @ ''${initrdfail}'' @ [dquote] @ '' = 1 ]''"

definition fail :: "string \<Rightarrow> grubScript \<Rightarrow> grubScript" where
  "fail msg s = (if problem s = [] then s\<lparr>problem := msg\<rparr> else s)"

definition add_unsure :: "string \<Rightarrow> grubScript \<Rightarrow> grubScript" where
  "add_unsure name s = s\<lparr>unsure := (unsure s)(name := True)\<rparr>"

subsection \<open>Blocks\<close>

fun strip_loop :: "string \<Rightarrow> string list \<Rightarrow> block list \<Rightarrow> string \<times> string list \<times> block list" where
  "strip_loop raw [] stack = (raw, [], stack)"
| "strip_loop raw (w # ws) stack =
     (if w \<in> {''then'', ''do'', ''else''} then
        strip_loop (TrimSpace (TrimPrefix (TrimSpace raw) w)) ws
          (case stack of
             b # bs \<Rightarrow> (if w = ''else'' \<and> bkind b = BlockIf then b\<lparr>inElse := True\<rparr> # bs else stack)
           | [] \<Rightarrow> stack)
      else (raw, w # ws, stack))"

definition stripKeywords :: "string \<Rightarrow> block list \<Rightarrow> string \<times> string list \<times> block list" where
  "stripKeywords raw stack = strip_loop raw (literalWords raw) stack"

definition normalizeCond :: "string \<Rightarrow> string" where
  "normalizeCond raw =
     (let cond = TrimSpace (TrimPrefix (TrimSpace raw) ''if'');
          cond = TrimSpace (TrimSuffix cond ''then'')
      in Join [blank] (Fields (TrimSuffix (TrimSpace cond) '';'')))"

fun new_item_loop :: "grubItem \<Rightarrow> string list \<Rightarrow> grubItem" where
  "new_item_loop it [] = it"
| "new_item_loop it (w # ws) =
     (if w = ''{'' then new_item_loop it ws
      else if title it = [] \<and> \<not> HasPrefix w ''-'' \<and> \<not> HasPrefix w ''$'' then new_item_loop (it\<lparr>title := w\<rparr>) ws
      else if HasPrefix w ''--id='' then new_item_loop (it\<lparr>item_id := TrimPrefix w ''--id=''\<rparr>) ws
      else if w \<in> {''--id'', ''$menuentry_id_option'', ''${menuentry_id_option}''} then
        (case ws of [] \<Rightarrow> it | v # vs \<Rightarrow> new_item_loop (it\<lparr>item_id := v\<rparr>) vs)
      else new_item_loop it ws)"

definition newGrubItem :: "string list \<Rightarrow> grubItem" where
  "newGrubItem words =
     new_item_loop
       \<lparr>title = [], item_id = [], submenu = (hd words = ''submenu''), children = [], linux = [], initrd = [],
        fb_then = \<lparr>b_linux = [], b_initrd = []\<rparr>, fb_else = \<lparr>b_linux = [], b_initrd = []\<rparr>,
        item_problem = [], conditional = False\<rparr> (tl words)"

text \<open>The state of the reader: the script, the blocks and the open menus.\<close>

record reader =
  script :: grubScript
  stack :: "block list"
  menus :: "nat list"

definition set_item :: "nat \<Rightarrow> (grubItem \<Rightarrow> grubItem) \<Rightarrow> grubScript \<Rightarrow> grubScript" where
  "set_item a f s = s\<lparr>store := (store s)[a := f (store s ! a)]\<rparr>"

definition openMenu :: "string list \<Rightarrow> reader \<Rightarrow> reader" where
  "openMenu words R =
     (let s = script R; a = length (store s);
          it = (newGrubItem words)\<lparr>conditional := list_ex (\<lambda>b. bkind b \<ge> BlockIf) (stack R)\<rparr>;
          s = s\<lparr>store := store s @ [it]\<rparr>;
          s = (case menus R of
                 m # _ \<Rightarrow> set_item m (\<lambda>p. p\<lparr>children := children p @ [a]\<rparr>) s
               | [] \<Rightarrow> s\<lparr>items := items s @ [a]\<rparr>);
          kind = (if submenu it then BlockSubmenu else BlockMenu)
      in R\<lparr>script := s, stack := \<lparr>bkind = kind, bcond = [], inElse = False\<rparr> # stack R, menus := a # menus R\<rparr>)"

definition closeBlock :: "string \<Rightarrow> reader \<Rightarrow> reader go" where
  "closeBlock word R =
     (case stack R of
        [] \<Rightarrow> Some R
      | b # bs \<Rightarrow>
          if word \<noteq> ''}'' \<and> bkind b < BlockIf then Some R
          else if bkind b \<le> BlockSubmenu
          then (case menus R of [] \<Rightarrow> None | _ # ms \<Rightarrow> Some (R\<lparr>menus := ms, stack := bs\<rparr>))
          else Some (R\<lparr>stack := bs\<rparr>))"

definition push_block :: "blockKind \<Rightarrow> string \<Rightarrow> reader \<Rightarrow> reader" where
  "push_block k c R = R\<lparr>stack := \<lparr>bkind = k, bcond = c, inElse = False\<rparr> # stack R\<rparr>"

text \<open>\<open>blockCommand\<close>: \<open>Some None\<close> for any other command.\<close>

definition blockCommand :: "string \<Rightarrow> string list \<Rightarrow> reader \<Rightarrow> reader option go" where
  "blockCommand raw words R =
     (let w = hd words in
      if w \<in> {''menuentry'', ''submenu''} then Some (Some (openMenu words R))
      else if w \<in> {''}'', ''fi'', ''done''} then map_option Some (closeBlock w R)
      else if w = ''if'' then Some (Some (push_block BlockIf (normalizeCond raw) R))
      else if w = ''elif'' then
        Some (Some (case stack R of
          b # bs \<Rightarrow> (if bkind b = BlockIf then R\<lparr>stack := b\<lparr>bcond := ''elif'', inElse := True\<rparr> # bs\<rparr> else R)
        | [] \<Rightarrow> R))
      else if w \<in> {''while'', ''until'', ''for''} then Some (Some (push_block BlockLoop [] R))
      else if w = ''function'' then
        (let s = (if length words \<noteq> 3 \<or> words ! 2 \<noteq> ''{''
                  then fail ''function definition with commands on its first line'' (script R) else script R)
         in Some (Some (push_block BlockFunction [] (R\<lparr>script := s\<rparr>))))
      else Some None)"

text \<open>\<open>currentEntry\<close>: the address of the menuentry that the command is in.\<close>

fun currentEntry :: "block list \<Rightarrow> nat list \<Rightarrow> nat option go" where
  "currentEntry [] ms = Some None"
| "currentEntry (b # bs) ms =
     (case bkind b of
        BlockMenu \<Rightarrow> (case ms of [] \<Rightarrow> None | m # _ \<Rightarrow> Some (Some m))
      | BlockSubmenu \<Rightarrow> Some None
      | _ \<Rightarrow> currentEntry bs ms)"

definition inner_blocks :: "block list \<Rightarrow> block list" where
  "inner_blocks stk = takeWhile (\<lambda>b. bkind b > BlockSubmenu) stk"

definition insideCondition :: "block list \<Rightarrow> bool" where
  "insideCondition stk = list_ex (\<lambda>b. bkind b = BlockIf \<or> bkind b = BlockLoop) (inner_blocks stk)"

subsection \<open>Commands of an entry\<close>

definition entryCommands :: "string list" where
  "entryCommands = [''insmod'', ''echo'', ''recordfail'', ''load_video'', ''gfxmode'', ''initrdfail'']"

definition linuxCommands :: "string list" where
  "linuxCommands = [''linux'', ''linux16'', ''linuxefi'']"

definition initrdCommands :: "string list" where
  "initrdCommands = [''initrd'', ''initrd16'', ''initrdefi'']"

definition initrdfailBranch :: "block list \<Rightarrow> bool option" where
  "initrdfailBranch stk =
     (case inner_blocks stk of
        [b] \<Rightarrow> if bkind b \<noteq> BlockIf \<or> bcond b \<noteq> initrdfailCond then None else Some (inElse b)
      | _ \<Rightarrow> None)"

fun root_target :: "string \<Rightarrow> string list \<Rightarrow> string" where
  "root_target target [] = target"
| "root_target target (w # ws) =
     root_target
       (if HasPrefix w ''--set='' then TrimPrefix w ''--set=''
        else if (w = ''--set'' \<or> w = ''-s'') \<and> ws \<noteq> [] then hd ws else target) ws"

definition setsOnlyRoot :: "string list \<Rightarrow> bool" where
  "setsOnlyRoot words = (root_target [] words = ''root'')"

definition entryProblem :: "string list \<Rightarrow> block list \<Rightarrow> string" where
  "entryProblem words stk =
     (let w = hd words in
      if w \<in> set linuxCommands \<or> w \<in> set initrdCommands then
        (if insideCondition stk then w @ '' command inside a condition'' else [])
      else if HasPrefix w ''linux$'' \<or> HasPrefix w ''linux${'' then ''kernel command '' @ w
      else if (w = ''set'' \<and> length words = 2 \<and> HasPrefix (words ! 1) ''root='')
              \<or> (w = ''search'' \<and> setsOnlyRoot words) \<or> w \<in> set entryCommands then []
      else ''command '' @ w)"

definition add_kernel :: "bool \<Rightarrow> string \<Rightarrow> branch \<Rightarrow> branch" where
  "add_kernel isLinux raw b =
     (if isLinux then b\<lparr>b_linux := b_linux b @ [raw]\<rparr> else b\<lparr>b_initrd := b_initrd b @ [raw]\<rparr>)"

definition entryCommand :: "string \<Rightarrow> string list \<Rightarrow> block list \<Rightarrow> grubItem \<Rightarrow> grubItem" where
  "entryCommand raw words stk e =
     (let isLinux = hd words \<in> set linuxCommands; isInitrd = hd words \<in> set initrdCommands in
      if initrdfailBranch stk \<noteq> None \<and> (isLinux \<or> isInitrd) then
        (if the (initrdfailBranch stk) then e\<lparr>fb_else := add_kernel isLinux raw (fb_else e)\<rparr>
         else e\<lparr>fb_then := add_kernel isLinux raw (fb_then e)\<rparr>)
      else
        let e = (if isLinux then e\<lparr>linux := linux e @ [raw]\<rparr>
                 else if isInitrd then e\<lparr>initrd := initrd e @ [raw]\<rparr> else e);
            p = entryProblem words stk
        in if p \<noteq> [] \<and> item_problem e = [] then e\<lparr>item_problem := p\<rparr> else e)"

subsection \<open>Commands outside entries\<close>

definition customSources :: "string list" where
  "customSources = [''${config_directory}/custom.cfg'', ''$prefix/custom.cfg'']"

definition topCommands :: "string list" where
  "topCommands = [''set'', ''export'', ''insmod'', ''save_env'', ''load_env'', ''terminal_input'',
     ''terminal_output'', ''terminal'', ''serial'', ''font'', ''loadfont'', ''load_video'', ''background_image'',
     ''echo'', ''true'', ''search'']"

definition generatedUnsets :: "string list" where
  "generatedUnsets = [''initrdless_boot_fallback_triggered'']"

fun setTargets :: "string list \<Rightarrow> string list" where
  "setTargets [] = []"
| "setTargets (w # ws) =
     (if HasPrefix w ''--set='' then TrimPrefix w ''--set='' # setTargets ws
      else if (w = ''--set'' \<or> w = ''-s'') \<and> ws \<noteq> [] then hd ws # setTargets ws
      else setTargets ws)"

definition assignedName :: "string list \<Rightarrow> string option" where
  "assignedName words =
     (let w = (if hd words = ''set'' \<and> length words > 1 then tl words else words) in
      if length w \<noteq> 1 then None
      else case Cut (hd w) CHR ''='' of
        (name, _, ok) \<Rightarrow> if \<not> ok \<or> name = [] \<or> ContainsAny name ''$ '' then None else Some name)"

definition checkSource :: "string list \<Rightarrow> bool \<Rightarrow> string" where
  "checkSource args customCfg =
     (if length args = 1 \<and> hd args \<in> set customSources \<and> \<not> customCfg then []
      else ''source '' @ Join [blank] args)"

text \<open>The table \<open>topChecks\<close>.\<close>

definition topChecks :: "string \<Rightarrow> (string list \<Rightarrow> bool \<Rightarrow> string) option" where
  "topChecks w =
     (if w = ''search'' then Some (\<lambda>args _. if ''default'' \<in> set (setTargets args) then ''search --set=default'' else [])
      else if w = ''blscfg'' then Some (\<lambda>_ _. ''BLS entries (blscfg)'')
      else if w = ''source'' \<or> w = ''.'' then Some checkSource
      else if w = ''load_env'' then
        Some (\<lambda>args _. if list_ex (\<lambda>w. w = ''-f'' \<or> HasPrefix w ''--file'') args then ''load_env from another file'' else [])
      else if w = ''unset'' then
        Some (\<lambda>args _. if length args = 1 \<and> hd args \<in> set generatedUnsets then [] else ''unset '' @ Join [blank] args)
      else if w = ''fwsetup'' then
        Some (\<lambda>args _. if args = [''--is-supported''] then [] else ''command fwsetup'')
      else None)"

definition topProblem :: "string list \<Rightarrow> bool \<Rightarrow> string" where
  "topProblem words customCfg =
     (case topChecks (hd words) of
        Some check \<Rightarrow> check (tl words) customCfg
      | None \<Rightarrow>
          if hd words \<in> set topCommands then []
          else if assignedName words \<noteq> None then []
          else ''command '' @ hd words)"

definition functionProblem :: "string list \<Rightarrow> bool \<Rightarrow> string" where
  "functionProblem words customCfg =
     (if assignedName words = Some ''default'' then ''set default''
      else if hd words \<in> {''source'', ''.'', ''configfile''} then hd words
      else if HasPrefix (hd words) ''linux'' \<or> HasPrefix (hd words) ''initrd'' then hd words
      else if hd words \<in> set entryCommands then []
      else topProblem words customCfg)"

definition defaultAssignment :: "string \<Rightarrow> block list \<Rightarrow> grubScript \<Rightarrow> grubScript" where
  "defaultAssignment rawValue stk s =
     (let value = Join [blank] (literalWords rawValue);
          generated = (length stk = 1 \<and> bkind (hd stk) = BlockIf \<and> bcond (hd stk) = nextEntryCond) in
      if stk = [] then s\<lparr>defaults := defaults s @ [\<lparr>ds_value = rawValue, nextEntryElse = False\<rparr>]\<rparr>
      else if generated \<and> \<not> inElse (hd stk) \<and> value = ''${next_entry}'' then s
      else if generated \<and> inElse (hd stk)
      then s\<lparr>defaults := defaults s @ [\<lparr>ds_value = rawValue, nextEntryElse = True\<rparr>]\<rparr>
      else fail (''conditional default '' @ value) s)"

text \<open>What is after the first \<open>=\<close>; all of it without one.\<close>

definition after_equals :: "string \<Rightarrow> string" where
  "after_equals raw = (case Cut raw CHR ''='' of (_, v, ok) \<Rightarrow> if ok then v else raw)"

definition assignment :: "string \<Rightarrow> string list \<Rightarrow> block list \<Rightarrow> bool \<Rightarrow> grubScript \<Rightarrow> grubScript" where
  "assignment raw words stk inBlock s =
     (case assignedName words of
        None \<Rightarrow> s
      | Some name \<Rightarrow>
         (let rawValue = TrimSpace (after_equals raw) in
          if name = ''default'' then defaultAssignment rawValue stk s
          else if vars s name \<noteq> None \<or> inBlock then add_unsure name s
          else case expandWords (vars s) (unsure s) rawValue Map.empty of
            Inl _ \<Rightarrow> add_unsure name s
          | Inr value \<Rightarrow> s\<lparr>vars := (vars s)(name \<mapsto> Join [blank] value)\<rparr>))"

definition topCommand :: "string \<Rightarrow> string list \<Rightarrow> block list \<Rightarrow> bool \<Rightarrow> grubScript \<Rightarrow> grubScript go" where
  "topCommand raw words stk customCfg s =
     (if list_ex (\<lambda>b. bkind b = BlockFunction) stk then
        Some (let p = functionProblem words customCfg in
          if p \<noteq> [] then fail (''function body: '' @ p) s
          else case assignedName words of Some name \<Rightarrow> add_unsure name s | None \<Rightarrow> s)
      else if topProblem words customCfg \<noteq> [] then Some (fail (topProblem words customCfg) s)
      else if hd words = ''unset'' then do { w \<leftarrow> idx words 1; Some (add_unsure w s) }
      else if hd words = ''search'' then Some (fold add_unsure (setTargets words) s)
      else Some (assignment raw words stk (stk \<noteq> []) s))"

subsection \<open>The reader\<close>

definition grub_command :: "bool \<Rightarrow> string \<Rightarrow> reader \<Rightarrow> reader go" where
  "grub_command customCfg raw R =
     (case stripKeywords raw (stack R) of
        (raw, words, stk) \<Rightarrow>
          let R = R\<lparr>stack := stk\<rparr> in
          if words = [] \<or> HasPrefix (hd words) ''#'' then Some R
          else do {
            B \<leftarrow> blockCommand raw words R;
            case B of
              Some R \<Rightarrow> Some R
            | None \<Rightarrow> do {
                E \<leftarrow> currentEntry (stack R) (menus R);
                case E of
                  Some a \<Rightarrow> Some (R\<lparr>script := set_item a (entryCommand raw words (stack R)) (script R)\<rparr>)
                | None \<Rightarrow> do {
                    s \<leftarrow> topCommand raw words (stack R) customCfg (script R);
                    Some (R\<lparr>script := s\<rparr>)
                  }
              }
          })"

fun grub_commands :: "bool \<Rightarrow> string list \<Rightarrow> reader \<Rightarrow> reader go" where
  "grub_commands customCfg [] R = Some R"
| "grub_commands customCfg (c # cs) R = Option.bind (grub_command customCfg c R) (grub_commands customCfg cs)"

definition new_reader :: reader where
  "new_reader =
     \<lparr>script = \<lparr>store = [], items = [], defaults = [], vars = Map.empty, unsure = \<lambda>_. False, problem = []\<rparr>,
      stack = [], menus = []\<rparr>"

definition commands_of :: "string \<Rightarrow> string list" where
  "commands_of txt = concat (map splitCommands (Split CHR 0x0A txt))"

definition parseGrubScript :: "string \<Rightarrow> bool \<Rightarrow> grubScript go" where
  "parseGrubScript txt customCfg = map_option script (grub_commands customCfg (commands_of txt) new_reader)"

subsection \<open>The default\<close>

definition applyGrubenv :: "(string \<rightharpoonup> string) \<Rightarrow> grubScript \<Rightarrow> grub_err + grubScript" where
  "applyGrubenv env s =
     (if env ''default'' \<noteq> None then Inl (GrubenvSets ''default'')
      else Inr (s\<lparr>unsure := \<lambda>n. unsure s n \<or> env n \<noteq> None\<rparr>))"

definition env_get :: "(string \<rightharpoonup> string) \<Rightarrow> string \<Rightarrow> string" where
  "env_get env k = (case env k of Some v \<Rightarrow> v | None \<Rightarrow> [])"

fun default_loop :: "grubScript \<Rightarrow> string \<Rightarrow> string \<Rightarrow> defaultSet list \<Rightarrow> grub_err + string" where
  "default_loop s saved spec [] = Inr spec"
| "default_loop s saved spec (d # ds) =
     (case expandWords (vars s) (unsure s) (ds_value d) [''saved_entry'' \<mapsto> saved] of
        Inl e \<Rightarrow> Inl (DefaultError e)
      | Inr words \<Rightarrow> default_loop s saved (Join [blank] words) ds)"

definition refusedKeys :: "string list" where
  "refusedKeys = [''next_entry'', ''prev_saved_entry'', ''initrdfail'', ''prev_entry'']"

definition defaultSpec :: "(string \<rightharpoonup> string) \<Rightarrow> grubScript \<Rightarrow> grub_err + string" where
  "defaultSpec env s =
     (case find (\<lambda>k. env_get env k \<noteq> []) refusedKeys of
        Some key \<Rightarrow> Inl (GrubenvSets key)
      | None \<Rightarrow>
         (case default_loop s (env_get env ''saved_entry'') ''0'' (defaults s) of
            Inl e \<Rightarrow> Inl e
          | Inr spec \<Rightarrow> Inr (if spec = [] then ''0'' else spec)))"

definition isDecimal :: "string \<Rightarrow> bool" where
  "isDecimal s =
     (if s = [] \<or> (s \<noteq> ''0'' \<and> hd s = CHR ''0'') then False else \<forall>c\<in>set s. IsDigit c)"

text \<open>\<open>strconv.Atoi\<close> of decimal digits: \<open>None\<close> past the largest int.\<close>

definition Atoi :: "string \<Rightarrow> nat option" where
  "Atoi s =
     (let n = foldl (\<lambda>n c. 10 * n + (of_char c - 48)) (0 :: int) s
      in if n < 9223372036854775808 then Some (nat n) else None)"

definition findItem :: "grubScript \<Rightarrow> nat list \<Rightarrow> string \<Rightarrow> nat option" where
  "findItem s its part =
     (if isDecimal part then
        (case Atoi part of
           None \<Rightarrow> None
         | Some n \<Rightarrow>
             if n \<ge> length its \<or> list_ex (\<lambda>a. conditional (store s ! a)) (take (n + 1) its) then None
             else Some (its ! n))
      else if \<forall>c\<in>set part. c \<in> set ''+-0123456789'' then None
      else case find (\<lambda>a. item_id (store s ! a) = part \<or> title (store s ! a) = part) its of
        None \<Rightarrow> None
      | Some a \<Rightarrow> if conditional (store s ! a) then None else Some a)"

fun resolve_loop :: "grubScript \<Rightarrow> string \<Rightarrow> nat list \<Rightarrow> nat option \<Rightarrow> string list \<Rightarrow> grub_err + nat option" where
  "resolve_loop s spec its it [] = Inr it"
| "resolve_loop s spec its it (part # parts) =
     (case findItem s its part of
        None \<Rightarrow> Inl (NoEntry part spec)
      | Some a \<Rightarrow> resolve_loop s spec (children (store s ! a)) (Some a) parts)"

definition resolve :: "grubScript \<Rightarrow> string \<Rightarrow> grub_err + nat" where
  "resolve s spec =
     (case resolve_loop s spec (items s) None (Split CHR ''>'' spec) of
        Inl e \<Rightarrow> Inl e
      | Inr None \<Rightarrow> Inl (IsSubmenu spec)
      | Inr (Some a) \<Rightarrow> if submenu (store s ! a) then Inl (IsSubmenu spec) else Inr a)"

definition kernelArg :: "string \<Rightarrow> grub_err + string" where
  "kernelArg w =
     (if dquote \<in> set w then Inl ArgQuote
      else if ContainsAny w [blank, tab] then Inr (dquote # w @ [dquote])
      else Inr w)"

fun kernel_args_loop :: "string list \<Rightarrow> string list \<Rightarrow> grub_err + string list" where
  "kernel_args_loop out [] = Inr out"
| "kernel_args_loop out (w # ws) =
     (case kernelArg w of Inl e \<Rightarrow> Inl e | Inr a \<Rightarrow> kernel_args_loop (out @ [a]) ws)"

definition kernelArgs :: "string list \<Rightarrow> grub_err + string" where
  "kernelArgs words = (case kernel_args_loop [] words of Inl e \<Rightarrow> Inl e | Inr out \<Rightarrow> Inr (Join [blank] out))"

definition useInitrdFallback :: "grubItem \<Rightarrow> grub_err + grubItem" where
  "useInitrdFallback it =
     (let t = fb_then it; e = fb_else it in
      if length (b_linux t) + length (b_initrd t) + length (b_linux e) + length (b_initrd e) = 0 then Inr it
      else if length (linux it) > 0 \<or> length (initrd it) > 0 then Inl (FallbackMixed (title it))
      else if length (b_linux t) \<noteq> 1 \<or> length (b_initrd t) \<noteq> 1 \<or> length (b_linux e) \<noteq> 1 \<or> length (b_initrd e) \<noteq> 0
      then Inl (FallbackShape (title it))
      else
        let thenWords = literalWords (hd (b_linux t)); elseWords = literalWords (hd (b_linux e)) in
        if length thenWords < 2 \<or> elseWords \<noteq> thenWords @ [''panic=-1''] then Inl (FallbackDiffers (title it))
        else Inr (it\<lparr>linux := b_linux t, initrd := b_initrd t\<rparr>))"

definition initrd_file :: "grubScript \<Rightarrow> grubItem \<Rightarrow> grub_err + string" where
  "initrd_file s it =
     (if length (initrd it) = 1 then
        (case expandWords (vars s) (unsure s) (hd (initrd it)) Map.empty of
           Inl _ \<Rightarrow> Inl (InitrdFile (title it))
         | Inr ws \<Rightarrow> if length ws \<noteq> 2 then Inl (InitrdFile (title it)) else Inr (ws ! 1))
      else Inr [])"

definition bootEntry :: "grubScript \<Rightarrow> grubItem \<Rightarrow> grub_err + BootEntry" where
  "bootEntry s it0 =
     (case useInitrdFallback it0 of
        Inl e \<Rightarrow> Inl e
      | Inr it \<Rightarrow>
          if item_problem it \<noteq> [] then Inl (EntryProblem (title it) (item_problem it))
          else if length (linux it) \<noteq> 1 then Inl (LinuxCount (title it) (length (linux it)))
          else if length (initrd it) > 1 then Inl (InitrdCount (title it) (length (initrd it)))
          else case expandWords (vars s) (unsure s) (hd (linux it)) Map.empty of
            Inl e \<Rightarrow> Inl (EntryError (title it) e)
          | Inr words \<Rightarrow>
              if length words < 2 then Inl (NoKernel (title it))
              else case kernelArgs (drop 2 words) of
                Inl e \<Rightarrow> Inl (EntryError (title it) e)
              | Inr args \<Rightarrow>
                 (case initrd_file s it of
                    Inl e \<Rightarrow> Inl e
                  | Inr file \<Rightarrow> Inr \<lparr>beName = title it, beKernel = words ! 1, beInitramfs = file, beKernelArgs = args\<rparr>))"

subsection \<open>The installed root\<close>

text \<open>A file of the root: its text, or how reading it fails.\<close>

datatype grub_file = FileData string | NotExist | Unreadable

definition readGrubenv :: "grub_file \<Rightarrow> string \<rightharpoonup> string" where
  "readGrubenv f =
     (case f of
        FileData d \<Rightarrow>
          foldl (\<lambda>env line. case Cut line CHR ''='' of
              (name, value, ok) \<Rightarrow> if ok \<and> \<not> HasPrefix line ''#'' then env(TrimSpace name \<mapsto> TrimSpace value) else env)
            Map.empty (Split CHR 0x0A d)
      | _ \<Rightarrow> Map.empty)"

definition grubDirs :: "string list" where
  "grubDirs = [''boot/grub'', ''boot/grub2'']"

fun read_config_loop :: "(string \<Rightarrow> grub_file) \<Rightarrow> string list \<Rightarrow> grub_err + (string \<times> string) option" where
  "read_config_loop fs [] = Inr None"
| "read_config_loop fs (d # ds) =
     (case fs (d @ ''/grub.cfg'') of
        FileData txt \<Rightarrow> Inr (Some (d, txt))
      | Unreadable \<Rightarrow> Inl (ReadError (d @ ''/grub.cfg''))
      | NotExist \<Rightarrow> read_config_loop fs ds)"

text \<open>\<open>readGrubConfig\<close>: the directory of the configuration and its text. \<open>bls\<close> tells whether the root has BLS
  entries.\<close>

definition readGrubConfig :: "(string \<Rightarrow> grub_file) \<Rightarrow> bool \<Rightarrow> grub_err + string \<times> string" where
  "readGrubConfig fs bls =
     (case read_config_loop fs grubDirs of
        Inl e \<Rightarrow> Inl e
      | Inr (Some c) \<Rightarrow> Inr c
      | Inr None \<Rightarrow> Inl (if bls then BLSOnly else NoGrubCfg))"

definition default_of_script :: "string \<Rightarrow> (string \<rightharpoonup> string) \<Rightarrow> grubScript \<Rightarrow> grub_err + BootEntry" where
  "default_of_script cfgPath env s =
     (if problem s \<noteq> [] then Inl (ScriptProblem cfgPath (problem s))
      else case applyGrubenv env s of
        Inl e \<Rightarrow> Inl e
      | Inr s \<Rightarrow>
         (case defaultSpec env s of
            Inl e \<Rightarrow> Inl e
          | Inr spec \<Rightarrow>
             (case resolve s spec of
                Inl e \<Rightarrow> Inl e
              | Inr a \<Rightarrow> bootEntry s (store s ! a))))"

text \<open>\<open>DefaultEntry\<close>; \<open>exists\<close> tells whether \<open>Stat\<close> finds a path.\<close>

definition DefaultEntry :: "(string \<Rightarrow> grub_file) \<Rightarrow> (string \<Rightarrow> bool) \<Rightarrow> bool \<Rightarrow> (grub_err + BootEntry) go" where
  "DefaultEntry fs exists bls =
     (case readGrubConfig fs bls of
        Inl e \<Rightarrow> Some (Inl e)
      | Inr (d, txt) \<Rightarrow> do {
          s \<leftarrow> parseGrubScript txt (exists (d @ ''/custom.cfg''));
          Some (default_of_script (d @ ''/grub.cfg'') (readGrubenv (fs (d @ ''/grubenv''))) s)
        })"

subsection \<open>The reader is total\<close>

text \<open>There is an open menu for every open menu block, and the addresses are in the store.\<close>

definition open_menus :: "block list \<Rightarrow> nat" where
  "open_menus stk = length (filter (\<lambda>b. bkind b \<le> BlockSubmenu) stk)"

definition between :: "nat \<Rightarrow> nat \<Rightarrow> nat \<Rightarrow> bool" where
  "between i n a \<longleftrightarrow> i < a \<and> a < n"

definition store_ok :: "grubScript \<Rightarrow> bool" where
  "store_ok s \<longleftrightarrow> (\<forall>a\<in>set (items s). a < length (store s))
     \<and> (\<forall>i<length (store s). list_all (between i (length (store s))) (children (store s ! i)))"

definition reader_ok :: "reader \<Rightarrow> bool" where
  "reader_ok R \<longleftrightarrow> open_menus (stack R) = length (menus R) \<and> (\<forall>m\<in>set (menus R). m < length (store (script R)))
     \<and> store_ok (script R)"

lemmas kind_order = less_eq_blockKind_def less_blockKind_def

lemma strip_loop_menus: "strip_loop raw ws stk = (raw', ws', stk') \<Longrightarrow> open_menus stk' = open_menus stk"
  by (induction raw ws stk rule: strip_loop.induct)
     (auto simp: open_menus_def kind_order split: if_splits list.splits)

lemma strip_menus: "stripKeywords raw stk = (raw', ws', stk') \<Longrightarrow> open_menus stk' = open_menus stk"
  by (simp add: stripKeywords_def strip_loop_menus)

lemma new_item_children [simp]: "children (new_item_loop it ws) = children it"
  by (induction it ws rule: new_item_loop.induct) (auto split: list.splits)

lemma between_Suc: "list_all (between i n) as \<Longrightarrow> list_all (between i (Suc n)) as"
  by (auto simp: between_def list_all_iff)

lemma alloc_root_ok:
  assumes "store_ok s" "children it = []"
  shows "store_ok (s\<lparr>store := store s @ [it], items := items s @ [length (store s)]\<rparr>)"
  using assms by (auto simp: store_ok_def nth_append less_Suc_eq between_Suc)

lemma alloc_child_ok:
  assumes "store_ok s" "children it = []" "m < length (store s)"
  shows "store_ok (set_item m (\<lambda>p. p\<lparr>children := children p @ [length (store s)]\<rparr>) (s\<lparr>store := store s @ [it]\<rparr>))"
proof -
  have "between m (Suc (length (store s))) (length (store s))" using assms(3) by (simp add: between_def)
  with assms show ?thesis
    by (auto simp: store_ok_def set_item_def nth_append nth_list_update less_Suc_eq between_Suc)
qed

lemma openMenu_ok:
  assumes "reader_ok R"
  shows "reader_ok (openMenu words R)"
proof -
  define it where "it = (newGrubItem words)\<lparr>conditional := list_ex (\<lambda>b. bkind b \<ge> BlockIf) (stack R)\<rparr>"
  have c: "children it = []" by (simp add: it_def newGrubItem_def)
  note parts = assms [unfolded reader_ok_def]
  have s: "script (openMenu words R) = (case menus R of
      m # _ \<Rightarrow> set_item m (\<lambda>p. p\<lparr>children := children p @ [length (store (script R))]\<rparr>) ((script R)\<lparr>store := store (script R) @ [it]\<rparr>)
    | [] \<Rightarrow> (script R)\<lparr>store := store (script R) @ [it], items := items (script R) @ [length (store (script R))]\<rparr>)"
    by (cases "menus R") (simp_all add: openMenu_def it_def Let_def)
  have "store_ok (script (openMenu words R))"
    using s parts alloc_root_ok [OF _ c, of "script R"] alloc_child_ok [OF _ c, of "script R"] by (cases "menus R") simp_all
  moreover have "length (store (script (openMenu words R))) = Suc (length (store (script R)))"
    using s by (cases "menus R") (simp_all add: set_item_def)
  moreover have "menus (openMenu words R) = length (store (script R)) # menus R"
    "open_menus (stack (openMenu words R)) = Suc (open_menus (stack R))"
    by (simp_all add: openMenu_def Let_def open_menus_def kind_order)
  ultimately show ?thesis using parts by (auto simp: reader_ok_def less_Suc_eq)
qed

lemma closeBlock_ok:
  assumes "reader_ok R"
  shows "\<exists>R'. closeBlock w R = Some R' \<and> reader_ok R'"
proof (cases "stack R")
  case (Cons b bs)
  show ?thesis
  proof (cases "bkind b \<le> BlockSubmenu")
    case True
    with assms Cons obtain m ms where "menus R = m # ms"
      by (cases "menus R") (auto simp: reader_ok_def open_menus_def)
    with assms Cons True show ?thesis by (auto simp: closeBlock_def reader_ok_def open_menus_def)
  next
    case False
    with assms Cons show ?thesis by (auto simp: closeBlock_def reader_ok_def open_menus_def)
  qed
qed (use assms in \<open>simp add: closeBlock_def\<close>)

lemma fail_store [simp]: "store (fail m s) = store s" "items (fail m s) = items s"
  by (simp_all add: fail_def)

lemma blockCommand_ok:
  assumes "reader_ok R"
  shows "\<exists>B. blockCommand raw words R = Some B \<and> (case B of Some R' \<Rightarrow> reader_ok R' | None \<Rightarrow> True)"
  using openMenu_ok [OF assms, of words] closeBlock_ok [OF assms, of "hd words"] assms
  by (auto simp: blockCommand_def Let_def push_block_def reader_ok_def open_menus_def kind_order store_ok_def split: list.splits)

lemma currentEntry_ok: "open_menus stk = length ms \<Longrightarrow> \<exists>E. currentEntry stk ms = Some E"
  by (induction stk ms rule: currentEntry.induct)
     (auto simp: open_menus_def kind_order split: blockKind.splits list.splits)

lemma entryCommand_children [simp]: "children (entryCommand raw words stk e) = children e"
  by (simp add: entryCommand_def Let_def)

lemma set_entry_ok: "store_ok s \<Longrightarrow> store_ok (set_item a (entryCommand raw words stk) s)"
  by (cases "a < length (store s)") (auto simp: store_ok_def set_item_def nth_list_update)

lemma add_unsure_store [simp]: "store (add_unsure n s) = store s" "items (add_unsure n s) = items s"
  by (simp_all add: add_unsure_def)

lemma fold_unsure_store [simp]: "store (fold add_unsure ns s) = store s" "items (fold add_unsure ns s) = items s"
  by (induction ns arbitrary: s) simp_all

lemma assignment_store [simp]:
  "store (assignment raw words stk b s) = store s" "items (assignment raw words stk b s) = items s"
  by (simp_all add: assignment_def defaultAssignment_def Let_def split: option.splits sum.splits)

lemma topCommand_ok:
  "\<exists>s'. topCommand raw words stk customCfg s = Some s' \<and> store s' = store s \<and> items s' = items s"
proof (cases "hd words = ''unset'' \<and> topProblem words customCfg = []")
  case True
  then have "1 < length words" by (auto simp: topProblem_def topChecks_def split: if_splits)
  with True show ?thesis by (auto simp: topCommand_def Let_def idx_def split: option.splits)
qed (auto simp: topCommand_def Let_def split: option.splits)

lemma command_ok:
  assumes "reader_ok R"
  shows "\<exists>R'. grub_command customCfg raw R = Some R' \<and> reader_ok R'"
proof -
  obtain raw' words stk where k: "stripKeywords raw (stack R) = (raw', words, stk)" by (metis prod_cases3)
  let ?R = "R\<lparr>stack := stk\<rparr>"
  have ok: "reader_ok ?R" using assms strip_menus [OF k] by (simp add: reader_ok_def)
  obtain B where B: "blockCommand raw' words ?R = Some B" "case B of Some R' \<Rightarrow> reader_ok R' | None \<Rightarrow> True"
    using blockCommand_ok [OF ok] by blast
  obtain E where E: "currentEntry stk (menus R) = Some E"
    using currentEntry_ok [of stk "menus R"] ok by (auto simp: reader_ok_def)
  obtain s where s: "topCommand raw' words stk customCfg (script R) = Some s"
    "store s = store (script R)" "items s = items (script R)" using topCommand_ok by blast
  have "reader_ok (?R\<lparr>script := s\<rparr>)" using ok s(2,3) by (simp add: reader_ok_def store_ok_def)
  moreover have "reader_ok (?R\<lparr>script := set_item a (entryCommand raw' words stk) (script R)\<rparr>)" for a
    using ok set_entry_ok [of "script R"] by (simp add: reader_ok_def set_item_def)
  ultimately show ?thesis using k ok B E s by (cases B; cases E) (auto simp: grub_command_def Let_def)
qed

lemma grub_commands_ok: "reader_ok R \<Longrightarrow> \<exists>R'. grub_commands customCfg cs R = Some R' \<and> reader_ok R'"
proof (induction cs arbitrary: R)
  case (Cons c cs)
  from command_ok [OF Cons.prems] obtain R1 where "grub_command customCfg c R = Some R1" "reader_ok R1" by blast
  with Cons.IH [of R1] show ?case by simp
qed simp

lemma new_reader_ok: "reader_ok new_reader"
  by (simp add: reader_ok_def new_reader_def open_menus_def store_ok_def)

lemma parse_ok: "\<exists>s. parseGrubScript txt customCfg = Some s \<and> store_ok s"
  using grub_commands_ok [OF new_reader_ok, of customCfg "commands_of txt"]
  by (auto simp: parseGrubScript_def reader_ok_def)

subsection \<open>Every refusal is a reboot\<close>

lemma kernel_args_error: "kernel_args_loop out ws = Inl e \<Longrightarrow> ErrUnsupported e"
  by (induction out ws rule: kernel_args_loop.induct) (auto simp: kernelArg_def split: sum.splits if_splits)

lemma default_loop_error: "default_loop s saved spec ds = Inl e \<Longrightarrow> ErrUnsupported e"
  by (induction s saved spec ds rule: default_loop.induct) (auto split: sum.splits dest: expandWords_error)

lemma resolve_loop_error: "resolve_loop s spec its it ps = Inl e \<Longrightarrow> ErrUnsupported e"
  by (induction s spec its it ps rule: resolve_loop.induct) (auto split: option.splits)

lemma fallback_error: "useInitrdFallback it = Inl e \<Longrightarrow> ErrUnsupported e"
  by (auto simp: useInitrdFallback_def Let_def split: if_splits)

lemma initrd_file_error: "initrd_file s it = Inl e \<Longrightarrow> ErrUnsupported e"
  by (auto simp: initrd_file_def split: if_splits sum.splits)

lemma bootEntry_error: "bootEntry s it = Inl e \<Longrightarrow> ErrUnsupported e"
  by (auto simp: bootEntry_def kernelArgs_def split: sum.splits if_splits
      dest: fallback_error initrd_file_error expandWords_error kernel_args_error)

lemma defaultSpec_error: "defaultSpec env s = Inl e \<Longrightarrow> ErrUnsupported e"
  by (auto simp: defaultSpec_def split: option.splits sum.splits dest: default_loop_error)

lemma resolve_error: "resolve s spec = Inl e \<Longrightarrow> ErrUnsupported e"
  by (auto simp: resolve_def split: sum.splits option.splits if_splits dest: resolve_loop_error)

lemma default_of_script_error: "default_of_script path env s = Inl e \<Longrightarrow> ErrUnsupported e"
  by (auto simp: default_of_script_def applyGrubenv_def split: if_splits sum.splits
      dest: defaultSpec_error resolve_error bootEntry_error)

text \<open>C19: For every installed root, whatever its grub.cfg and grubenv contain, the search for the default
  entry ends without a panic, and every failure apart from reading grub.cfg is \<open>ErrUnsupported\<close>, the
  error for which the caller reboots through the firmware.\<close>

theorem default_entry_total:
  "\<exists>res. DefaultEntry fs exists bls = Some res
     \<and> (case res of Inl e \<Rightarrow> ErrUnsupported e \<or> readGrubConfig fs bls = Inl e | Inr _ \<Rightarrow> True)"
proof (cases "readGrubConfig fs bls")
  case (Inr c)
  obtain d t where c: "c = (d, t)" by (cases c)
  obtain s where "parseGrubScript t (exists (d @ ''/custom.cfg'')) = Some s" using parse_ok by blast
  with Inr c show ?thesis
    by (auto simp: DefaultEntry_def split: sum.splits dest: default_of_script_error)
qed (simp add: DefaultEntry_def)

end
