(* ===== verification/Grub_Exec.thy ===== *)
theory Grub_Exec
  imports Grub_Script
begin

text \<open>
  What the default entry of kexec/default.go is worth: a specification of how GRUB runs the script that
  the reader has only read, and the lemma that the kernel and the arguments found are those that GRUB
  computes.

  GRUB runs a command outside every block once, in order. A command in an \<open>if\<close>, a loop, a submenu or a
  function may run or not, also later and more than once, so from then on the variables that it
  writes have any value. The same holds for the variables of grubenv, which \<open>load_env\<close> imports.
\<close>

subsection \<open>GRUB\<close>

type_synonym genv = "string \<Rightarrow> string"

text \<open>An unset variable is empty; the variables of the console handover are empty in text mode.\<close>

definition grub_lookup :: "genv \<Rightarrow> var_lookups" where
  "grub_lookup env name = (if cosmeticVars name then Inr [] else Inr (Fields (env name)))"

definition grub_words :: "genv \<Rightarrow> string \<Rightarrow> string list" where
  "grub_words env cmd = (case lexWords cmd (Some (grub_lookup env)) 0 of Inr ws \<Rightarrow> ws | Inl _ \<Rightarrow> [])"

text \<open>The raw text, the words and the blocks of a command outside entries that opens and closes no
  block.\<close>

definition plain_command :: "string \<Rightarrow> reader \<Rightarrow> (string \<times> string list \<times> block list) option" where
  "plain_command c R =
     (case stripKeywords c (stack R) of (raw, words, stk) \<Rightarrow>
        if words = [] \<or> HasPrefix (hd words) ''#'' \<or> blockCommand raw words (R\<lparr>stack := stk\<rparr>) \<noteq> Some None
           \<or> currentEntry stk (menus R) \<noteq> Some None
        then None else Some (raw, words, stk))"

text \<open>A command outside every block assigns now.\<close>

definition grub_assign :: "string \<Rightarrow> reader \<Rightarrow> genv \<Rightarrow> genv" where
  "grub_assign c R env =
     (case plain_command c R of
        Some (raw, words, []) \<Rightarrow>
          (case assignedName words of
             Some name \<Rightarrow> env(name := Join [blank] (grub_words env (TrimSpace (after_equals raw))))
           | None \<Rightarrow> env)
      | _ \<Rightarrow> env)"

text \<open>The variables that a command may write from now on: those it assigns inside a block, and the
  targets of \<open>search\<close> and \<open>unset\<close> outside functions.\<close>

definition maybe_writes :: "string \<Rightarrow> reader \<Rightarrow> string set" where
  "maybe_writes c R =
     (case plain_command c R of
        None \<Rightarrow> {}
      | Some (raw, words, stk) \<Rightarrow>
          if list_ex (\<lambda>b. bkind b = BlockFunction) stk then set_option (assignedName words)
          else if hd words = ''unset'' then set (tl words)
          else if hd words = ''search'' then set (setTargets words)
          else if stk \<noteq> [] then set_option (assignedName words) else {})"

text \<open>A run of GRUB over the commands: before and after it, the variables with any value (\<open>W\<close>), the place
  in the script and the environment.\<close>

inductive grub_exec ::
    "bool \<Rightarrow> string set \<Rightarrow> string set \<Rightarrow> string list \<Rightarrow> reader \<Rightarrow> genv \<Rightarrow> string set \<Rightarrow> reader \<Rightarrow> genv \<Rightarrow> bool"
  for customCfg :: bool and E :: "string set" where
  exec_end: "grub_exec customCfg E W [] R env W R env"
| exec_command: "grub_command customCfg c R = Some R1 \<Longrightarrow> W1 = W \<union> maybe_writes c R
    \<Longrightarrow> (\<And>n. n \<notin> W1 \<union> E \<Longrightarrow> env1 n = grub_assign c R env n)
    \<Longrightarrow> grub_exec customCfg E W1 cs R1 env1 W' R' env'
    \<Longrightarrow> grub_exec customCfg E W (c # cs) R env W' R' env'"

lemma grub_exec_run: "grub_exec customCfg E W cs R env W' R' env' \<Longrightarrow> grub_commands customCfg cs R = Some R'"
  by (induction rule: grub_exec.induct) simp_all

subsection \<open>What a command does to the variables\<close>

lemma blockCommand_vars:
  assumes "blockCommand raw words R = Some (Some R')"
  shows "vars (script R') = vars (script R) \<and> unsure (script R') = unsure (script R)
    \<and> (problem (script R') = [] \<longrightarrow> problem (script R) = [])"
  using assms
  by (auto simp: blockCommand_def Let_def openMenu_def closeBlock_def push_block_def fail_def set_item_def
      split: if_splits list.splits)

lemma command_plain:
  assumes "grub_command customCfg c R = Some R'"
  shows "case plain_command c R of
      Some (raw, words, stk) \<Rightarrow> words \<noteq> [] \<and> topCommand raw words stk customCfg (script R) = Some (script R')
    | None \<Rightarrow> vars (script R') = vars (script R) \<and> unsure (script R') = unsure (script R)
        \<and> (problem (script R') = [] \<longrightarrow> problem (script R) = [])"
proof -
  obtain raw words stk where k: "stripKeywords c (stack R) = (raw, words, stk)" by (metis prod_cases3)
  let ?R = "R\<lparr>stack := stk\<rparr>"
  have "\<exists>B. blockCommand raw words ?R = Some B" if "words \<noteq> []" "\<not> HasPrefix (hd words) ''#''"
    using assms k that by (cases "blockCommand raw words ?R") (auto simp: grub_command_def Let_def)
  then consider "words = [] \<or> HasPrefix (hd words) ''#''"
    | B where "words \<noteq> []" "\<not> HasPrefix (hd words) ''#''" "blockCommand raw words ?R = Some (Some B)"
    | "words \<noteq> []" "\<not> HasPrefix (hd words) ''#''" "blockCommand raw words ?R = Some None"
    by (metis not_None_eq)
  then show ?thesis
  proof cases
    case 1
    then have "R' = ?R" using assms k by (auto simp: grub_command_def Let_def)
    moreover have "plain_command c R = None" using 1 k by (auto simp: plain_command_def)
    ultimately show ?thesis by simp
  next
    case (2 B)
    then have "R' = B" using assms k by (auto simp: grub_command_def Let_def)
    moreover have "plain_command c R = None" using 2 k by (auto simp: plain_command_def)
    ultimately show ?thesis using blockCommand_vars [OF 2(3)] by simp
  next
    case 3
    then obtain E where E: "currentEntry stk (menus R) = Some E"
      using assms k by (auto simp: grub_command_def Let_def bind_eq_Some_conv)
    show ?thesis
    proof (cases E)
      case None
      then show ?thesis using assms k 3 E by (auto simp: grub_command_def plain_command_def Let_def bind_eq_Some_conv)
    next
      case (Some a)
      then have "script R' = set_item a (entryCommand raw words stk) (script R)"
        using assms k 3 E by (auto simp: grub_command_def Let_def)
      moreover have "plain_command c R = None" using Some 3 k E by (auto simp: plain_command_def)
      ultimately show ?thesis by (simp add: set_item_def)
    qed
  qed
qed

lemma fold_unsure: "vars (fold add_unsure ns s) = vars s" "problem (fold add_unsure ns s) = problem s"
  "unsure (fold add_unsure ns s) n \<longleftrightarrow> unsure s n \<or> n \<in> set ns"
  by (induction ns arbitrary: s) (auto simp: add_unsure_def)

lemma fail_problem: "problem (fail m s) = [] \<longleftrightarrow> m = [] \<and> problem s = []"
  by (simp add: fail_def)

text \<open>A value stays, doubt stays and a problem stays.\<close>

lemma topCommand_mono:
  assumes "topCommand raw words stk customCfg s = Some s'"
  shows "(vars s n = Some v \<longrightarrow> vars s' n = Some v) \<and> (unsure s n \<longrightarrow> unsure s' n)
    \<and> (problem s' = [] \<longrightarrow> problem s = []) \<and> (vars s ''default'' = None \<longrightarrow> vars s' ''default'' = None)"
proof -
  have a: "(vars s n = Some v \<longrightarrow> vars t n = Some v) \<and> (unsure s n \<longrightarrow> unsure t n) \<and> (problem t = [] \<longrightarrow> problem s = [])
      \<and> (vars s ''default'' = None \<longrightarrow> vars t ''default'' = None)"
    if "t = assignment raw words stk b s" for t b
    using that by (auto simp: assignment_def defaultAssignment_def add_unsure_def fail_def Let_def
        split: option.splits if_splits sum.splits)
  show ?thesis
    using assms a [OF refl, of "stk \<noteq> []"]
    by (auto simp: topCommand_def Let_def fold_unsure add_unsure_def fail_def bind_eq_Some_conv
        split: if_splits option.splits)
qed

lemma command_mono:
  assumes "grub_command customCfg c R = Some R'"
  shows "(vars (script R) n = Some v \<longrightarrow> vars (script R') n = Some v) \<and> (unsure (script R) n \<longrightarrow> unsure (script R') n)
    \<and> (problem (script R') = [] \<longrightarrow> problem (script R) = [])
    \<and> (vars (script R) ''default'' = None \<longrightarrow> vars (script R') ''default'' = None)"
  using command_plain [OF assms] topCommand_mono [of _ _ _ customCfg "script R" "script R'" n v]
  by (auto split: option.splits)

lemma grub_commands_mono:
  "grub_commands customCfg cs R = Some R' \<Longrightarrow>
   (vars (script R) n = Some v \<longrightarrow> vars (script R') n = Some v) \<and> (problem (script R') = [] \<longrightarrow> problem (script R) = [])"
proof (induction cs arbitrary: R)
  case (Cons c cs)
  then obtain R1 where R1: "grub_command customCfg c R = Some R1" "grub_commands customCfg cs R1 = Some R'"
    by (auto simp: bind_eq_Some_conv)
  with command_mono [OF R1(1), of n v] Cons.IH [OF R1(2)] show ?case by blast
qed simp

text \<open>What a command may write is unsure after it, apart from \<open>default\<close>.\<close>

lemma maybe_writes_unsure:
  assumes "grub_command customCfg c R = Some R'" "problem (script R') = []" "n \<in> maybe_writes c R" "n \<noteq> ''default''"
  shows "unsure (script R') n"
proof -
  from assms(3) obtain raw words stk where p: "plain_command c R = Some (raw, words, stk)"
    by (auto simp: maybe_writes_def split: option.splits)
  then have t: "topCommand raw words stk customCfg (script R) = Some (script R')"
    using command_plain [OF assms(1)] by simp
  show ?thesis
  proof (cases "list_ex (\<lambda>b. bkind b = BlockFunction) stk")
    case True
    then have n: "assignedName words = Some n" using assms(3) by (simp add: maybe_writes_def p)
    have s: "script R' = (let p = functionProblem words customCfg in
        if p \<noteq> [] then fail (''function body: '' @ p) (script R) else add_unsure n (script R))"
      using t True n by (auto simp: topCommand_def Let_def)
    then show ?thesis using assms(2) by (auto simp: fail_problem add_unsure_def Let_def split: if_splits)
  next
    case False
    then have ok: "topProblem words customCfg = []" using t assms(2) fail_problem [of "topProblem words customCfg" "script R"]
      by (auto simp: topCommand_def split: if_splits)
    consider "hd words = ''unset''" | "hd words = ''search''" | "hd words \<noteq> ''unset''" "hd words \<noteq> ''search''" by blast
    then show ?thesis
    proof cases
      case 1
      then have "length (tl words) = 1" using ok by (auto simp: topProblem_def topChecks_def split: if_splits)
      then obtain w0 w where "words = [w0, w]" by (cases words) (auto simp: length_Suc_conv)
      then have "script R' = add_unsure n (script R)"
        using t assms(3) False 1 ok by (auto simp: topCommand_def maybe_writes_def p idx_def)
      then show ?thesis by (simp add: add_unsure_def)
    next
      case 2
      then have "script R' = fold add_unsure (setTargets words) (script R)" "n \<in> set (setTargets words)"
        using t assms(3) False ok by (auto simp: topCommand_def maybe_writes_def p)
      then show ?thesis by (simp add: fold_unsure)
    next
      case 3
      then have s: "script R' = assignment raw words stk (stk \<noteq> []) (script R)"
        using t False ok by (simp add: topCommand_def)
      from 3 False assms(3) have "stk \<noteq> []" "assignedName words = Some n"
        by (auto simp: maybe_writes_def p split: if_splits)
      with s assms(4) show ?thesis by (simp add: assignment_def add_unsure_def Let_def)
    qed
  qed
qed

subsection \<open>Simulation\<close>

text \<open>A variable without doubt has the value that GRUB gives it.\<close>

definition agrees :: "string set \<Rightarrow> grubScript \<Rightarrow> genv \<Rightarrow> bool" where
  "agrees W s env \<longleftrightarrow> vars s ''default'' = None \<and> (\<forall>n\<in>W. n = ''default'' \<or> unsure s n)
     \<and> (\<forall>n v. vars s n = Some v \<longrightarrow> \<not> unsure s n \<longrightarrow> env n = v)"

lemma expand_agrees:
  assumes "\<And>n v. vars s n = Some v \<Longrightarrow> \<not> unsure s n \<Longrightarrow> env n = v" "expandWords (vars s) (unsure s) cmd Map.empty = Inr ws"
  shows "lexWords cmd (Some (grub_lookup env)) 0 = Inr ws"
proof -
  have lk: "grub_lookup env n = Inr v" if "var_lookup (vars s) (unsure s) Map.empty n = Inr v" for n v
    using that assms(1) [of n] by (auto simp: var_lookup_def grub_lookup_def split: option.splits if_splits)
  show ?thesis by (rule lexWords_agree [OF lk assms(2) [unfolded expandWords_def]])
qed

lemma assign_agrees:
  assumes a: "agrees W s env" and s': "s' = assignment raw words [] False s"
    and env': "env' = (case assignedName words of
         Some name \<Rightarrow> env(name := Join [blank] (grub_words env (TrimSpace (after_equals raw)))) | None \<Rightarrow> env)"
    and v: "vars s' n = Some v" "\<not> unsure s' n"
  shows "env' n = v"
proof (cases "assignedName words")
  case None
  then show ?thesis using a v s' env' by (simp add: agrees_def assignment_def)
next
  case (Some name)
  let ?raw = "TrimSpace (after_equals raw)"
  show ?thesis
  proof (cases "name = ''default'' \<or> vars s name \<noteq> None")
    case True
    then show ?thesis using a v s' env' Some
      by (auto simp: agrees_def assignment_def defaultAssignment_def add_unsure_def Let_def split: if_splits)
  next
    case False
    show ?thesis
    proof (cases "expandWords (vars s) (unsure s) ?raw Map.empty")
      case (Inl e)
      then show ?thesis using a v s' env' Some False
        by (auto simp: agrees_def assignment_def add_unsure_def Let_def split: if_splits)
    next
      case (Inr ws)
      have "grub_words env ?raw = ws"
        using expand_agrees [of s env ?raw ws] a Inr by (simp add: agrees_def grub_words_def)
      then show ?thesis using a v s' env' Some False Inr
        by (auto simp: agrees_def assignment_def Let_def split: if_splits)
    qed
  qed
qed

lemma keyword_no_name: "hd words = ''unset'' \<or> hd words = ''search'' \<Longrightarrow> assignedName words = None"
  by (auto simp: assignedName_def Cut_def Let_def)

lemma plain_agrees:
  assumes a: "agrees W (script R) env" and ok: "problem s' = []"
    and t: "topCommand raw words stk customCfg (script R) = Some s'"
    and v: "vars s' n = Some v" "\<not> unsure s' n" and p: "plain_command c R = Some (raw, words, stk)"
  shows "grub_assign c R env n = v"
proof (cases "stk = [] \<and> hd words \<noteq> ''unset'' \<and> hd words \<noteq> ''search''")
  case True
  have "topProblem words customCfg = []"
    using t ok True fail_problem [of "topProblem words customCfg" "script R"] by (auto simp: topCommand_def split: if_splits)
  then have "s' = assignment raw words [] False (script R)" using t True by (simp add: topCommand_def)
  from assign_agrees [OF a this refl v] show ?thesis using p True by (simp add: grub_assign_def)
next
  case False
  then have "vars s' = vars (script R) \<and> (unsure (script R) n \<longrightarrow> unsure s' n)"
    using t
    by (auto simp: topCommand_def assignment_def defaultAssignment_def add_unsure_def fail_def fold_unsure Let_def bind_eq_Some_conv
        split: if_splits option.splits)
  then have "env n = v" using a v by (auto simp: agrees_def)
  moreover have "grub_assign c R env n = env n \<or> (stk = [] \<and> assignedName words = Some n)"
    using p by (auto simp: grub_assign_def split: list.splits option.splits)
  moreover have "assignedName words \<noteq> Some n" if "stk = []"
    using False that keyword_no_name [of words] by auto
  ultimately show ?thesis by blast
qed

lemma command_agrees:
  assumes c: "grub_command customCfg c R = Some R'" "problem (script R') = []" and a: "agrees W (script R) env"
    and dis: "\<And>n. n \<in> E \<Longrightarrow> vars (script R') n = None"
    and step: "\<And>n. n \<notin> W \<union> maybe_writes c R \<union> E \<Longrightarrow> env' n = grub_assign c R env n"
  shows "agrees (W \<union> maybe_writes c R) (script R') env'"
proof -
  note mono = command_mono [OF c(1)]
  have d: "vars (script R') ''default'' = None" using mono a by (simp add: agrees_def)
  have w: "n = ''default'' \<or> unsure (script R') n" if "n \<in> W \<union> maybe_writes c R" for n
    using that a mono [of n] maybe_writes_unsure [OF c, of n] by (auto simp: agrees_def)
  have "env' n = v" if v: "vars (script R') n = Some v" "\<not> unsure (script R') n" for n v
  proof -
    have out: "n \<notin> W \<union> maybe_writes c R \<union> E" using w [of n] v d dis [of n] by auto
    have "grub_assign c R env n = v"
    proof (cases "plain_command c R")
      case None
      then show ?thesis using command_plain [OF c(1)] v a by (simp add: grub_assign_def agrees_def)
    next
      case (Some p)
      obtain raw words stk where p: "p = (raw, words, stk)" by (cases p)
      have t: "topCommand raw words stk customCfg (script R) = Some (script R')"
        using command_plain [OF c(1)] Some p by simp
      show ?thesis by (rule plain_agrees [OF a c(2) t v]) (use Some p in simp)
    qed
    with step [OF out] show ?thesis by simp
  qed
  with d w show ?thesis by (auto simp: agrees_def)
qed

lemma exec_agrees:
  assumes "grub_exec customCfg E W cs R env W' R' env'" "problem (script R') = []" "agrees W (script R) env"
    "\<And>n. n \<in> E \<Longrightarrow> vars (script R') n = None"
  shows "agrees W' (script R') env'"
  using assms
proof (induction rule: grub_exec.induct)
  case (exec_command c R R1 W1 W env1 env cs W' R' env')
  note run = grub_commands_mono [OF grub_exec_run [OF exec_command.hyps(4)]]
  have "agrees W1 (script R1) env1"
    unfolding exec_command.hyps(2)
  proof (rule command_agrees [OF exec_command.hyps(1)])
    show "problem (script R1) = []" using run exec_command.prems(1) by blast
    show "agrees W (script R) env" by (rule exec_command.prems(2))
    show "vars (script R1) n = None" if "n \<in> E" for n
      using run [of n] exec_command.prems(3) [OF that] by (cases "vars (script R1) n") auto
    show "env1 n = grub_assign c R env n" if "n \<notin> W \<union> maybe_writes c R \<union> E" for n
      using exec_command.hyps(2,3) that by blast
  qed
  then show ?case by (rule exec_command.IH [OF exec_command.prems(1) _ exec_command.prems(3)])
qed simp

lemma findItem_sound:
  assumes "findItem s its part = Some a"
  shows "a \<in> set its \<and> \<not> conditional (store s ! a)"
proof (cases "isDecimal part")
  case True
  then obtain n where n: "n < length its" "\<not> list_ex (\<lambda>a. conditional (store s ! a)) (take (n + 1) its)" "a = its ! n"
    using assms by (auto simp: findItem_def not_le split: option.splits if_splits)
  have "its ! n \<in> set (take (n + 1) its)" using n(1) by (simp add: take_Suc_conv_app_nth)
  with n show ?thesis by (auto simp: list_ex_iff)
next
  case False
  then show ?thesis using assms find_SomeD [of _ its a] by (auto simp: findItem_def split: option.splits if_splits)
qed

lemma resolve_loop_sound:
  assumes "store_ok s"
  shows "resolve_loop s spec its it ps = Inr (Some a) \<Longrightarrow> \<forall>b\<in>set its. b < length (store s)
    \<Longrightarrow> \<forall>b. it = Some b \<longrightarrow> b < length (store s) \<and> \<not> conditional (store s ! b)
    \<Longrightarrow> a < length (store s) \<and> \<not> conditional (store s ! a)"
proof (induction ps arbitrary: its it)
  case (Cons p ps)
  then obtain b where b: "findItem s its p = Some b" "resolve_loop s spec (children (store s ! b)) (Some b) ps = Inr (Some a)"
    by (auto split: option.splits)
  have "b < length (store s)" "\<not> conditional (store s ! b)" using findItem_sound [OF b(1)] Cons.prems(2) by auto
  moreover have "list_all (between b (length (store s))) (children (store s ! b))"
    using assms \<open>b < length (store s)\<close> by (simp add: store_ok_def)
  then have "\<forall>c\<in>set (children (store s ! b)). c < length (store s)" by (simp add: list_all_iff between_def)
  ultimately show ?case using Cons.IH [OF b(2)] by simp
qed simp

lemma resolve_sound:
  assumes "resolve s spec = Inr a" "store_ok s"
  shows "a < length (store s) \<and> \<not> conditional (store s ! a) \<and> \<not> submenu (store s ! a)"
proof -
  from assms(1) have r: "resolve_loop s spec (items s) None (Split CHR ''>'' spec) = Inr (Some a)" "\<not> submenu (store s ! a)"
    by (auto simp: resolve_def split: sum.splits option.splits if_splits)
  with resolve_loop_sound [OF assms(2) r(1)] assms(2) show ?thesis by (simp add: store_ok_def)
qed

lemma bootEntry_words:
  assumes "bootEntry s it = Inr e"
  shows "\<exists>it' k ws. useInitrdFallback it = Inr it' \<and> title it' = beName e \<and> length (linux it') = 1 \<and> item_problem it' = []
    \<and> expandWords (vars s) (unsure s) (hd (linux it')) Map.empty = Inr (k # beKernel e # ws)
    \<and> kernelArgs ws = Inr (beKernelArgs e)"
proof -
  obtain it' where f: "useInitrdFallback it = Inr it'" using assms by (auto simp: bootEntry_def split: sum.splits)
  have ok: "item_problem it' = []" "length (linux it') = 1" using assms f by (auto simp: bootEntry_def split: if_splits)
  then obtain ws where w: "expandWords (vars s) (unsure s) (hd (linux it')) Map.empty = Inr ws"
    using assms f by (auto simp: bootEntry_def split: if_splits sum.splits)
  then have l: "2 \<le> length ws" using assms f ok by (auto simp: bootEntry_def split: if_splits)
  then obtain k kn rest where ws: "ws = k # kn # rest" by (metis Suc_le_length_iff numeral_2_eq_2)
  have "title it' = beName e" "kn = beKernel e" "kernelArgs rest = Inr (beKernelArgs e)"
    using assms f ok w ws by (auto simp: bootEntry_def split: if_splits sum.splits)
  with f ok w ws show ?thesis by blast
qed

lemma default_of_script_parts:
  assumes "default_of_script path genv s = Inr e"
  shows "problem s = [] \<and> (\<exists>spec a. resolve (s\<lparr>unsure := \<lambda>n. unsure s n \<or> genv n \<noteq> None\<rparr>) spec = Inr a
    \<and> bootEntry (s\<lparr>unsure := \<lambda>n. unsure s n \<or> genv n \<noteq> None\<rparr>) (store s ! a) = Inr e)"
  using assms by (auto simp: default_of_script_def applyGrubenv_def split: if_splits sum.splits)

subsection \<open>The default entry is GRUB's\<close>


text \<open>GRUB can run every script.\<close>

lemma exec_exists: "reader_ok R \<Longrightarrow> \<exists>W' R' env'. grub_exec customCfg E W cs R env W' R' env'"
proof (induction cs arbitrary: R W env)
  case Nil
  show ?case by (blast intro: exec_end)
next
  case (Cons c cs)
  from command_ok [OF Cons.prems] obtain R1 where R1: "grub_command customCfg c R = Some R1" "reader_ok R1" by blast
  with Cons.IH [OF R1(2), of "W \<union> maybe_writes c R" "grub_assign c R env"] show ?case
    by (blast intro: exec_command)
qed

definition sample_grub_cfg :: string where
  "sample_grub_cfg = ''set v=1'' @ [CHR 0x0A] @ ''menuentry a {'' @ [CHR 0x0A] @ ''linux /k $v'' @ [CHR 0x0A] @ ''}''"

definition sample_fs :: "string \<Rightarrow> grub_file" where
  "sample_fs p = (if p = ''boot/grub/grub.cfg'' then FileData sample_grub_cfg else NotExist)"

definition sample_script :: grubScript where
  "sample_script = the (parseGrubScript sample_grub_cfg False)"

lemma sample_default:
  "default_of_script ''boot/grub/grub.cfg'' Map.empty sample_script =
     Inr \<lparr>beName = ''a'', beKernel = ''/k'', beInitramfs = [], beKernelArgs = ''1''\<rparr>"
  by code_simp

lemma sample_root: "vars sample_script ''root'' = None"
  by code_simp

lemma sample_config: "readGrubConfig sample_fs False = Inr (''boot/grub'', sample_grub_cfg)"
  by code_simp


subsection \<open>What the reader does not see\<close>

text \<open>A command with an unterminated quote, as a quote over two lines has, is skipped.\<close>

lemma unterminated_command_skipped:
  "literalWords raw = [] \<Longrightarrow> grub_command customCfg raw R = Some R"
  by (simp add: grub_command_def stripKeywords_def Let_def)

lemma unterminated_default: "literalWords (''set default='' @ [dquote] @ ''1'') = []"
  by code_simp

text \<open>The command of a condition is not looked at, whatever it sets.\<close>

lemma condition_unchecked:
  "hd words = ''if'' \<or> hd words = ''elif'' \<or> hd words = ''while'' \<or> hd words = ''until'' \<or> hd words = ''for''
   \<Longrightarrow> \<exists>R'. blockCommand raw words R = Some (Some R') \<and> script R' = script R"
  by (auto simp: blockCommand_def Let_def push_block_def split: list.splits)

text \<open>A target of \<open>search\<close> in a function body stays without doubt.\<close>

lemma function_search_unmarked:
  "list_ex (\<lambda>b. bkind b = BlockFunction) stk \<Longrightarrow>
   topCommand raw [''search'', ''--set=v'', ''x''] stk customCfg s = Some s"
  by (simp add: topCommand_def functionProblem_def topProblem_def topChecks_def assignedName_def entryCommands_def
      HasPrefix_def TrimPrefix_def)

text \<open>A value that was computed from a variable of grubenv stays without doubt.\<close>

lemma derived_value_unmarked:
  "let s = the (parseGrubScript (''set b=1'' @ [CHR 0x0A] @ ''load_env'' @ [CHR 0x0A] @ ''set a=$b'') False)
   in vars s ''a'' = Some ''1'' \<and> \<not> unsure s ''a''"
  by code_simp

end
