(* ===== verification/Partition_Layout.thy ===== *)
theory Partition_Layout
  imports Go_Text
begin

text \<open>
  The partition layout of the target disk (config/partition.go) and its validation. A validator returns
  its first error; the messages are constructors with their arguments. Decoding the JSON text is the
  work of encoding/json and not modelled: a layout is the decoded value.
\<close>

subsection \<open>Data\<close>

record Partition =
  pLabel :: string
  pSizeMB :: int
  pTypeGUID :: string
  pFilesystem :: string
  pMountpoint :: string
  pMountOptions :: string

record LVVolume =
  vName :: string
  vSizeMB :: int
  vExtents :: string
  vFilesystem :: string
  vMountpoint :: string
  vMountOptions :: string

record LVMConfig =
  VolumeGroup :: string
  PVPartition :: int
  Volumes :: "LVVolume list"

record PartitionLayout =
  Table :: string
  Device :: string
  Partitions :: "Partition list"
  LVM :: "LVMConfig option"

datatype entry_err = LabelRequired | LabelInvalid string | LabelDuplicate string
  | MountRelative string | MountWhitespace string | MountTraversal string | MountNoFilesystem string | MountSwap string
  | OptionsWhitespace string | OptionsChars string | BadFilesystem string
  | SizeNegative | FillNotLast | BadTypeGUID string
  | NameRequired | NameInvalid string | NameDuplicate string | SizeAndExtents | BadExtents string

datatype layout_err = LayoutRequired | NoPartitions | TooManyPartitions nat | UnsupportedTable string
  | DeviceWhitespace string | DeviceRelative string | DeviceUnclean string string
  | PartitionError nat string entry_err | FillCount nat | VolumeError nat string entry_err
  | NoVolumes | TooManyVolumes nat | VGRequired | VGInvalid string | PVLow int | PVHigh int nat
  | PVMount int string string | PVFilesystem int string string
  | MountTwice string string string | NoRoot

subsection \<open>Paths and names\<close>

definition whitespace :: string where "whitespace = [blank, tab, CHR 0x0A, CHR 0x0D]"

definition containsPathTraversal :: "string \<Rightarrow> bool" where
  "containsPathTraversal p = (''..'' \<in> set (Split CHR ''/'' p))"

definition isSupportedFilesystem :: "string \<Rightarrow> bool" where
  "isSupportedFilesystem fs = (fs \<in> {'''', ''vfat'', ''ext4'', ''xfs'', ''swap''})"

definition IsHex :: "char \<Rightarrow> bool" where
  "IsHex c = (IsDigit c \<or> byte_in 65 70 c \<or> byte_in 97 102 c)"

text \<open>The regular expressions \<open>typeGUIDRE\<close> and \<open>mountOptionsRE\<close>.\<close>

definition typeGUIDRE :: "string \<Rightarrow> bool" where
  "typeGUIDRE s =
     (let parts = Split CHR ''-'' s in map length parts = [8, 4, 4, 4, 12] \<and> list_all (list_all IsHex) parts)"

definition mountOptionsRE :: "string \<Rightarrow> bool" where
  "mountOptionsRE s = (s \<noteq> [] \<and> list_all (\<lambda>c. IsLetter c \<or> IsDigit c \<or> c \<in> set ''_.,=:/+-'') s)"

definition maxPartitions :: nat where "maxPartitions = 128"
definition maxLVMVolumes :: nat where "maxLVMVolumes = 256"

definition isValidPartitionLabel :: "string \<Rightarrow> bool" where
  "isValidPartitionLabel label =
     (length label \<le> 36 \<and> list_all (\<lambda>c. IsLetter c \<or> IsDigit c \<or> c \<in> set ''_-. '') label)"

definition isValidLVMNameChar :: "char \<Rightarrow> bool" where
  "isValidLVMNameChar c = (IsLetter c \<or> IsDigit c \<or> c \<in> set ''_-.'')"

definition isValidLVMName :: "string \<Rightarrow> bool" where
  "isValidLVMName name =
     (if name = [] \<or> name = ''.'' \<or> name = ''..'' then False
      else if HasPrefix name ''-'' \<or> HasPrefix name ''.'' then False
      else list_all isValidLVMNameChar name)"

definition isValidLVMExtents :: "string \<Rightarrow> bool" where
  "isValidLVMExtents e = (e \<noteq> [] \<and> list_all (\<lambda>c. IsDigit c \<or> IsLetter c \<or> c \<in> set ''%+'') e)"

subsection \<open>Partitions\<close>

definition normalizePartitionLayoutDevice :: "string \<Rightarrow> layout_err + string" where
  "normalizePartitionLayoutDevice device =
     (let trimmed = TrimSpace device in
      if trimmed = [] then Inr []
      else if ContainsAny trimmed whitespace then Inl (DeviceWhitespace device)
      else if hd trimmed \<noteq> CHR ''/'' then Inl (DeviceRelative device)
      else let cleaned = Clean trimmed in
        if cleaned \<noteq> trimmed then Inl (DeviceUnclean device cleaned) else Inr cleaned)"

definition validateMountOptions :: "string \<Rightarrow> entry_err option" where
  "validateMountOptions options =
     (if options = [] then None
      else first_error
        [reject (TrimSpace options \<noteq> options \<or> ContainsAny options whitespace) (OptionsWhitespace options),
         reject (\<not> mountOptionsRE options) (OptionsChars options)])"

text \<open>The checks of a mountpoint with its filesystem, which \<open>validatePartitionMountpoint\<close> and
  \<open>validateLVMVolumeMountpoint\<close> share.\<close>

definition check_mountpoint :: "string \<Rightarrow> string \<Rightarrow> entry_err option" where
  "check_mountpoint mp fs =
     first_error
       [reject (mp \<noteq> [] \<and> \<not> HasPrefix mp ''/'') (MountRelative mp),
        reject (ContainsAny mp whitespace) (MountWhitespace mp),
        reject (mp \<noteq> [] \<and> containsPathTraversal mp) (MountTraversal mp),
        reject (mp \<noteq> [] \<and> fs = []) (MountNoFilesystem mp),
        reject (fs = ''swap'' \<and> mp \<noteq> []) (MountSwap mp)]"

definition validatePartitionMountpoint :: "Partition \<Rightarrow> entry_err option" where
  "validatePartitionMountpoint p = check_mountpoint (pMountpoint p) (pFilesystem p)"

definition validatePartitionLabel :: "string \<Rightarrow> (string \<Rightarrow> bool) \<Rightarrow> entry_err option" where
  "validatePartitionLabel label seen =
     first_error
       [reject (label = []) LabelRequired,
        reject (\<not> isValidPartitionLabel label) (LabelInvalid label),
        reject (seen label) (LabelDuplicate label)]"

definition validatePartitionSize :: "nat \<Rightarrow> Partition \<Rightarrow> nat \<Rightarrow> entry_err option" where
  "validatePartitionSize i p n =
     first_error [reject (pSizeMB p < 0) SizeNegative, reject (pSizeMB p = 0 \<and> i + 1 \<noteq> n) FillNotLast]"

definition validatePartitionEntry :: "nat \<Rightarrow> Partition \<Rightarrow> nat \<Rightarrow> (string \<Rightarrow> bool) \<Rightarrow> entry_err option" where
  "validatePartitionEntry i p n seen =
     first_error
       [validatePartitionLabel (pLabel p) seen,
        validatePartitionMountpoint p,
        validateMountOptions (pMountOptions p),
        reject (\<not> isSupportedFilesystem (pFilesystem p)) (BadFilesystem (pFilesystem p)),
        validatePartitionSize i p n,
        reject (pTypeGUID p \<noteq> [] \<and> \<not> typeGUIDRE (pTypeGUID p)) (BadTypeGUID (pTypeGUID p))]"

text \<open>The loop of \<open>validatePartitions\<close>: the index, the labels seen and the number of partitions that
  fill.\<close>

fun partitions_loop :: "nat \<Rightarrow> nat \<Rightarrow> (string \<Rightarrow> bool) \<Rightarrow> nat \<Rightarrow> Partition list \<Rightarrow> layout_err + nat" where
  "partitions_loop n i seen fills [] = Inr fills"
| "partitions_loop n i seen fills (p # ps) =
     (case validatePartitionEntry i p n seen of
        Some e \<Rightarrow> Inl (PartitionError (i + 1) (pLabel p) e)
      | None \<Rightarrow> partitions_loop n (i + 1) (seen(pLabel p := True)) (if pSizeMB p = 0 then fills + 1 else fills) ps)"

definition validatePartitions :: "Partition list \<Rightarrow> layout_err option" where
  "validatePartitions ps =
     (case partitions_loop (length ps) 0 (\<lambda>_. False) 0 ps of
        Inl e \<Rightarrow> Some e
      | Inr fills \<Rightarrow> reject (fills > 1) (FillCount fills))"

subsection \<open>Logical volumes\<close>

definition usesAllRemainingLVMExtents :: "LVVolume \<Rightarrow> bool" where
  "usesAllRemainingLVMExtents v =
     (if vSizeMB v > 0 then False
      else let extents = TrimSpace (vExtents v) in extents = [] \<or> EqualFold extents ''100%FREE'')"

definition validateLVMPVPartition :: "LVMConfig \<Rightarrow> Partition list \<Rightarrow> layout_err option" where
  "validateLVMPVPartition lvm ps =
     (case first_error
        [reject (VolumeGroup lvm = []) VGRequired,
         reject (\<not> isValidLVMName (VolumeGroup lvm)) (VGInvalid (VolumeGroup lvm)),
         reject (PVPartition lvm < 1) (PVLow (PVPartition lvm)),
         reject (PVPartition lvm > int (length ps)) (PVHigh (PVPartition lvm) (length ps))] of
        Some e \<Rightarrow> Some e
      | None \<Rightarrow>
         (let pv = ps ! nat (PVPartition lvm - 1) in
          first_error
            [reject (pMountpoint pv \<noteq> []) (PVMount (PVPartition lvm) (pLabel pv) (pMountpoint pv)),
             reject (pFilesystem pv \<noteq> []) (PVFilesystem (PVPartition lvm) (pLabel pv) (pFilesystem pv))]))"

definition validateLVMVolumeMountpoint :: "LVVolume \<Rightarrow> entry_err option" where
  "validateLVMVolumeMountpoint v = check_mountpoint (vMountpoint v) (vFilesystem v)"

definition validateLVMVolumeSize :: "LVVolume \<Rightarrow> entry_err option" where
  "validateLVMVolumeSize v =
     first_error
       [reject (vSizeMB v < 0) SizeNegative,
        reject (vExtents v \<noteq> [] \<and> vSizeMB v > 0) SizeAndExtents,
        reject (vExtents v \<noteq> [] \<and> \<not> isValidLVMExtents (vExtents v)) (BadExtents (vExtents v))]"

definition validateLVMVolume :: "LVVolume \<Rightarrow> entry_err option" where
  "validateLVMVolume v =
     first_error
       [reject (vName v = []) NameRequired,
        reject (\<not> isValidLVMName (vName v)) (NameInvalid (vName v)),
        validateLVMVolumeMountpoint v,
        validateMountOptions (vMountOptions v),
        reject (\<not> isSupportedFilesystem (vFilesystem v)) (BadFilesystem (vFilesystem v)),
        validateLVMVolumeSize v]"

fun volumes_loop :: "nat \<Rightarrow> nat \<Rightarrow> (string \<Rightarrow> bool) \<Rightarrow> LVVolume list \<Rightarrow> layout_err option" where
  "volumes_loop n i seen [] = None"
| "volumes_loop n i seen (v # vs) =
     (case first_error
        [validateLVMVolume v,
         reject (seen (vName v)) (NameDuplicate (vName v)),
         reject (usesAllRemainingLVMExtents v \<and> i + 1 \<noteq> n) FillNotLast] of
        Some e \<Rightarrow> Some (VolumeError (i + 1) (vName v) e)
      | None \<Rightarrow> volumes_loop n (i + 1) (seen(vName v := True)) vs)"

definition validateLVMConfig :: "LVMConfig option \<Rightarrow> Partition list \<Rightarrow> layout_err option" where
  "validateLVMConfig lvm ps =
     (case lvm of
        None \<Rightarrow> None
      | Some lvm \<Rightarrow>
          first_error
            [reject (Volumes lvm = []) NoVolumes,
             reject (length (Volumes lvm) > maxLVMVolumes) (TooManyVolumes (length (Volumes lvm))),
             validateLVMPVPartition lvm ps,
             volumes_loop (length (Volumes lvm)) 0 (\<lambda>_. False) (Volumes lvm)])"

subsection \<open>The layout\<close>

text \<open>The mountpoints with their places, in the order in which \<open>validateUniqueMountpoints\<close> adds them.\<close>

definition part_location :: "nat \<Rightarrow> string \<Rightarrow> string" where
  "part_location i l = ''partition '' @ fmt_d (int (i + 1)) @ '' ('' @ l @ '')''"

definition volume_location :: "nat \<Rightarrow> string \<Rightarrow> string" where
  "volume_location i l = ''lvm volume '' @ fmt_d (int (i + 1)) @ '' ('' @ l @ '')''"

definition mount_places :: "Partition list \<Rightarrow> LVMConfig option \<Rightarrow> (string \<times> string) list" where
  "mount_places ps lvm =
     map (\<lambda>(i, p). (pMountpoint p, part_location i (pLabel p))) (enumerate 0 ps)
     @ (case lvm of None \<Rightarrow> []
        | Some lvm \<Rightarrow> map (\<lambda>(i, v). (vMountpoint v, volume_location i (vName v))) (enumerate 0 (Volumes lvm)))"

fun unique_loop :: "(string \<rightharpoonup> string) \<Rightarrow> (string \<times> string) list \<Rightarrow> layout_err option" where
  "unique_loop seen [] = None"
| "unique_loop seen ((mp, loc) # ms) =
     (if mp = [] then unique_loop seen ms
      else case seen mp of
        Some prev \<Rightarrow> Some (MountTwice mp prev loc)
      | None \<Rightarrow> unique_loop (seen(mp \<mapsto> loc)) ms)"

definition validateUniqueMountpoints :: "Partition list \<Rightarrow> LVMConfig option \<Rightarrow> layout_err option" where
  "validateUniqueMountpoints ps lvm = unique_loop Map.empty (mount_places ps lvm)"

definition validateRootPresence :: "Partition list \<Rightarrow> LVMConfig option \<Rightarrow> layout_err option" where
  "validateRootPresence ps lvm =
     (if list_ex (\<lambda>p. pMountpoint p = ''/'') ps then None
      else if (case lvm of Some l \<Rightarrow> list_ex (\<lambda>v. vMountpoint v = ''/'') (Volumes l) | None \<Rightarrow> False) then None
      else Some NoRoot)"

definition ValidatePartitionLayout :: "PartitionLayout option \<Rightarrow> layout_err + PartitionLayout" where
  "ValidatePartitionLayout layout =
     (case layout of
        None \<Rightarrow> Inl LayoutRequired
      | Some l \<Rightarrow>
          if Partitions l = [] then Inl NoPartitions
          else if length (Partitions l) > maxPartitions then Inl (TooManyPartitions (length (Partitions l)))
          else let l = (if Table l = [] then l\<lparr>Table := ''gpt''\<rparr> else l) in
            if Table l \<noteq> ''gpt'' then Inl (UnsupportedTable (Table l))
            else case normalizePartitionLayoutDevice (Device l) of
              Inl e \<Rightarrow> Inl e
            | Inr device \<Rightarrow>
               (let l = l\<lparr>Device := device\<rparr> in
                case first_error
                  [validatePartitions (Partitions l), validateLVMConfig (LVM l) (Partitions l),
                   validateUniqueMountpoints (Partitions l) (LVM l), validateRootPresence (Partitions l) (LVM l)] of
                  Some e \<Rightarrow> Inl e
                | None \<Rightarrow> Inr l))"

subsection \<open>What a valid layout is\<close>

definition mount_ok :: "string \<Rightarrow> string \<Rightarrow> bool" where
  "mount_ok mp fs \<longleftrightarrow> mp = [] \<or> (hd mp = CHR ''/'' \<and> set mp \<inter> set whitespace = {} \<and> ''..'' \<notin> set (Split CHR ''/'' mp)
     \<and> fs \<noteq> [] \<and> fs \<noteq> ''swap'')"

definition options_ok :: "string \<Rightarrow> bool" where
  "options_ok options \<longleftrightarrow> options = [] \<or> mountOptionsRE options"

definition partition_ok :: "Partition \<Rightarrow> bool" where
  "partition_ok p \<longleftrightarrow> pLabel p \<noteq> [] \<and> isValidPartitionLabel (pLabel p) \<and> mount_ok (pMountpoint p) (pFilesystem p)
     \<and> options_ok (pMountOptions p) \<and> isSupportedFilesystem (pFilesystem p) \<and> 0 \<le> pSizeMB p
     \<and> (pTypeGUID p = [] \<or> typeGUIDRE (pTypeGUID p))"

definition volume_ok :: "LVVolume \<Rightarrow> bool" where
  "volume_ok v \<longleftrightarrow> isValidLVMName (vName v) \<and> mount_ok (vMountpoint v) (vFilesystem v) \<and> options_ok (vMountOptions v)
     \<and> isSupportedFilesystem (vFilesystem v) \<and> 0 \<le> vSizeMB v
     \<and> (vExtents v = [] \<or> (vSizeMB v = 0 \<and> isValidLVMExtents (vExtents v)))"

text \<open>Only the last one may fill the rest.\<close>

definition fills_last :: "('a \<Rightarrow> bool) \<Rightarrow> 'a list \<Rightarrow> bool" where
  "fills_last fills xs \<longleftrightarrow> list_all (\<lambda>x. \<not> fills x) (butlast xs)"

definition lvm_ok :: "Partition list \<Rightarrow> LVMConfig \<Rightarrow> bool" where
  "lvm_ok ps lvm \<longleftrightarrow> Volumes lvm \<noteq> [] \<and> length (Volumes lvm) \<le> 256 \<and> isValidLVMName (VolumeGroup lvm)
     \<and> 1 \<le> PVPartition lvm \<and> PVPartition lvm \<le> int (length ps)
     \<and> pMountpoint (ps ! nat (PVPartition lvm - 1)) = [] \<and> pFilesystem (ps ! nat (PVPartition lvm - 1)) = []
     \<and> list_all volume_ok (Volumes lvm) \<and> distinct (map vName (Volumes lvm))
     \<and> fills_last usesAllRemainingLVMExtents (Volumes lvm)"

definition device_ok :: "string \<Rightarrow> bool" where
  "device_ok d \<longleftrightarrow> TrimSpace d = [] \<or> (hd (TrimSpace d) = CHR ''/'' \<and> set (TrimSpace d) \<inter> set whitespace = {}
     \<and> Clean (TrimSpace d) = TrimSpace d)"

definition mountpoints :: "Partition list \<Rightarrow> LVMConfig option \<Rightarrow> string list" where
  "mountpoints ps lvm = filter (\<lambda>m. m \<noteq> []) (map pMountpoint ps @ (case lvm of Some l \<Rightarrow> map vMountpoint (Volumes l) | None \<Rightarrow> []))"

definition layout_ok :: "PartitionLayout \<Rightarrow> bool" where
  "layout_ok l \<longleftrightarrow> Partitions l \<noteq> [] \<and> length (Partitions l) \<le> 128 \<and> Table l \<in> {[], ''gpt''} \<and> device_ok (Device l)
     \<and> list_all partition_ok (Partitions l) \<and> distinct (map pLabel (Partitions l))
     \<and> fills_last (\<lambda>p. pSizeMB p = 0) (Partitions l)
     \<and> (case LVM l of Some lvm \<Rightarrow> lvm_ok (Partitions l) lvm | None \<Rightarrow> True)
     \<and> distinct (mountpoints (Partitions l) (LVM l)) \<and> ''/'' \<in> set (mountpoints (Partitions l) (LVM l))"

subsection \<open>The validators decide it\<close>

lemma fills_last_Cons: "fills_last f (x # xs) \<longleftrightarrow> (xs \<noteq> [] \<longrightarrow> \<not> f x) \<and> fills_last f xs"
  by (simp add: fills_last_def)

lemma check_mountpoint_None: "check_mountpoint mp fs = None \<longleftrightarrow> mount_ok mp fs"
  by (cases mp) (auto simp: check_mountpoint_def mount_ok_def HasPrefix_def ContainsAny_def containsPathTraversal_def)

lemma TrimSpace_id: "set s \<inter> {c. IsSpace c} = {} \<Longrightarrow> TrimSpace s = s"
proof -
  assume a: "set s \<inter> {c. IsSpace c} = {}"
  have "dropWhile IsSpace t = t" if "set t \<subseteq> set s" for t
    using a that by (cases t) auto
  from this [of s] this [of "rev s"] show ?thesis by (simp add: TrimSpace_def)
qed

lemma options_char_no_space: "IsLetter c \<or> IsDigit c \<or> c \<in> set ''_.,=:/+-'' \<Longrightarrow> \<not> IsSpace c \<and> c \<notin> set whitespace"
  by (auto simp: IsLetter_def IsDigit_def IsUpper_def IsLower_def IsSpace_def byte_in_def whitespace_def)

lemma validateMountOptions_None: "validateMountOptions o1 = None \<longleftrightarrow> options_ok o1"
proof -
  have "TrimSpace o1 = o1 \<and> \<not> ContainsAny o1 whitespace" if "mountOptionsRE o1"
  proof -
    have "\<not> IsSpace c \<and> c \<notin> set whitespace" if "c \<in> set o1" for c
      using \<open>mountOptionsRE o1\<close> that options_char_no_space [of c] by (auto simp: mountOptionsRE_def list_all_iff)
    then show ?thesis by (auto simp: ContainsAny_def intro!: TrimSpace_id)
  qed
  then show ?thesis by (auto simp: validateMountOptions_def options_ok_def)
qed

lemma validatePartitionEntry_None:
  "validatePartitionEntry i p n seen = None \<longleftrightarrow> partition_ok p \<and> \<not> seen (pLabel p) \<and> (pSizeMB p = 0 \<longrightarrow> i + 1 = n)"
  by (auto simp: validatePartitionEntry_def validatePartitionLabel_def validatePartitionMountpoint_def
      validatePartitionSize_def check_mountpoint_None validateMountOptions_None partition_ok_def)

lemma partitions_loop_Inr:
  "i + length ps = n \<Longrightarrow> partitions_loop n i seen k ps = Inr k' \<longleftrightarrow>
     list_all partition_ok ps \<and> distinct (map pLabel ps) \<and> (\<forall>p\<in>set ps. \<not> seen (pLabel p))
     \<and> fills_last (\<lambda>p. pSizeMB p = 0) ps \<and> k' = k + length (filter (\<lambda>p. pSizeMB p = 0) ps)"
proof (induction ps arbitrary: i seen k)
  case Nil
  then show ?case by (auto simp: fills_last_def)
next
  case (Cons p ps)
  have last: "i + 1 = n \<longleftrightarrow> ps = []" using Cons.prems by auto
  show ?case
  proof (cases "validatePartitionEntry i p n seen")
    case None
    then have ok: "partition_ok p" "\<not> seen (pLabel p)" "pSizeMB p = 0 \<longrightarrow> ps = []"
      using validatePartitionEntry_None [of i p n seen] last by simp_all
    have eq: "i + 1 + length ps = n" using Cons.prems by simp
    have seen: "(\<forall>q\<in>set ps. \<not> (seen(pLabel p := True)) (pLabel q)) \<longleftrightarrow> (\<forall>q\<in>set ps. \<not> seen (pLabel q)) \<and> pLabel p \<notin> pLabel ` set ps"
      by (auto simp: image_iff)
    have k: "(if pSizeMB p = 0 then k + 1 else k) + length (filter (\<lambda>p. pSizeMB p = 0) ps) = k + length (filter (\<lambda>p. pSizeMB p = 0) (p # ps))"
      by simp
    show ?thesis unfolding partitions_loop.simps None option.case Cons.IH [OF eq] seen k
      using ok by (auto simp: fills_last_Cons)
  next
    case (Some e)
    then have "\<not> (partition_ok p \<and> \<not> seen (pLabel p) \<and> (pSizeMB p = 0 \<longrightarrow> ps = []))"
      using validatePartitionEntry_None [of i p n seen] last by simp
    then show ?thesis using Some by (auto simp: fills_last_Cons)
  qed
qed

lemma fills_last_count: "fills_last f xs \<Longrightarrow> length (filter f xs) \<le> 1"
proof (induction xs)
  case (Cons x xs)
  then show ?case by (cases xs) (auto simp: fills_last_Cons)
qed simp

text \<open>The count of the partitions that fill never fails: the order has been checked before.\<close>

lemma validatePartitions_None:
  "validatePartitions ps = None \<longleftrightarrow> list_all partition_ok ps \<and> distinct (map pLabel ps) \<and> fills_last (\<lambda>p. pSizeMB p = 0) ps"
proof (cases "partitions_loop (length ps) 0 (\<lambda>_. False) 0 ps")
  case (Inl e)
  then show ?thesis
    using partitions_loop_Inr [of 0 ps "length ps" "\<lambda>_. False" 0 "length (filter (\<lambda>p. pSizeMB p = 0) ps)"]
    by (simp add: validatePartitions_def)
next
  case (Inr k)
  then show ?thesis
    using partitions_loop_Inr [of 0 ps "length ps" "\<lambda>_. False" 0 k] fills_last_count [of "\<lambda>p. pSizeMB p = 0" ps]
    by (auto simp: validatePartitions_def)
qed

lemma isValidLVMName_nonempty: "isValidLVMName n \<Longrightarrow> n \<noteq> []"
  by (auto simp: isValidLVMName_def)

lemma validateLVMVolume_None: "validateLVMVolume v = None \<longleftrightarrow> volume_ok v"
  by (auto simp: validateLVMVolume_def validateLVMVolumeMountpoint_def validateLVMVolumeSize_def
      check_mountpoint_None validateMountOptions_None volume_ok_def dest: isValidLVMName_nonempty)

lemma volumes_loop_None:
  "i + length vs = n \<Longrightarrow> volumes_loop n i seen vs = None \<longleftrightarrow>
     list_all volume_ok vs \<and> distinct (map vName vs) \<and> (\<forall>v\<in>set vs. \<not> seen (vName v))
     \<and> fills_last usesAllRemainingLVMExtents vs"
proof (induction vs arbitrary: i seen)
  case Nil
  then show ?case by (simp add: fills_last_def)
next
  case (Cons v vs)
  let ?e = "first_error [validateLVMVolume v, reject (seen (vName v)) (NameDuplicate (vName v)),
      reject (usesAllRemainingLVMExtents v \<and> i + 1 \<noteq> n) FillNotLast]"
  have e: "?e = None \<longleftrightarrow> volume_ok v \<and> \<not> seen (vName v) \<and> (usesAllRemainingLVMExtents v \<longrightarrow> vs = [])"
    using Cons.prems by (auto simp: validateLVMVolume_None)
  show ?case
  proof (cases ?e)
    case None
    have eq: "i + 1 + length vs = n" using Cons.prems by simp
    have seen: "(\<forall>w\<in>set vs. \<not> (seen(vName v := True)) (vName w)) \<longleftrightarrow> (\<forall>w\<in>set vs. \<not> seen (vName w)) \<and> vName v \<notin> vName ` set vs"
      by (auto simp: image_iff)
    have ok: "volume_ok v" "\<not> seen (vName v)" "usesAllRemainingLVMExtents v \<longrightarrow> vs = []" using e None by blast+
    show ?thesis unfolding volumes_loop.simps None option.case Cons.IH [OF eq] seen
      using ok by (auto simp: fills_last_Cons)
  next
    case (Some x)
    then have "\<not> (volume_ok v \<and> \<not> seen (vName v) \<and> (usesAllRemainingLVMExtents v \<longrightarrow> vs = []))" using e by simp
    then show ?thesis unfolding volumes_loop.simps Some option.case by (auto simp: fills_last_Cons)
  qed
qed

lemma validateLVMConfig_None:
  "validateLVMConfig lvm ps = None \<longleftrightarrow> (case lvm of Some l \<Rightarrow> lvm_ok ps l | None \<Rightarrow> True)"
proof (cases lvm)
  case (Some l)
  have pv: "validateLVMPVPartition l ps = None \<longleftrightarrow> isValidLVMName (VolumeGroup l) \<and> 1 \<le> PVPartition l
      \<and> PVPartition l \<le> int (length ps) \<and> pMountpoint (ps ! nat (PVPartition l - 1)) = []
      \<and> pFilesystem (ps ! nat (PVPartition l - 1)) = []"
    by (auto simp: validateLVMPVPartition_def Let_def isValidLVMName_nonempty split: option.splits)
  show ?thesis
    using Some pv volumes_loop_None [of 0 "Volumes l" "length (Volumes l)" "\<lambda>_. False"]
    by (auto simp: validateLVMConfig_def lvm_ok_def maxLVMVolumes_def)
qed (simp add: validateLVMConfig_def)

lemma unique_loop_None:
  "unique_loop seen ms = None \<longleftrightarrow>
     distinct (filter (\<lambda>m. m \<noteq> []) (map fst ms)) \<and> (\<forall>m\<in>set (map fst ms). m \<noteq> [] \<longrightarrow> seen m = None)"
proof (induction ms arbitrary: seen)
  case (Cons m ms)
  obtain mp loc where m: "m = (mp, loc)" by (cases m)
  show ?case
  proof (cases "mp = [] \<or> seen mp \<noteq> None")
    case True
    then show ?thesis using Cons.IH [of seen] m by (cases "mp = []") auto
  next
    case False
    have seen: "(\<forall>x\<in>set (map fst ms). x \<noteq> [] \<longrightarrow> (seen(mp \<mapsto> loc)) x = None) \<longleftrightarrow>
        (\<forall>x\<in>set (map fst ms). x \<noteq> [] \<longrightarrow> seen x = None) \<and> mp \<notin> set (map fst ms)"
      using False by auto
    have "unique_loop seen (m # ms) = unique_loop (seen(mp \<mapsto> loc)) ms" using False m by simp
    moreover have "unique_loop (seen(mp \<mapsto> loc)) ms = None \<longleftrightarrow> distinct (filter (\<lambda>m. m \<noteq> []) (map fst ms))
        \<and> (\<forall>x\<in>set (map fst ms). x \<noteq> [] \<longrightarrow> seen x = None) \<and> mp \<notin> set (map fst ms)"
      using Cons.IH [of "seen(mp \<mapsto> loc)"] unfolding seen .
    ultimately show ?thesis using False m by (simp only: list.map fst_conv filter.simps distinct.simps list.set set_filter) auto
  qed
qed simp

lemma mount_places_fst: "filter (\<lambda>m. m \<noteq> []) (map fst (mount_places ps lvm)) = mountpoints ps lvm"
proof -
  have p: "map (fst \<circ> (\<lambda>(i, p). (pMountpoint p, part_location i (pLabel p)))) (enumerate n ps) = map pMountpoint ps" for n ps
    by (induction ps arbitrary: n) auto
  have v: "map (fst \<circ> (\<lambda>(i, v). (vMountpoint v, volume_location i (vName v)))) (enumerate n vs) = map vMountpoint vs" for n vs
    by (induction vs arbitrary: n) auto
  show ?thesis unfolding mount_places_def mountpoints_def map_append map_map p by (cases lvm) (simp_all add: v)
qed

lemma validateUniqueMountpoints_None: "validateUniqueMountpoints ps lvm = None \<longleftrightarrow> distinct (mountpoints ps lvm)"
  by (simp add: validateUniqueMountpoints_def unique_loop_None mount_places_fst)

lemma validateRootPresence_None: "validateRootPresence ps lvm = None \<longleftrightarrow> ''/'' \<in> set (mountpoints ps lvm)"
proof -
  have m: "''/'' \<in> pMountpoint ` A \<longleftrightarrow> (\<exists>x\<in>A. pMountpoint x = ''/'')" "''/'' \<in> vMountpoint ` B \<longleftrightarrow> (\<exists>x\<in>B. vMountpoint x = ''/'')" for A B
    by force+
  show ?thesis by (cases lvm) (auto simp: validateRootPresence_def mountpoints_def list_ex_iff m)
qed

lemma normalize_device_Inr:
  "normalizePartitionLayoutDevice d = Inr d' \<longleftrightarrow> device_ok d \<and> d' = TrimSpace d"
  by (auto simp: normalizePartitionLayoutDevice_def device_ok_def Let_def ContainsAny_def)

text \<open>C22: The validation of a partition layout accepts exactly the layouts of its rules: one to 128
  partitions with distinct labels and an optional volume group on a partition of its own, sizes where
  only the last one may fill the rest, mountpoints that are absolute, without traversal, distinct and
  on a filesystem, and one of them the root. The result is the layout with the table type and the
  trimmed device filled in.\<close>

theorem layout_validation_exact:
  "ValidatePartitionLayout (Some l) = Inr l' \<longleftrightarrow>
     layout_ok l \<and> l' = l\<lparr>Table := ''gpt'', Device := TrimSpace (Device l)\<rparr>"
proof -
  define l1 where "l1 = (if Table l = [] then l\<lparr>Table := ''gpt''\<rparr> else l)"
  let ?ps = "Partitions l" and ?lvm = "LVM l"
  let ?errs = "first_error [validatePartitions ?ps, validateLVMConfig ?lvm ?ps, validateUniqueMountpoints ?ps ?lvm, validateRootPresence ?ps ?lvm]"
  have f: "Partitions l1 = ?ps" "LVM l1 = ?lvm" "Device l1 = Device l"
    "Partitions (l1\<lparr>Device := d\<rparr>) = ?ps" "LVM (l1\<lparr>Device := d\<rparr>) = ?lvm" for d by (simp_all add: l1_def)
  have t: "Table l1 = ''gpt'' \<longleftrightarrow> Table l \<in> {[], ''gpt''}" by (auto simp: l1_def)
  have v: "?errs = None \<longleftrightarrow> list_all partition_ok ?ps \<and> distinct (map pLabel ?ps) \<and> fills_last (\<lambda>p. pSizeMB p = 0) ?ps
      \<and> (case ?lvm of Some l \<Rightarrow> lvm_ok ?ps l | None \<Rightarrow> True) \<and> distinct (mountpoints ?ps ?lvm) \<and> ''/'' \<in> set (mountpoints ?ps ?lvm)"
    by (simp add: validatePartitions_None validateLVMConfig_None validateUniqueMountpoints_None validateRootPresence_None)
  have run: "ValidatePartitionLayout (Some l) =
      (if ?ps = [] then Inl NoPartitions else if length ?ps > 128 then Inl (TooManyPartitions (length ?ps))
       else if Table l1 \<noteq> ''gpt'' then Inl (UnsupportedTable (Table l1))
       else case normalizePartitionLayoutDevice (Device l) of Inl e \<Rightarrow> Inl e
         | Inr d \<Rightarrow> (case ?errs of Some e \<Rightarrow> Inl e | None \<Rightarrow> Inr (l1\<lparr>Device := d\<rparr>)))"
    unfolding ValidatePartitionLayout_def option.case maxPartitions_def Let_def l1_def [symmetric] f ..
  show ?thesis
  proof (cases "?ps \<noteq> [] \<and> length ?ps \<le> 128 \<and> Table l \<in> {[], ''gpt''} \<and> device_ok (Device l)")
    case True
    then have d: "normalizePartitionLayoutDevice (Device l) = Inr (TrimSpace (Device l))" by (simp add: normalize_device_Inr)
    have u: "l1\<lparr>Device := d\<rparr> = l\<lparr>Table := ''gpt'', Device := d\<rparr>" for d using True by (cases l) (auto simp: l1_def)
    have "layout_ok l \<longleftrightarrow> ?errs = None" unfolding v layout_ok_def using True by blast
    moreover have "ValidatePartitionLayout (Some l) =
        (case ?errs of Some e \<Rightarrow> Inl e | None \<Rightarrow> Inr (l\<lparr>Table := ''gpt'', Device := TrimSpace (Device l)\<rparr>))"
      using True t unfolding run d sum.case u by simp
    ultimately show ?thesis by (cases ?errs) auto
  next
    case False
    then have no: "\<not> layout_ok l" by (auto simp: layout_ok_def)
    have "normalizePartitionLayoutDevice (Device l) \<noteq> Inr d" if "\<not> device_ok (Device l)" for d
      using that by (simp add: normalize_device_Inr)
    with False t have "ValidatePartitionLayout (Some l) \<noteq> Inr l'" unfolding run
      by (cases "normalizePartitionLayoutDevice (Device l)") auto
    with no show ?thesis by simp
  qed
qed

text \<open>Distinct mountpoints may still be the same directory: they are compared as texts.\<close>

definition same_directory_twice :: PartitionLayout where
  "same_directory_twice =
     (let p = \<lambda>l m n. \<lparr>pLabel = l, pSizeMB = n, pTypeGUID = [], pFilesystem = ''ext4'', pMountpoint = m, pMountOptions = []\<rparr>
      in \<lparr>Table = [], Device = [], Partitions = [p ''r'' ''/'' 1, p ''a'' ''/var'' 1, p ''b'' ''/var/'' 0], LVM = None\<rparr>)"

lemma same_directory_accepted:
  "(case ValidatePartitionLayout (Some same_directory_twice) of Inr _ \<Rightarrow> True | Inl _ \<Rightarrow> False) \<and> Clean ''/var/'' = Clean ''/var''"
  by code_simp

end
