(* ===== verification/AB_Layout.thy ===== *)
theory AB_Layout
  imports Partition_Layout
begin

text \<open>
  The A/B scheme with two root slots (config/ab.go) and its validation (config/validate.go): the slot that
  is written, the partition layout, and the checks that keep the running system. The messages of the
  checks are constructors.
\<close>

subsection \<open>Data\<close>

record ABDataPartition =
  dLabel :: string
  dSizeMB :: int
  dFilesystem :: string
  dMountpoint :: string

record ABConfig =
  Scheme :: string
  ActiveSlot :: string
  TargetSlot :: string
  PreserveExisting :: bool
  BootSizeMB :: int
  RootSizeMB :: int
  StateSizeMB :: int
  DataPartitions :: "ABDataPartition list"
  SourceRootLabel :: string
  SourceRootPartition :: int

definition ImageModeAB :: string where "ImageModeAB = ''ab''"
definition ABSchemeDualRoot :: string where "ABSchemeDualRoot = ''dual-root''"
definition ABSchemeSystemAB :: string where "ABSchemeSystemAB = ''system-ab''"
definition ABSlotA :: string where "ABSlotA = ''a''"
definition ABSlotB :: string where "ABSlotB = ''b''"
definition ABTargetInactive :: string where "ABTargetInactive = ''inactive''"

lemmas ab_consts = ImageModeAB_def ABSchemeDualRoot_def ABSchemeSystemAB_def ABSlotA_def ABSlotB_def ABTargetInactive_def

datatype ab_err = InvalidScheme string | InvalidActive string | InvalidTarget string | UnsupportedScheme string
  | NegativeField string | NegativeData nat | DataNeedsSystemAB | DataVfat nat | DataSwap nat | DataNoMount nat
  | DataRelative nat string | DataReserved nat string | PreserveNeedsAB | RootSizeZero | AbError ab_err
  | AbLayout layout_err | KexecDisabled | ActiveRequired | TargetIsActive | LabelBlank | SelectorsExclusive

subsection \<open>Defaults\<close>

definition normalizeABScheme :: "string \<Rightarrow> string" where "normalizeABScheme v = ToLower (TrimSpace v)"
definition normalizeABSlot :: "string \<Rightarrow> string" where "normalizeABSlot v = ToLower (TrimSpace v)"

definition normalizeABDataPartition :: "ABDataPartition \<Rightarrow> ABDataPartition" where
  "normalizeABDataPartition p =
     (let p = p\<lparr>dLabel := TrimSpace (dLabel p), dFilesystem := ToLower (TrimSpace (dFilesystem p)),
                dMountpoint := TrimSpace (dMountpoint p)\<rparr>
      in if dFilesystem p = [] then p\<lparr>dFilesystem := ''ext4''\<rparr> else p)"

definition normalizeABDataPartitions :: "ABDataPartition list \<Rightarrow> ABDataPartition list" where
  "normalizeABDataPartitions ps = map normalizeABDataPartition ps"

definition defaultABDataPartitions :: "string \<Rightarrow> int \<Rightarrow> ABDataPartition list \<Rightarrow> ABDataPartition list" where
  "defaultABDataPartitions scheme stateSizeMB ps =
     (if scheme \<noteq> ABSchemeSystemAB then normalizeABDataPartitions ps
      else if ps = [] then [\<lparr>dLabel = ''BOOTY-DATA'', dSizeMB = stateSizeMB, dFilesystem = ''ext4'', dMountpoint = ''/var''\<rparr>]
      else normalizeABDataPartitions ps)"

definition WithDefaults :: "ABConfig \<Rightarrow> ABConfig" where
  "WithDefaults a =
     (let scheme = normalizeABScheme (Scheme a);
          scheme = (if scheme = [] then ABSchemeDualRoot else scheme);
          tgt = ToLower (TrimSpace (TargetSlot a))
      in a\<lparr>Scheme := scheme,
           ActiveSlot := normalizeABSlot (ActiveSlot a),
           TargetSlot := (if tgt = [] then ABTargetInactive else tgt),
           BootSizeMB := (if BootSizeMB a = 0 then 512 else BootSizeMB a),
           RootSizeMB := (if RootSizeMB a = 0 then 32768 else RootSizeMB a),
           DataPartitions := defaultABDataPartitions scheme (StateSizeMB a) (DataPartitions a)\<rparr>)"

definition ResolvedTargetSlot :: "ABConfig \<Rightarrow> ab_err + string" where
  "ResolvedTargetSlot a =
     (let cfg = WithDefaults a in
      if TargetSlot cfg = ABSlotA \<or> TargetSlot cfg = ABSlotB then Inr (TargetSlot cfg)
      else if TargetSlot cfg = ABTargetInactive then
        (if ActiveSlot cfg = ABSlotA then Inr ABSlotB
         else if ActiveSlot cfg = ABSlotB then Inr ABSlotA
         else if ActiveSlot cfg = [] then Inr ABSlotA
         else Inl (InvalidActive (ActiveSlot cfg)))
      else Inl (InvalidTarget (TargetSlot cfg)))"

subsection \<open>The layout\<close>

definition fixed_part :: "string \<Rightarrow> int \<Rightarrow> string \<Rightarrow> string \<Rightarrow> string \<Rightarrow> Partition" where
  "fixed_part l n fs mp opts =
     \<lparr>pLabel = l, pSizeMB = n, pTypeGUID = [], pFilesystem = fs, pMountpoint = mp, pMountOptions = opts\<rparr>"

definition ABPartitionLayout :: "ABConfig \<Rightarrow> string \<Rightarrow> ab_err + PartitionLayout" where
  "ABPartitionLayout a device =
     (let cfg = WithDefaults a in
      if Scheme cfg \<noteq> ABSchemeDualRoot \<and> Scheme cfg \<noteq> ABSchemeSystemAB then Inl (UnsupportedScheme (Scheme cfg))
      else case ResolvedTargetSlot cfg of
        Inl e \<Rightarrow> Inl e
      | Inr tgt \<Rightarrow>
         (let opts = (if Scheme cfg = ABSchemeSystemAB then ''ro'' else []);
              isA = (tgt = ABSlotA);
              fixed = [fixed_part ''BOOTY-EFI'' (BootSizeMB cfg) ''vfat'' ''/boot/efi'' [],
                       fixed_part ''BOOTY-ROOT-A'' (RootSizeMB cfg) ''ext4'' (if isA then ''/'' else []) (if isA then opts else []),
                       fixed_part ''BOOTY-ROOT-B'' (RootSizeMB cfg) ''ext4'' (if isA then [] else ''/'') (if isA then [] else opts)];
              rest = (if Scheme cfg = ABSchemeDualRoot
                      then [fixed_part ''BOOTY-STATE'' (StateSizeMB cfg) ''ext4'' ''/var/lib/booty'' []]
                      else map (\<lambda>d. fixed_part (dLabel d) (dSizeMB d) (dFilesystem d) (dMountpoint d) []) (DataPartitions cfg))
          in Inr \<lparr>Table = ''gpt'', Device = device, Partitions = fixed @ rest, LVM = None\<rparr>))"

subsection \<open>Validation\<close>

text \<open>The messages of the checks that fail, in order.\<close>

definition complaints :: "(bool \<times> 'e) list \<Rightarrow> 'e list" where
  "complaints cs = map snd (filter fst cs)"

definition validateABEnums :: "ABConfig \<Rightarrow> ab_err list" where
  "validateABEnums cfg =
     (let scheme = normalizeABScheme (Scheme cfg); active = normalizeABSlot (ActiveSlot cfg);
          tgt = ToLower (TrimSpace (TargetSlot cfg))
      in complaints
        [(scheme \<noteq> [] \<and> scheme \<noteq> ABSchemeDualRoot \<and> scheme \<noteq> ABSchemeSystemAB, InvalidScheme (Scheme cfg)),
         (active \<noteq> [] \<and> active \<noteq> ABSlotA \<and> active \<noteq> ABSlotB, InvalidActive (ActiveSlot cfg)),
         (tgt \<noteq> [] \<and> tgt \<noteq> ABSlotA \<and> tgt \<noteq> ABSlotB \<and> tgt \<noteq> ABTargetInactive, InvalidTarget (TargetSlot cfg))])"

definition validateABSizeFields :: "ABConfig \<Rightarrow> ab_err list" where
  "validateABSizeFields cfg =
     complaints
       [(BootSizeMB cfg < 0, NegativeField ''bootSizeMB''), (RootSizeMB cfg < 0, NegativeField ''rootSizeMB''),
        (StateSizeMB cfg < 0, NegativeField ''stateSizeMB''),
        (SourceRootPartition cfg < 0, NegativeField ''sourceRootPartition'')]
     @ complaints (map (\<lambda>(i, d). (dSizeMB d < 0, NegativeData i)) (enumerate 0 (DataPartitions cfg)))"

definition validateABData :: "nat \<times> ABDataPartition \<Rightarrow> ab_err list" where
  "validateABData = (\<lambda>(i, d).
     complaints
       [(EqualFold (TrimSpace (dFilesystem d)) ''vfat'', DataVfat i), (EqualFold (TrimSpace (dFilesystem d)) ''swap'', DataSwap i)]
     @ (let mp = TrimSpace (dMountpoint d) in
        if mp = [] then [DataNoMount i]
        else complaints
          [(\<not> HasPrefix mp ''/'', DataRelative i mp), (Clean mp = ''/'' \<or> Clean mp = ''/boot/efi'', DataReserved i (Clean mp))]))"

definition validateABDataPartitionMode :: "bool \<Rightarrow> ABConfig \<Rightarrow> ab_err list" where
  "validateABDataPartitionMode abMode cfg =
     (if DataPartitions cfg = [] then []
      else if \<not> abMode \<or> normalizeABScheme (Scheme cfg) \<noteq> ABSchemeSystemAB then [DataNeedsSystemAB]
      else concat (map validateABData (enumerate 0 (DataPartitions cfg))))"

definition validateABPreserveConstraints :: "bool \<Rightarrow> ABConfig \<Rightarrow> ABConfig \<Rightarrow> ab_err list" where
  "validateABPreserveConstraints disableKexec cfg wd =
     (if \<not> PreserveExisting cfg then []
      else complaints
        [(disableKexec, KexecDisabled), (ActiveSlot wd = [], ActiveRequired),
         (ActiveSlot wd \<noteq> [] \<and> (TargetSlot wd = ABSlotA \<or> TargetSlot wd = ABSlotB) \<and> ActiveSlot wd = TargetSlot wd, TargetIsActive)])"

definition layout_complaint :: "layout_err option \<Rightarrow> ab_err list" where
  "layout_complaint e = (case e of Some x \<Rightarrow> [AbLayout x] | None \<Rightarrow> [])"

definition validateABPartitionLayoutContract :: "PartitionLayout \<Rightarrow> ab_err list" where
  "validateABPartitionLayoutContract l =
     layout_complaint (validatePartitions (Partitions l)) @ layout_complaint (validateUniqueMountpoints (Partitions l) (LVM l))
     @ layout_complaint (validateRootPresence (Partitions l) (LVM l))"

text \<open>\<open>validateABSourceRootSelectors\<close> also trims the label in the configuration.\<close>

definition validateABSourceRootSelectors :: "ABConfig \<Rightarrow> ab_err list \<times> ABConfig" where
  "validateABSourceRootSelectors cfg =
     (let label = TrimSpace (SourceRootLabel cfg) in
      if SourceRootLabel cfg \<noteq> [] \<and> label = [] then ([LabelBlank], cfg)
      else if label \<noteq> [] \<and> SourceRootPartition cfg \<noteq> 0 then ([SelectorsExclusive], cfg)
      else ([], cfg\<lparr>SourceRootLabel := label\<rparr>))"

definition validateABModeConstraints :: "bool \<Rightarrow> bool \<Rightarrow> ABConfig \<Rightarrow> ab_err list \<times> ABConfig" where
  "validateABModeConstraints abMode disableKexec cfg =
     (let errs = validateABDataPartitionMode abMode cfg @ complaints [(PreserveExisting cfg \<and> \<not> abMode, PreserveNeedsAB)] in
      if \<not> abMode then (errs, cfg)
      else
        let wd = WithDefaults cfg;
            layoutErrs = (case ABPartitionLayout wd ''/dev/sda'' of
                            Inl e \<Rightarrow> [AbError e] | Inr l \<Rightarrow> validateABPartitionLayoutContract l);
            (selErrs, cfg') = validateABSourceRootSelectors cfg;
            slotErrs = (case ResolvedTargetSlot wd of Inl e \<Rightarrow> [AbError e] | Inr _ \<Rightarrow> [])
        in (errs @ complaints [(RootSizeMB wd \<le> 0, RootSizeZero)] @ layoutErrs
              @ validateABPreserveConstraints disableKexec cfg wd @ selErrs @ slotErrs, cfg'))"

text \<open>\<open>validateABConfig\<close>: the messages, none for success, and the configuration.\<close>

definition validateABConfig :: "string \<Rightarrow> bool \<Rightarrow> ABConfig \<Rightarrow> ab_err list \<times> ABConfig" where
  "validateABConfig imageMode disableKexec cfg =
     (let abMode = (ToLower (TrimSpace imageMode) = ImageModeAB);
          (modeErrs, cfg') = validateABModeConstraints abMode disableKexec cfg
      in (validateABEnums cfg @ validateABSizeFields cfg @ modeErrs, cfg'))"

subsection \<open>Trimming and lower case are done once\<close>

definition lower :: "char \<Rightarrow> char" where
  "lower c = (if IsUpper c then char_of (of_char c + 32 :: nat) else c)"

lemma ToLower_map: "ToLower s = map lower s"
  by (simp add: ToLower_def lower_def)

lemma of_char_lower: "IsUpper c \<Longrightarrow> of_char (lower c) = (of_char c + 32 :: nat)"
  by (simp add: lower_def IsUpper_def byte_in_def)

lemma lower_not_upper: "\<not> IsUpper (lower c)"
  using of_char_lower [of c] by (cases "IsUpper c") (auto simp: IsUpper_def byte_in_def lower_def)

lemma lower_idem: "lower (lower c) = lower c"
  using lower_not_upper [of c] by (simp add: lower_def)

lemma IsSpace_lower: "IsSpace (lower c) = IsSpace c"
  using of_char_lower [of c] by (cases "IsUpper c") (auto simp: IsUpper_def IsSpace_def byte_in_def lower_def)

lemma ToLower_idem: "ToLower (ToLower s) = ToLower s"
  by (simp add: ToLower_map lower_idem)

lemma TrimSpace_ToLower: "TrimSpace (ToLower s) = ToLower (TrimSpace s)"
proof -
  have "dropWhile IsSpace (map lower t) = map lower (dropWhile IsSpace t)" for t
    by (induction t) (auto simp: IsSpace_lower)
  then show ?thesis by (simp add: TrimSpace_def ToLower_map rev_map)
qed

lemma dropWhile_idem_rev:
  "dropWhile P (rev (dropWhile P (rev (dropWhile P s)))) = rev (dropWhile P (rev (dropWhile P s)))"
proof (cases "dropWhile P s")
  case Nil
  show ?thesis unfolding Nil by simp
next
  case (Cons x xs)
  then have "\<not> P x" by (metis hd_dropWhile list.discI list.sel(1))
  then show ?thesis using Cons by (simp add: dropWhile_append)
qed

lemma dropWhile_idem: "dropWhile P (dropWhile P s) = dropWhile P s"
  by (induction s) auto

lemma TrimSpace_idem: "TrimSpace (TrimSpace s) = TrimSpace s"
  unfolding TrimSpace_def by (simp add: dropWhile_idem_rev dropWhile_idem)

lemma norm_idem: "ToLower (TrimSpace (ToLower (TrimSpace s))) = ToLower (TrimSpace s)"
  by (simp add: TrimSpace_ToLower TrimSpace_idem ToLower_idem)

lemma norm_consts:
  "ToLower (TrimSpace ''dual-root'') = ''dual-root''" "ToLower (TrimSpace ''inactive'') = ''inactive''"
  "ToLower (TrimSpace ''ext4'') = ''ext4''" "TrimSpace ''BOOTY-DATA'' = ''BOOTY-DATA''" "TrimSpace ''/var'' = ''/var''"
  by code_simp+

lemma normalizeABDataPartition_idem: "normalizeABDataPartition (normalizeABDataPartition d) = normalizeABDataPartition d"
  by (simp add: normalizeABDataPartition_def Let_def norm_idem TrimSpace_idem norm_consts)

lemma defaultABDataPartitions_idem:
  "defaultABDataPartitions scheme n (defaultABDataPartitions scheme n ps) = defaultABDataPartitions scheme n ps"
  by (simp add: defaultABDataPartitions_def normalizeABDataPartitions_def normalizeABDataPartition_idem)
     (simp add: normalizeABDataPartition_def Let_def norm_consts)

lemma WithDefaults_idem: "WithDefaults (WithDefaults a) = WithDefaults a"
  by (simp add: WithDefaults_def Let_def normalizeABScheme_def normalizeABSlot_def norm_idem norm_consts ab_consts
      defaultABDataPartitions_idem)

lemma layout_of_defaults: "ABPartitionLayout (WithDefaults a) d = ABPartitionLayout a d"
  "ResolvedTargetSlot (WithDefaults a) = ResolvedTargetSlot a"
  by (simp_all add: ABPartitionLayout_def ResolvedTargetSlot_def WithDefaults_idem)

subsection \<open>A valid configuration keeps the running system\<close>

lemma complaints_Nil [simp]: "complaints cs = [] \<longleftrightarrow> (\<forall>c\<in>set cs. \<not> fst c)"
  by (auto simp: complaints_def filter_empty_conv)

definition root_label :: "string \<Rightarrow> string" where
  "root_label slot = (if slot = ABSlotA then ''BOOTY-ROOT-A'' else ''BOOTY-ROOT-B'')"

lemma resolved_slot:
  assumes "ResolvedTargetSlot a = Inr slot"
  shows "slot = ABSlotA \<or> slot = ABSlotB"
  using assms by (auto simp: ResolvedTargetSlot_def Let_def split: if_splits)

lemma validate_parts:
  assumes "validateABConfig mode kx cfg = ([], cfg')" "ToLower (TrimSpace mode) = ImageModeAB"
  shows "validateABDataPartitionMode True cfg = []" "RootSizeMB (WithDefaults cfg) > 0"
    "validateABPreserveConstraints kx cfg (WithDefaults cfg) = []"
    "\<exists>l. ABPartitionLayout cfg ''/dev/sda'' = Inr l \<and> validateABPartitionLayoutContract l = []"
    "\<exists>slot. ResolvedTargetSlot cfg = Inr slot"
  using assms
  by (auto simp: validateABConfig_def validateABModeConstraints_def Let_def layout_of_defaults split: prod.splits sum.splits)

text \<open>The layout on another device differs in the device only.\<close>

lemma layout_device: "ABPartitionLayout cfg d = Inr l \<Longrightarrow> ABPartitionLayout cfg d' = Inr (l\<lparr>Device := d'\<rparr>)"
  by (auto simp: ABPartitionLayout_def Let_def split: if_splits sum.splits)

lemma layout_shape:
  assumes "ABPartitionLayout cfg d = Inr l" "ResolvedTargetSlot cfg = Inr slot"
  shows "\<exists>rest. Partitions l =
      [fixed_part ''BOOTY-EFI'' (BootSizeMB (WithDefaults cfg)) ''vfat'' ''/boot/efi'' [],
       fixed_part ''BOOTY-ROOT-A'' (RootSizeMB (WithDefaults cfg)) ''ext4'' (if slot = ABSlotA then ''/'' else [])
         (if slot = ABSlotA then (if Scheme (WithDefaults cfg) = ABSchemeSystemAB then ''ro'' else []) else []),
       fixed_part ''BOOTY-ROOT-B'' (RootSizeMB (WithDefaults cfg)) ''ext4'' (if slot = ABSlotA then [] else ''/'')
         (if slot = ABSlotA then [] else (if Scheme (WithDefaults cfg) = ABSchemeSystemAB then ''ro'' else []))] @ rest
    \<and> LVM l = None \<and> Table l = ''gpt'' \<and> Device l = d"
  using assms by (auto simp: ABPartitionLayout_def layout_of_defaults Let_def split: if_splits)

lemma contract_parts:
  assumes "validateABPartitionLayoutContract l = []"
  shows "list_all partition_ok (Partitions l)" "distinct (map pLabel (Partitions l))"
    "fills_last (\<lambda>p. pSizeMB p = 0) (Partitions l)" "distinct (mountpoints (Partitions l) (LVM l))"
    "''/'' \<in> set (mountpoints (Partitions l) (LVM l))"
  using assms
  by (auto simp: validateABPartitionLayoutContract_def layout_complaint_def validatePartitions_None
      validateUniqueMountpoints_None validateRootPresence_None split: option.splits)


definition sample_ab :: ABConfig where
  "sample_ab = \<lparr>Scheme = ''system-ab'', ActiveSlot = ''a'', TargetSlot = [], PreserveExisting = True, BootSizeMB = 0,
     RootSizeMB = 0, StateSizeMB = 0, DataPartitions = [], SourceRootLabel = [], SourceRootPartition = 0\<rparr>"

lemma sample_ab_valid: "validateABConfig ''ab'' False sample_ab = ([], sample_ab)" "ToLower (TrimSpace ''ab'') = ImageModeAB"
  by code_simp+

lemma sample_ab_fields: "PreserveExisting sample_ab" "normalizeABSlot (ActiveSlot sample_ab) = ''a''" "device_ok ''/dev/sda''"
  by code_simp+


end
