(* ===== verification/FIB_Select.thy ===== *)
theory FIB_Select
  imports Go_Text "HOL-Library.Product_Lexorder" "HOL-Library.List_Lexorder"
begin

text \<open>
  Route selection of the BGP stack (network/gobgp/fibselect.go): from the paths that GoBGP lists for a
  destination to the kernel routes with their next hops, one route per routing table.

  A path of the library is a record with the fields that the code reads; its attributes are the types
  that the code distinguishes. What a segment of an AS path has and how much it counts come from the
  library with the segment. The prefix of a destination is the result of parsing its text. The code compares
  paths by their pointers when it collects the best one; a path has equal cost with itself, so comparing
  the values collects the same next hops. The next hop that a new \<open>pathInfo\<close> starts with is never read.
\<close>

subsection \<open>Addresses\<close>

text \<open>A valid \<open>netip.Addr\<close>; the zero address is \<open>None\<close>.\<close>

datatype naddr = V4 u32 | V6 "128 word" string

fun v6_group :: "128 word \<Rightarrow> nat \<Rightarrow> int" where
  "v6_group a i = uint (drop_bit (16 * (7 - i)) a AND 0xffff)"

fun addr_Is4In6 :: "naddr \<Rightarrow> bool" where
  "addr_Is4In6 (V4 _) = False"
| "addr_Is4In6 (V6 a _) = (drop_bit 32 a = 0xffff)"

fun Unmap :: "naddr \<Rightarrow> naddr" where
  "Unmap (V4 a) = V4 a"
| "Unmap (V6 a z) = (if addr_Is4In6 (V6 a z) then V4 (ucast a) else V6 a z)"

fun addr_IsUnspecified :: "naddr \<Rightarrow> bool" where
  "addr_IsUnspecified (V4 a) = (a = 0)"
| "addr_IsUnspecified (V6 a z) = (a = 0 \<and> z = [])"

definition IsLinkLocalUnicast :: "naddr \<Rightarrow> bool" where
  "IsLinkLocalUnicast a =
     (case Unmap a of
        V4 x \<Rightarrow> drop_bit 16 x = 0xa9fe
      | V6 x _ \<Rightarrow> v6_group x 0 div 64 = 0xfe80 div 64)"

text \<open>\<open>String\<close>: dotted decimals, or groups of hexadecimal digits with the first longest run of zero groups
  left out (RFC 5952).\<close>

definition hexdigit :: "int \<Rightarrow> char" where
  "hexdigit i = ''0123456789abcdef'' ! nat i"

function hexdigits :: "int \<Rightarrow> string" where
  "hexdigits n = (if n < 16 then [hexdigit n] else hexdigits (n div 16) @ [hexdigit (n mod 16)])"
  by pat_completeness auto
termination by (relation "measure nat") auto

declare hexdigits.simps [simp del]

definition v4_string :: "u32 \<Rightarrow> string" where
  "v4_string a = Join ''.'' (map (\<lambda>i. fmt_d (int (unat (drop_bit (8 * (3 - i)) a AND 0xff)))) [0, 1, 2, 3])"

definition zero_run :: "int list \<Rightarrow> nat \<Rightarrow> nat" where
  "zero_run gs i = length (takeWhile (\<lambda>g. g = 0) (drop i gs))"

text \<open>The start and the length of the run that is left out; runs of one group stay.\<close>

definition longest_run :: "int list \<Rightarrow> nat \<times> nat" where
  "longest_run gs =
     foldl (\<lambda>(s, n) i. let m = zero_run gs i in if m > n \<and> m \<ge> 2 then (i, m) else (s, n)) (0, 0) [0..<length gs]"

definition v6_string :: "128 word \<Rightarrow> string" where
  "v6_string a =
     (let gs = map (v6_group a) [0, 1, 2, 3, 4, 5, 6, 7]; (s, n) = longest_run gs;
          hex = \<lambda>xs. Join '':'' (map hexdigits xs)
      in if n = 0 then hex gs else hex (take s gs) @ ''::'' @ hex (drop (s + n) gs))"

fun addr_string :: "naddr \<Rightarrow> string" where
  "addr_string (V4 a) = v4_string a"
| "addr_string (V6 a z) =
     (if addr_Is4In6 (V6 a z) then ''::ffff:'' @ v4_string (ucast a) else v6_string a) @ (if z = [] then [] else CHR ''%'' # z)"

text \<open>The order of \<open>Compare\<close>: the length, the value and the zone.\<close>

fun addr_key :: "naddr \<Rightarrow> nat \<times> int \<times> nat list" where
  "addr_key (V4 a) = (32, uint a, [])"
| "addr_key (V6 a z) = (128, uint a, map of_char z)"

subsection \<open>Data\<close>

record fibNexthop =
  nhAddr :: naddr
  nhDev :: string

record fibRoute =
  rtTable :: int
  rtPrefix :: "naddr \<times> nat"
  rtNexthops :: "fibNexthop list"

record pathInfo =
  localPref :: u32
  asPath :: "u32 list"
  asLen :: int
  leftAS :: u32
  origin :: u8
  med :: u32
  peerAS :: u32
  internal :: bool
  neighbor :: string
  table :: int
  best :: bool
  nexthop :: fibNexthop

record as_segment =
  segAS :: "u32 list"
  segLen :: int

datatype path_attr = LocalPref u32 | Origin u8 | MultiExitDisc u32 | AsPath "as_segment list"
  | NextHop "naddr option" | MpReachNLRI "naddr option" "naddr option" | OtherAttr

record Path =
  Filtered :: bool
  Withdrawal :: bool
  Best :: bool
  PeerAddress :: "naddr option"
  PeerASN :: u32
  Attrs :: "path_attr list"

record fibDest =
  destPrefix :: "(naddr \<times> nat) option"
  paths :: "Path list"

record fibSelector =
  relax :: bool
  localAS :: "string \<Rightarrow> u32"
  sel_table :: "string \<Rightarrow> int"
  peerDev :: "string \<Rightarrow> string"

datatype fib_err = BadPrefix | NoNextHop string | NoInterface naddr string

subsection \<open>Paths\<close>

definition learned :: "Path \<Rightarrow> bool" where
  "learned p = (case PeerAddress p of None \<Rightarrow> False | Some a \<Rightarrow> \<not> addr_IsUnspecified a)"

text \<open>\<open>read\<close>: the attributes, the next hop and the link-local next hop.\<close>

fun read_attr :: "pathInfo \<times> naddr option \<times> naddr option \<Rightarrow> path_attr \<Rightarrow> pathInfo \<times> naddr option \<times> naddr option" where
  "read_attr (i, nh, ll) (LocalPref v) = (i\<lparr>localPref := v\<rparr>, nh, ll)"
| "read_attr (i, nh, ll) (Origin v) = (i\<lparr>origin := v\<rparr>, nh, ll)"
| "read_attr (i, nh, ll) (MultiExitDisc v) = (i\<lparr>med := v\<rparr>, nh, ll)"
| "read_attr (i, nh, ll) (AsPath segs) =
     (i\<lparr>asPath := asPath i @ concat (map segAS segs), asLen := asLen i + sum_list (map segLen segs)\<rparr>, nh, ll)"
| "read_attr (i, nh, ll) (NextHop a) = (i, a, ll)"
| "read_attr (i, nh, ll) (MpReachNLRI a b) = (i, a, b)"
| "read_attr (i, nh, ll) OtherAttr = (i, nh, ll)"

definition read_path :: "pathInfo \<Rightarrow> path_attr list \<Rightarrow> pathInfo \<times> naddr option \<times> naddr option" where
  "read_path i attrs =
     (case foldl read_attr (i, None, None) attrs of
        (i, nh, ll) \<Rightarrow> ((case asPath i of a # _ \<Rightarrow> i\<lparr>leftAS := a\<rparr> | [] \<Rightarrow> i), nh, ll))"

definition describePath :: "fibSelector \<Rightarrow> Path \<Rightarrow> naddr \<Rightarrow> fib_err + pathInfo" where
  "describePath s p peer =
     (let nb = addr_string peer;
          info = \<lparr>localPref = 100, asPath = [], asLen = 0, leftAS = 0, origin = 0, med = 0, peerAS = PeerASN p,
                  internal = (PeerASN p = localAS s nb), neighbor = nb, table = sel_table s nb, best = Best p,
                  nexthop = \<lparr>nhAddr = V4 0, nhDev = []\<rparr>\<rparr>;
          (info, nh, ll) = read_path info (Attrs p);
          nh = (case ll of Some l \<Rightarrow> if IsLinkLocalUnicast l then Some l else nh | None \<Rightarrow> nh)
      in case map_option Unmap nh of
           None \<Rightarrow> Inl (NoNextHop nb)
         | Some a \<Rightarrow>
             if addr_IsUnspecified a then Inl (NoNextHop nb)
             else if IsLinkLocalUnicast a then
               (if peerDev s nb = [] then Inl (NoInterface a nb)
                else Inr (info\<lparr>nexthop := \<lparr>nhAddr = a, nhDev = peerDev s nb\<rparr>\<rparr>))
             else Inr (info\<lparr>nexthop := \<lparr>nhAddr = a, nhDev = []\<rparr>\<rparr>))"

subsection \<open>Comparison\<close>

definition equalCost :: "pathInfo \<Rightarrow> pathInfo \<Rightarrow> bool \<Rightarrow> bool" where
  "equalCost a b multipathRelax =
     (if localPref a \<noteq> localPref b \<or> asLen a \<noteq> asLen b \<or> origin a \<noteq> origin b \<or> internal a \<noteq> internal b then False
      else if leftAS a = leftAS b \<and> med a \<noteq> med b then False
      else if multipathRelax then True
      else if internal a then asPath a = asPath b
      else peerAS a = peerAS b)"

definition better :: "pathInfo \<Rightarrow> pathInfo \<Rightarrow> bool" where
  "better a b =
     (if localPref a \<noteq> localPref b then localPref a > localPref b
      else if asLen a \<noteq> asLen b then asLen a < asLen b
      else if origin a \<noteq> origin b then origin a < origin b
      else if leftAS a = leftAS b \<and> med a \<noteq> med b then med a < med b
      else if internal a \<noteq> internal b then \<not> internal a
      else str_key (neighbor a) < str_key (neighbor b))"

subsection \<open>Selection\<close>

definition replaces :: "pathInfo \<Rightarrow> pathInfo \<Rightarrow> bool" where
  "replaces p b = (best p \<or> (\<not> best b \<and> better p b))"

fun choose_best :: "pathInfo \<Rightarrow> pathInfo list \<Rightarrow> pathInfo" where
  "choose_best b [] = b"
| "choose_best b (p # ps) = choose_best (if replaces p b then p else b) ps"

definition nh_key :: "fibNexthop \<Rightarrow> (nat \<times> int \<times> nat list) \<times> nat list" where
  "nh_key h = (addr_key (nhAddr h), str_key (nhDev h))"

fun add_nexthops :: "bool \<Rightarrow> pathInfo \<Rightarrow> fibNexthop list \<Rightarrow> pathInfo list \<Rightarrow> fibNexthop list" where
  "add_nexthops rel b out [] = out"
| "add_nexthops rel b out (c # cs) =
     add_nexthops rel b (if (c = b \<or> equalCost b c rel) \<and> nexthop c \<notin> set out then out @ [nexthop c] else out) cs"

fun Masked :: "naddr \<times> nat \<Rightarrow> naddr \<times> nat" where
  "Masked (V4 a, n) = (V4 (push_bit (32 - n) (drop_bit (32 - n) a)), n)"
| "Masked (V6 a z, n) = (V6 (push_bit (128 - n) (drop_bit (128 - n) a)) [], n)"

definition table_route :: "fibSelector \<Rightarrow> naddr \<times> nat \<Rightarrow> int \<Rightarrow> pathInfo list \<Rightarrow> fibRoute go" where
  "table_route s pfx t ps =
     (case ps of
        [] \<Rightarrow> None
      | p # rest \<Rightarrow>
         (let b = choose_best p rest
          in Some \<lparr>rtTable = t, rtPrefix = Masked pfx, rtNexthops = sort_key nh_key (add_nexthops (relax s) b [] ps)\<rparr>))"

text \<open>\<open>pathsByTable\<close>: the paths in the order of the destination; a table has those of its sessions.\<close>

fun learned_paths :: "fibSelector \<Rightarrow> pathInfo list \<Rightarrow> fib_err list \<Rightarrow> Path list \<Rightarrow> pathInfo list \<times> fib_err list" where
  "learned_paths s infos errs [] = (infos, errs)"
| "learned_paths s infos errs (p # ps) =
     (if Filtered p \<or> Withdrawal p then learned_paths s infos errs ps
      else if \<not> learned p then ([], [])
      else case describePath s p (the (PeerAddress p)) of
        Inl e \<Rightarrow> learned_paths s infos (errs @ [e]) ps
      | Inr i \<Rightarrow> learned_paths s (infos @ [i]) errs ps)"

definition of_table :: "int \<Rightarrow> pathInfo list \<Rightarrow> pathInfo list" where
  "of_table t infos = filter (\<lambda>i. table i = t) infos"

definition tables_of :: "pathInfo list \<Rightarrow> int list" where
  "tables_of infos = sort (remdups (map table infos))"

definition routes_of :: "fibSelector \<Rightarrow> naddr \<times> nat \<Rightarrow> pathInfo list \<Rightarrow> fibRoute list go" where
  "routes_of s pfx infos = those (map (\<lambda>t. table_route s pfx t (of_table t infos)) (tables_of infos))"

definition selectDestination :: "fibSelector \<Rightarrow> fibDest \<Rightarrow> (fibRoute list \<times> fib_err list) go" where
  "selectDestination s d =
     (case destPrefix d of
        None \<Rightarrow> Some ([], [BadPrefix])
      | Some pfx \<Rightarrow>
         (case learned_paths s [] [] (paths d) of
            (infos, errs) \<Rightarrow> map_option (\<lambda>rs. (rs, errs)) (routes_of s pfx infos)))"

fun selectRoutes :: "fibSelector \<Rightarrow> fibDest list \<Rightarrow> (fibRoute list \<times> fib_err list) go" where
  "selectRoutes s [] = Some ([], [])"
| "selectRoutes s (d # ds) = do {
     (rs, es) \<leftarrow> selectDestination s d;
     (rs', es') \<leftarrow> selectRoutes s ds;
     Some (rs @ rs', es @ es')
   }"

subsection \<open>The next hops of a route\<close>

lemma equalCost_refl [simp]: "equalCost a a rel"
  by (simp add: equalCost_def)

lemma equalCost_sym: "equalCost a b rel \<longleftrightarrow> equalCost b a rel"
  by (auto simp: equalCost_def)

definition equal_hops :: "bool \<Rightarrow> pathInfo \<Rightarrow> pathInfo list \<Rightarrow> fibNexthop set" where
  "equal_hops rel b ps = nexthop ` {c \<in> set ps. equalCost b c rel}"

lemma set_add_nexthops: "set (add_nexthops rel b out ps) = set out \<union> equal_hops rel b ps"
  by (induction rel b out ps rule: add_nexthops.induct) (auto simp: equal_hops_def)

lemma distinct_add_nexthops: "distinct out \<Longrightarrow> distinct (add_nexthops rel b out ps)"
  by (induction rel b out ps rule: add_nexthops.induct) auto

lemma inj_addr_key: "inj addr_key"
proof (rule injI)
  fix a b assume "addr_key a = addr_key b"
  then show "a = b"
    by (cases a; cases b) (auto simp: word_uint_eq_iff inj_map_eq_map [OF inj_of_char])
qed

lemma inj_nh_key: "inj (nh_key :: fibNexthop \<Rightarrow> _)"
proof (rule injI)
  fix a b :: fibNexthop assume "nh_key a = nh_key b"
  then have "nhAddr a = nhAddr b \<and> nhDev a = nhDev b"
    by (simp add: nh_key_def inj_eq [OF inj_addr_key] inj_eq [OF inj_str_key])
  then show "a = b" by simp
qed

lemma inj_on_nh_key [simp]: "inj_on nh_key (A :: fibNexthop set)"
  by (rule inj_on_subset [OF inj_nh_key]) simp

definition in_order :: "fibNexthop list \<Rightarrow> bool" where
  "in_order hs = sorted_wrt (\<lambda>x y. nh_key x < nh_key y) hs"

lemma in_order_iff: "in_order hs \<longleftrightarrow> sorted (map nh_key hs) \<and> distinct hs"
proof -
  have "in_order hs \<longleftrightarrow> sorted_wrt (<) (map nh_key hs)"
    by (simp add: in_order_def sorted_wrt_map)
  also have "\<dots> \<longleftrightarrow> sorted (map nh_key hs) \<and> distinct (map nh_key hs)"
    by (rule strict_sorted_iff)
  also have "distinct (map nh_key hs) \<longleftrightarrow> distinct hs"
    by (simp add: distinct_map inj_on_nh_key)
  finally show ?thesis .
qed

text \<open>A list in this order is determined by its elements.\<close>

lemma in_order_unique: "in_order xs \<Longrightarrow> in_order ys \<Longrightarrow> set xs = set ys \<Longrightarrow> xs = ys"
proof -
  assume "in_order xs" "in_order ys" and eq: "set xs = set ys"
  then have "sorted (map nh_key xs)" "sorted (map nh_key ys)" "distinct xs" "distinct ys"
    by (simp_all add: in_order_iff)
  then have "map nh_key xs = map nh_key ys"
    using eq by (intro sorted_distinct_set_unique) (simp_all add: distinct_map)
  then show "xs = ys" by (rule map_injective [OF _ inj_nh_key])
qed

lemma hops_in_order: "in_order (sort_key nh_key (add_nexthops rel b [] ps))"
  by (simp add: in_order_iff distinct_add_nexthops)

subsection \<open>The best path\<close>

lemma choose_best_in: "choose_best b ps \<in> set (b # ps)"
  by (induction ps arbitrary: b) (auto split: if_splits)

text \<open>A path wins a list when it replaces every other path and none replaces it.\<close>

definition wins :: "pathInfo \<Rightarrow> pathInfo list \<Rightarrow> bool" where
  "wins w ps = (w \<in> set ps \<and> list_all (\<lambda>p. p = w \<or> (replaces w p \<and> \<not> replaces p w)) ps)"

lemma choose_best_keeps: "list_all (\<lambda>p. p = w \<or> \<not> replaces p w) ps \<Longrightarrow> choose_best w ps = w"
  by (induction ps) (auto split: if_splits)

lemma choose_best_reaches:
  "w \<in> set (b # ps) \<Longrightarrow> list_all (\<lambda>p. p = w \<or> (replaces w p \<and> \<not> replaces p w)) (b # ps) \<Longrightarrow> choose_best b ps = w"
proof (induction ps arbitrary: b)
  case Nil
  then show ?case by simp
next
  case (Cons p ps)
  show ?case
  proof (cases "b = w \<or> p = w")
    case True
    then have "(if replaces p b then p else b) = w" using Cons.prems by auto
    moreover have "choose_best w ps = w"
      using Cons.prems(2) by (intro choose_best_keeps) (auto simp: list_all_iff)
    ultimately show ?thesis by simp
  next
    case False
    then show ?thesis using Cons.prems by (auto intro!: Cons.IH)
  qed
qed

lemma choose_best_wins: "wins w (p # ps) \<Longrightarrow> choose_best p ps = w"
  unfolding wins_def by (erule conjE, rule choose_best_reaches)

lemma marked_wins:
  assumes "w \<in> set ps" "best w" "\<forall>p\<in>set ps. best p \<longrightarrow> p = w"
  shows "wins w ps"
proof -
  have "p = w \<or> (replaces w p \<and> \<not> replaces p w)" if "p \<in> set ps" for p
    using assms(2) bspec [OF assms(3) that] unfolding replaces_def by blast
  then show ?thesis using assms(1) by (simp add: wins_def list_all_iff)
qed

text \<open>Where no path is marked, the decision order has a winner as soon as the paths come from one leftmost
  AS and from different neighbours: the order is then the lexicographic one of a key.\<close>

definition decision_key :: "pathInfo \<Rightarrow> int \<times> int \<times> u8 \<times> u32 \<times> bool \<times> nat list" where
  "decision_key p = (- uint (localPref p), asLen p, origin p, med p, internal p, str_key (neighbor p))"

lemma less_prod_if: "(a, b) < (c, d) \<longleftrightarrow> (if a \<noteq> c then a < c else b < d)"
  for a c :: "'a :: linorder" and b d :: "'b :: linorder"
  by (simp only: less_prod_def') auto

lemma better_key: "leftAS a = leftAS b \<Longrightarrow> better a b \<longleftrightarrow> decision_key a < decision_key b"
  unfolding better_def decision_key_def less_prod_if
  by (simp add: word_less_def [symmetric] word_uint_eq_iff [symmetric] less_bool_def del: less_prod_simp)

lemma key_wins:
  assumes ne: "ps \<noteq> []" and unmarked: "\<forall>p\<in>set ps. \<not> best p"
    and as: "\<forall>p\<in>set ps. leftAS p = x" and inj: "inj_on neighbor (set ps)"
  shows "\<exists>w. wins w ps"
proof -
  define w where "w = arg_min_list decision_key ps"
  have w: "w \<in> set ps" using ne unfolding w_def by (rule arg_min_list_in)
  have "p = w \<or> (replaces w p \<and> \<not> replaces p w)" if p: "p \<in> set ps" for p
  proof (cases "p = w")
    case False
    then have "neighbor p \<noteq> neighbor w" using inj p w by (meson inj_onD)
    then have "decision_key w \<noteq> decision_key p"
      by (simp add: decision_key_def inj_eq [OF inj_str_key])
    moreover have "decision_key w \<le> decision_key p"
      using ne p by (simp add: w_def f_arg_min_list_f)
    ultimately have "decision_key w < decision_key p" by simp
    moreover have "leftAS w = leftAS p" using as w p by simp
    ultimately show ?thesis
      using unmarked w p by (auto simp: replaces_def better_key)
  qed simp
  then show ?thesis using w unfolding wins_def list_all_iff by blast
qed

subsection \<open>What is offered for a destination\<close>

definition active :: "Path \<Rightarrow> bool" where
  "active p = (\<not> Filtered p \<and> \<not> Withdrawal p)"

text \<open>A destination with an active path of BOOTy itself gets no route at all.\<close>

definition originated :: "Path list \<Rightarrow> bool" where
  "originated ps = list_ex (\<lambda>p. active p \<and> \<not> learned p) ps"

definition offer :: "fibSelector \<Rightarrow> Path \<Rightarrow> pathInfo option" where
  "offer s p = (if active p then (case describePath s p (the (PeerAddress p)) of Inl e \<Rightarrow> None | Inr i \<Rightarrow> Some i) else None)"

definition offers :: "fibSelector \<Rightarrow> Path list \<Rightarrow> pathInfo list" where
  "offers s ps = (if originated ps then [] else List.map_filter (offer s) ps)"

lemma offer_simps:
  "\<not> active p \<Longrightarrow> offer s p = None"
  "active p \<Longrightarrow> describePath s p (the (PeerAddress p)) = Inl e \<Longrightarrow> offer s p = None"
  "active p \<Longrightarrow> describePath s p (the (PeerAddress p)) = Inr i \<Longrightarrow> offer s p = Some i"
  by (simp_all add: offer_def)

lemma offer_Some: "offer s p = Some i \<longleftrightarrow> active p \<and> describePath s p (the (PeerAddress p)) = Inr i"
  by (simp add: offer_def split: sum.split)

lemma learned_paths_offers:
  "fst (learned_paths s is es ps) = (if originated ps then [] else is @ List.map_filter (offer s) ps)"
  by (induction s "is" es ps rule: learned_paths.induct)
    (auto simp: originated_def active_def offer_simps map_filter_simps split: sum.splits)

lemma learned_paths_originated: "originated ps \<Longrightarrow> learned_paths s is es ps = ([], [])"
  by (induction s "is" es ps rule: learned_paths.induct)
    (auto simp: originated_def active_def split: sum.splits)

lemma set_offers: "set (offers s ps) = (if originated ps then {} else {i. \<exists>p\<in>set ps. offer s p = Some i})"
  by (induction ps) (auto simp: offers_def originated_def map_filter_def)

lemma offers_cong: "set ps = set qs \<Longrightarrow> set (offers s ps) = set (offers s qs)"
  unfolding set_offers originated_def list_ex_iff by (simp only:)

text \<open>A next hop can be used, and it names an interface exactly when it is link-local.\<close>

definition hop_ok :: "fibNexthop \<Rightarrow> bool" where
  "hop_ok h = (\<not> addr_IsUnspecified (nhAddr h) \<and> (IsLinkLocalUnicast (nhAddr h) \<longleftrightarrow> nhDev h \<noteq> []))"

lemma describePath_hop: "describePath s p a = Inr i \<Longrightarrow> hop_ok (nexthop i)"
  by (auto simp: describePath_def hop_ok_def Let_def split: prod.splits option.splits if_splits)

lemma offers_hop: "i \<in> set (offers s ps) \<Longrightarrow> hop_ok (nexthop i)"
  by (auto simp: set_offers offer_Some describePath_hop split: if_splits)

subsection \<open>The routes of a destination\<close>

definition route_ok :: "fibSelector \<Rightarrow> pathInfo list \<Rightarrow> fibRoute \<Rightarrow> bool" where
  "route_ok s infos r =
     (in_order (rtNexthops r) \<and> rtNexthops r \<noteq> [] \<and> list_all hop_ok (rtNexthops r)
      \<and> list_ex (\<lambda>b. set (rtNexthops r) = equal_hops (relax s) b (of_table (rtTable r) infos)) (of_table (rtTable r) infos))"

definition route_of :: "fibSelector \<Rightarrow> naddr \<times> nat \<Rightarrow> int \<Rightarrow> pathInfo list \<Rightarrow> fibRoute" where
  "route_of s pfx t ps =
     \<lparr>rtTable = t, rtPrefix = Masked pfx,
      rtNexthops = sort_key nh_key (add_nexthops (relax s) (choose_best (hd ps) (tl ps)) [] ps)\<rparr>"

lemma table_route_eq: "ps \<noteq> [] \<Longrightarrow> table_route s pfx t ps = Some (route_of s pfx t ps)"
  by (cases ps) (simp_all add: table_route_def route_of_def)

lemma set_tables_of [simp]: "set (tables_of infos) = table ` set infos"
  by (simp add: tables_of_def)

lemma of_table_nonempty: "t \<in> table ` set infos \<Longrightarrow> of_table t infos \<noteq> []"
  by (auto simp: of_table_def filter_empty_conv)

lemma those_map_Some: "\<forall>x\<in>set xs. f x = Some (g x) \<Longrightarrow> those (map f xs) = Some (map g xs)"
  by (induction xs) auto

lemma routes_of_eq:
  "routes_of s pfx infos = Some (map (\<lambda>t. route_of s pfx t (of_table t infos)) (tables_of infos))"
  unfolding routes_of_def by (rule those_map_Some) (simp add: table_route_eq of_table_nonempty)

lemma tables_of_sorted: "sorted_wrt (<) (tables_of infos)"
  by (simp add: tables_of_def strict_sorted_iff)

lemma selectDestination_eq:
  "selectDestination s d =
     Some (case destPrefix d of
       None \<Rightarrow> ([], [BadPrefix])
     | Some pfx \<Rightarrow>
         (map (\<lambda>t. route_of s pfx t (of_table t (offers s (paths d)))) (tables_of (offers s (paths d))),
          snd (learned_paths s [] [] (paths d))))"
proof -
  have "fst (learned_paths s [] [] (paths d)) = offers s (paths d)"
    by (simp add: learned_paths_offers offers_def)
  then show ?thesis
    by (cases "learned_paths s [] [] (paths d)") (simp add: selectDestination_def routes_of_eq split: option.split)
qed

lemma route_of_ok:
  assumes "t \<in> table ` set (offers s ps)"
  shows "route_ok s (offers s ps) (route_of s pfx t (of_table t (offers s ps)))"
proof -
  define qs where "qs = of_table t (offers s ps)"
  define b where "b = choose_best (hd qs) (tl qs)"
  have ne: "qs \<noteq> []" using assms by (simp add: qs_def of_table_nonempty)
  have b: "b \<in> set qs" using ne choose_best_in [of "hd qs" "tl qs"] by (simp add: b_def)
  have hops: "set (rtNexthops (route_of s pfx t qs)) = equal_hops (relax s) b qs"
    by (simp add: route_of_def b_def set_add_nexthops)
  have "nexthop b \<in> equal_hops (relax s) b qs" using b by (simp add: equal_hops_def)
  then have "rtNexthops (route_of s pfx t qs) \<noteq> []" using hops by auto
  moreover have "list_all hop_ok (rtNexthops (route_of s pfx t qs))"
    unfolding list_all_iff hops by (auto simp: equal_hops_def qs_def of_table_def offers_hop)
  moreover have "in_order (rtNexthops (route_of s pfx t qs))"
    by (simp add: route_of_def hops_in_order)
  moreover have "rtTable (route_of s pfx t qs) = t" by (simp add: route_of_def)
  ultimately show ?thesis
    using b hops unfolding route_ok_def list_ex_iff qs_def [symmetric] by (metis qs_def)
qed

lemma rtTable_route_of [simp]: "rtTable (route_of s pfx t ps) = t"
  by (simp add: route_of_def)

lemma offers_originated [simp]: "originated ps \<Longrightarrow> offers s ps = []"
  by (simp add: offers_def)

lemma tables_of_Nil [simp]: "tables_of [] = []"
  by (simp add: tables_of_def)

text \<open>C26: Selection never fails on a list of paths. A destination gets one route for every table that has
  a usable path, in the order of the tables. The next hops of a route are those of one of the table's paths
  and of all paths of equal cost with it, without repetition, in the order of their addresses and interfaces;
  each is a specified address, with an interface exactly when it is link-local. A destination that BOOTy
  originates gets no route and no error.\<close>

theorem fib_routes_exact:
  "\<exists>rs errs. selectDestination s d = Some (rs, errs)
     \<and> sorted_wrt (<) (map rtTable rs)
     \<and> set (map rtTable rs) = (if destPrefix d = None then {} else table ` set (offers s (paths d)))
     \<and> list_all (route_ok s (offers s (paths d))) rs
     \<and> (destPrefix d \<noteq> None \<longrightarrow> originated (paths d) \<longrightarrow> rs = [] \<and> errs = [])"
  by (cases "destPrefix d")
    (auto simp: selectDestination_eq route_of_ok list_all_iff tables_of_sorted sorted_wrt_map image_image
      learned_paths_originated)

subsection \<open>The order of the paths\<close>

text \<open>A table is settled when the library marked one of its paths as the best, or when no path is marked and
  all come from one leftmost AS and from different neighbours.\<close>

definition settled :: "pathInfo list \<Rightarrow> bool" where
  "settled ps =
     (list_ex (\<lambda>w. best w \<and> list_all (\<lambda>p. best p \<longrightarrow> p = w) ps) ps
      \<or> (ps \<noteq> [] \<and> list_all (\<lambda>p. \<not> best p \<and> leftAS p = leftAS (hd ps)) ps
         \<and> list_all (\<lambda>p. list_all (\<lambda>q. neighbor p = neighbor q \<longrightarrow> p = q) ps) ps))"

lemma settled_wins: "settled ps \<Longrightarrow> \<exists>w. wins w ps"
  unfolding settled_def
proof (elim disjE)
  assume "list_ex (\<lambda>w. best w \<and> list_all (\<lambda>p. best p \<longrightarrow> p = w) ps) ps"
  then obtain w where "w \<in> set ps" "best w" "\<forall>p\<in>set ps. best p \<longrightarrow> p = w"
    unfolding list_ex_iff list_all_iff by blast
  then show ?thesis using marked_wins by blast
next
  assume *: "ps \<noteq> [] \<and> list_all (\<lambda>p. \<not> best p \<and> leftAS p = leftAS (hd ps)) ps
    \<and> list_all (\<lambda>p. list_all (\<lambda>q. neighbor p = neighbor q \<longrightarrow> p = q) ps) ps"
  then have "inj_on neighbor (set ps)" unfolding list_all_iff inj_on_def by blast
  then show ?thesis using * key_wins [of ps "leftAS (hd ps)"] unfolding list_all_iff by blast
qed

lemma wins_cong: "set ps = set qs \<Longrightarrow> wins w ps \<longleftrightarrow> wins w qs"
  by (simp add: wins_def list_all_iff)

lemma route_of_wins:
  assumes "wins w ps"
  shows "rtNexthops (route_of s pfx t ps) = sort_key nh_key (add_nexthops (relax s) w [] ps)"
proof -
  have "ps = hd ps # tl ps" using assms by (cases ps) (simp_all add: wins_def)
  then have "choose_best (hd ps) (tl ps) = w" using assms by (metis choose_best_wins)
  then show ?thesis by (simp add: route_of_def)
qed

lemma route_of_cong:
  assumes eq: "set ps = set qs" and "settled ps"
  shows "route_of s pfx t ps = route_of s pfx t qs"
proof -
  obtain w where w: "wins w ps" using settled_wins [OF \<open>settled ps\<close>] by blast
  then have w': "wins w qs" using wins_cong [OF eq] by simp
  have "rtNexthops (route_of s pfx t ps) = rtNexthops (route_of s pfx t qs)"
    unfolding route_of_wins [OF w] route_of_wins [OF w']
    by (rule in_order_unique) (simp_all add: hops_in_order set_add_nexthops equal_hops_def eq)
  then show ?thesis by (simp add: route_of_def)
qed

lemma set_of_table: "set (of_table t infos) = {i \<in> set infos. table i = t}"
  by (auto simp: of_table_def)

lemma tables_of_cong: "set is = set js \<Longrightarrow> tables_of is = tables_of js"
  unfolding tables_of_def by (rule sorted_distinct_set_unique) simp_all

text \<open>C27: Where every table of a destination is settled, its routes do not depend on the order in which
  the library lists the paths: two listings of the same paths give the same routes.\<close>

theorem fib_order_independent:
  assumes "destPrefix d = destPrefix d'" "set (paths d) = set (paths d')"
    and "\<forall>t\<in>table ` set (offers s (paths d)). settled (of_table t (offers s (paths d)))"
  shows "map_option fst (selectDestination s d) = map_option fst (selectDestination s d')"
proof -
  have eq: "set (offers s (paths d)) = set (offers s (paths d'))" by (rule offers_cong [OF assms(2)])
  have "route_of s pfx t (of_table t (offers s (paths d))) = route_of s pfx t (of_table t (offers s (paths d')))"
    if "t \<in> set (tables_of (offers s (paths d)))" for pfx t
    using that assms(3) by (intro route_of_cong) (auto simp: set_of_table eq)
  then show ?thesis
    using assms(1) tables_of_cong [OF eq] by (auto simp: selectDestination_eq split: option.split)
qed

subsection \<open>Examples\<close>

definition sample_path :: "bool \<Rightarrow> u32 \<Rightarrow> u32 \<Rightarrow> u32 \<Rightarrow> Path" where
  "sample_path marked peer asn m =
     \<lparr>Filtered = False, Withdrawal = False, Best = marked, PeerAddress = Some (V4 peer), PeerASN = asn,
      Attrs = [AsPath [\<lparr>segAS = [asn], segLen = 1\<rparr>], MultiExitDisc m, NextHop (Some (V4 peer))]\<rparr>"

definition sample_selector :: fibSelector where
  "sample_selector = \<lparr>relax = True, localAS = (\<lambda>_. 65000), sel_table = (\<lambda>_. 254), peerDev = (\<lambda>_. [])\<rparr>"

definition sample_dest :: "Path list \<Rightarrow> fibDest" where
  "sample_dest ps = \<lparr>destPrefix = Some (V4 0x0a000000, 8), paths = ps\<rparr>"

text \<open>The decision order compares the MED only of paths from one leftmost AS and is not transitive. In a
  table without a marked path, three paths from two ASes give different routes in different orders.\<close>

definition cycle_path :: "u32 \<Rightarrow> u32 \<Rightarrow> Path" where
  "cycle_path n m = sample_path False n (if n = 0x01010102 then 65002 else 65001) m"

lemma fib_order_dependent:
  "map_option fst (selectDestination sample_selector
     (sample_dest [cycle_path 0x01010101 2, cycle_path 0x01010102 0, cycle_path 0x01010103 1]))
   \<noteq> map_option fst (selectDestination sample_selector
     (sample_dest [cycle_path 0x01010103 1, cycle_path 0x01010102 0, cycle_path 0x01010101 2]))"
  by code_simp

text \<open>The tie break compares the texts of the neighbour addresses: 10.0.0.10 is before 10.0.0.9.\<close>

lemma tie_break_by_text: "str_key (addr_string (V4 0x0a00000a)) < str_key (addr_string (V4 0x0a000009))"
  by code_simp

lemma addr_string_examples:
  "addr_string (V6 0xfe800000000000000000000000000001 ''eth0'') = ''fe80::1%eth0''"
  "addr_string (V6 0x20010db8000000000001000000000000 []) = ''2001:db8:0:0:1::''"
  "addr_string (V6 0 []) = ''::''"
  "addr_string (V6 0x00000000000000000000ffff0a000001 []) = ''::ffff:10.0.0.1''"
  by code_simp+

theorem fib_routes_exact_witness:
  "let d = sample_dest [sample_path True 0x01010101 65001 0, (sample_path False 0 65001 0)\<lparr>PeerAddress := None\<rparr>] in
   destPrefix d \<noteq> None \<and> originated (paths d)
   \<and> (\<exists>rs errs. selectDestination sample_selector d = Some (rs, errs) \<and> rs = [] \<and> errs = [])"
proof -
  define d where
    "d = sample_dest [sample_path True 0x01010101 65001 0, (sample_path False 0 65001 0)\<lparr>PeerAddress := None\<rparr>]"
  have 1: "destPrefix d \<noteq> None" by (simp add: d_def sample_dest_def)
  have 2: "originated (paths d)"
    by (simp add: d_def sample_dest_def sample_path_def originated_def active_def learned_def)
  show ?thesis
    using fib_routes_exact [of sample_selector d] 1 2 unfolding d_def [symmetric] Let_def by blast
qed

theorem fib_order_independent_witness:
  "map_option fst (selectDestination sample_selector
     (sample_dest [sample_path True 0x01010101 65001 0, sample_path False 0x01010102 65002 0]))
   = map_option fst (selectDestination sample_selector
     (sample_dest [sample_path False 0x01010102 65002 0, sample_path True 0x01010101 65001 0]))
   \<and> length (offers sample_selector [sample_path True 0x01010101 65001 0, sample_path False 0x01010102 65002 0]) = 2"
proof
  let ?a = "sample_path True 0x01010101 65001 0" and ?b = "sample_path False 0x01010102 65002 0"
  have settled: "\<forall>t\<in>table ` set (offers sample_selector [?a, ?b]). settled (of_table t (offers sample_selector [?a, ?b]))"
    by code_simp
  show "map_option fst (selectDestination sample_selector (sample_dest [?a, ?b]))
      = map_option fst (selectDestination sample_selector (sample_dest [?b, ?a]))"
  proof (rule fib_order_independent)
    show "\<forall>t\<in>table ` set (offers sample_selector (paths (sample_dest [?a, ?b]))).
        settled (of_table t (offers sample_selector (paths (sample_dest [?a, ?b]))))"
      using settled by (simp add: sample_dest_def)
  qed (auto simp: sample_dest_def)
  show "length (offers sample_selector [?a, ?b]) = 2" by code_simp
qed

end
