(* ===== verification/LLDP_Table.thy ===== *)
theory LLDP_Table
  imports Go_Text "HOL-Library.AList" "HOL-Library.List_Lexorder"
begin

text \<open>
  The LLDP receiver and the transmit timer (network/lldp/neighbor.go, receive.go, carrier.go): the table of
  neighbours, what it lists, the waits for neighbours, and when a frame is sent.

  Times are nanoseconds since Go's zero time. The neighbour of a frame comes from the decoder, which uses
  the gopacket library, and is an argument. A Go map is an association list with distinct keys. The looks of
  a waiting loop at the table, the carriers and the clock are a list of polls. The start time of the receiver,
  which only \<open>NeighborsWithin\<close> reads, and that function are not modelled.
\<close>

subsection \<open>Neighbours\<close>

record LinkAggregation =
  laSupported :: bool
  laEnabled :: bool
  laPortID :: u32

record MACPHY =
  AutonegSupported :: bool
  AutonegEnabled :: bool
  MAUType :: u16

record Inventory =
  HardwareRevision :: string
  FirmwareRevision :: string
  SoftwareRevision :: string
  SerialNumber :: string
  Manufacturer :: string
  Model :: string
  AssetID :: string

record Neighbor =
  ChassisID :: string
  ChassisIDSubtype :: string
  PortID :: string
  PortIDSubtype :: string
  PortDescription :: string
  SystemName :: string
  nbDescription :: string
  Capabilities :: "string list"
  EnabledCapabilities :: "string list"
  MgmtAddresses :: "string list"
  nbVLAN :: u16
  VLANNames :: "string list"
  nbLinkAggregation :: "LinkAggregation option"
  nbMACPHY :: "MACPHY option"
  MaxFrameSize :: u16
  nbInventory :: "Inventory option"
  nbInterface :: string
  TTL :: u16
  FirstSeen :: int
  LastSeen :: int
  Changes :: int

definition sameNeighbor :: "Neighbor \<Rightarrow> Neighbor \<Rightarrow> bool" where
  "sameNeighbor a b = (ChassisID a = ChassisID b \<and> PortID a = PortID b \<and> SystemName a = SystemName b)"

definition all_digits :: "string \<Rightarrow> bool" where
  "all_digits s = list_all (\<lambda>c. c \<in> set ''0123456789'') s"

text \<open>Trimming digits from both ends leaves nothing exactly when all characters are digits.\<close>

definition SwitchPort :: "Neighbor \<Rightarrow> string" where
  "SwitchPort n =
     (if PortIDSubtype n = ''ifname'' \<or> PortIDSubtype n = ''interface-alias''
         \<or> (PortIDSubtype n = ''local'' \<and> \<not> all_digits (PortID n)) then PortID n
      else if PortDescription n \<noteq> [] then PortDescription n
      else PortID n)"

subsection \<open>The table\<close>

record receiver =
  rxNeighbors :: "(string \<times> Neighbor) list"
  rxExpires :: "(string \<times> int) list"

datatype lldp_log = NeighborLeft string string string | NeighborNew Neighbor

definition newReceiver :: receiver where
  "newReceiver = \<lparr>rxNeighbors = [], rxExpires = []\<rparr>"

text \<open>A missing key of a Go map reads as the zero time.\<close>

definition expires :: "receiver \<Rightarrow> string \<Rightarrow> int" where
  "expires r i = (case map_of (rxExpires r) i of Some t \<Rightarrow> t | None \<Rightarrow> 0)"

definition record_neighbor :: "Neighbor \<Rightarrow> int \<Rightarrow> receiver \<Rightarrow> receiver \<times> lldp_log list" where
  "record_neighbor n now r =
     (let i = nbInterface n; old = map_of (rxNeighbors r) i in
      if TTL n = 0 then
        (r\<lparr>rxNeighbors := AList.delete i (rxNeighbors r), rxExpires := AList.delete i (rxExpires r)\<rparr>,
         (case old of Some o' \<Rightarrow> [NeighborLeft i (ChassisID o') (PortID o')] | None \<Rightarrow> []))
      else
        let (n, logs) =
              (case old of
                 Some o' \<Rightarrow>
                   (if \<not> expires r i < now \<and> sameNeighbor o' n
                    then (n\<lparr>FirstSeen := FirstSeen o', Changes := Changes o'\<rparr>, [])
                    else let n = n\<lparr>FirstSeen := now, Changes := Changes o' + 1\<rparr> in (n, [NeighborNew n]))
               | None \<Rightarrow> let n = n\<lparr>FirstSeen := now\<rparr> in (n, [NeighborNew n]));
            n = n\<lparr>LastSeen := now\<rparr>
        in (r\<lparr>rxNeighbors := AList.update i n (rxNeighbors r),
              rxExpires := AList.update i (now + int (unat (TTL n)) * second) (rxExpires r)\<rparr>, logs))"

definition list_neighbors :: "receiver \<Rightarrow> int \<Rightarrow> Neighbor list" where
  "list_neighbors r now =
     sort_key (\<lambda>n. str_key (nbInterface n))
       (map snd (filter (\<lambda>(i, n). expires r i > now) (rxNeighbors r)))"

subsection \<open>Waiting for neighbours\<close>

definition missingNeighbors :: "(string \<Rightarrow> bool) \<Rightarrow> string list \<Rightarrow> Neighbor list \<Rightarrow> string list" where
  "missingNeighbors hasCarrier ifaces ns =
     filter (\<lambda>i. hasCarrier i \<and> \<not> list_ex (\<lambda>n. nbInterface n = i) ns) ifaces"

definition carrierSettle :: int where "carrierSettle = 15 * second"

text \<open>A look at the table and the carriers; the carriers are read twice, and the context last.\<close>

record poll_look =
  seen :: "Neighbor list"
  carrier_missing :: "string \<Rightarrow> bool"
  carrier_up :: "string \<Rightarrow> bool"
  since_start :: int
  ctx_done :: bool

fun wait_loop :: "string list \<Rightarrow> int \<Rightarrow> poll_look list \<Rightarrow> string list option" where
  "wait_loop ifaces settle [] = None"
| "wait_loop ifaces settle (p # ps) =
     (let missing = missingNeighbors (carrier_missing p) ifaces (seen p);
          allUp = \<not> list_ex (\<lambda>i. \<not> carrier_up p i) ifaces;
          settled = (allUp \<or> since_start p \<ge> settle)
      in if (missing = [] \<and> settled) \<or> ctx_done p then Some missing else wait_loop ifaces settle ps)"

definition WaitForNeighbors :: "string list \<Rightarrow> int \<Rightarrow> poll_look list \<Rightarrow> string list option" where
  "WaitForNeighbors ifaces timeout ps = wait_loop ifaces (min timeout carrierSettle) ps"

subsection \<open>The transmit timer\<close>

record txTimer =
  tx_fast :: int
  tx_next :: int

definition txFastInit :: int where "txFastInit = 4"
definition txJitter :: int where "txJitter = 400000000"
definition txFastInterval :: int where "txFastInterval = second - txJitter div 2"
definition txInterval :: int where "txInterval = 30 * second - txJitter div 2"

definition tx_start :: "int \<Rightarrow> int \<Rightarrow> txTimer \<Rightarrow> txTimer" where
  "tx_start now jitter t =
     (let t = t\<lparr>tx_fast := txFastInit\<rparr>; nxt = now + (txFastInterval + jitter)
      in if tx_next t \<noteq> 0 \<and> \<not> tx_next t > nxt then t else t\<lparr>tx_next := nxt\<rparr>)"

definition tx_stop :: "txTimer \<Rightarrow> txTimer" where "tx_stop t = t\<lparr>tx_next := 0\<rparr>"

definition tx_fired :: "int \<Rightarrow> int \<Rightarrow> txTimer \<Rightarrow> txTimer" where
  "tx_fired now jitter t =
     (let t = (if tx_fast t > 0 then t\<lparr>tx_fast := tx_fast t - 1\<rparr> else t);
          d = (if tx_fast t > 0 then txFastInterval else txInterval)
      in t\<lparr>tx_next := now + (d + jitter)\<rparr>)"

subsection \<open>The table as a function of the frames\<close>

type_synonym frame = "Neighbor \<times> int"

definition receive_all :: "frame list \<Rightarrow> receiver" where
  "receive_all fs = foldl (\<lambda>r (n, now). fst (record_neighbor n now r)) newReceiver fs"

text \<open>The frames of an interface, the newest first.\<close>

definition on_iface :: "string \<Rightarrow> frame list \<Rightarrow> frame list" where
  "on_iface i fs = rev (filter (\<lambda>(n, t). nbInterface n = i) fs)"

definition frame_end :: "frame \<Rightarrow> int" where
  "frame_end f = snd f + int (unat (TTL (fst f))) * second"

text \<open>A frame continues the one before it when that was not a shutdown, its time to live had not passed,
  and both come from the same neighbour.\<close>

definition continues :: "frame \<Rightarrow> frame \<Rightarrow> bool" where
  "continues f g = (TTL (fst f) \<noteq> 0 \<and> snd g \<le> frame_end f \<and> sameNeighbor (fst f) (fst g))"

fun first_seen :: "frame list \<Rightarrow> int" where
  "first_seen [] = 0"
| "first_seen [f] = snd f"
| "first_seen (g # f # fs) = (if continues f g then first_seen (f # fs) else snd g)"

text \<open>The changes are counted from the last shutdown on.\<close>

fun changes :: "frame list \<Rightarrow> int" where
  "changes [] = 0"
| "changes [f] = Changes (fst f)"
| "changes (g # f # fs) =
     (if continues f g then changes (f # fs)
      else if TTL (fst f) \<noteq> 0 then changes (f # fs) + 1
      else Changes (fst g))"

fun entry :: "frame list \<Rightarrow> Neighbor option" where
  "entry [] = None"
| "entry (f # fs) =
     (if TTL (fst f) = 0 then None
      else Some ((fst f)\<lparr>FirstSeen := first_seen (f # fs), Changes := changes (f # fs), LastSeen := snd f\<rparr>))"

fun entry_end :: "frame list \<Rightarrow> int option" where
  "entry_end [] = None"
| "entry_end (f # fs) = (if TTL (fst f) = 0 then None else Some (frame_end f))"

lemma on_iface_snoc:
  "on_iface i (fs @ [(n, t)]) = (if nbInterface n = i then (n, t) # on_iface i fs else on_iface i fs)"
  by (simp add: on_iface_def)

lemma receive_all_snoc: "receive_all (fs @ [(n, t)]) = fst (record_neighbor n t (receive_all fs))"
  by (simp add: receive_all_def)

lemma receive_all_Nil [simp]: "receive_all [] = newReceiver"
  by (simp add: receive_all_def)

text \<open>What recording a frame does to the two maps: the neighbour that is stored, if any.\<close>

definition stored :: "Neighbor \<Rightarrow> int \<Rightarrow> receiver \<Rightarrow> Neighbor" where
  "stored n now r =
     (case map_of (rxNeighbors r) (nbInterface n) of
        Some m \<Rightarrow>
          (if \<not> expires r (nbInterface n) < now \<and> sameNeighbor m n
           then n\<lparr>FirstSeen := FirstSeen m, Changes := Changes m, LastSeen := now\<rparr>
           else n\<lparr>FirstSeen := now, Changes := Changes m + 1, LastSeen := now\<rparr>)
      | None \<Rightarrow> n\<lparr>FirstSeen := now, LastSeen := now\<rparr>)"

lemma record_shutdown:
  "TTL n = 0 \<Longrightarrow> fst (record_neighbor n now r) =
     r\<lparr>rxNeighbors := AList.delete (nbInterface n) (rxNeighbors r), rxExpires := AList.delete (nbInterface n) (rxExpires r)\<rparr>"
  by (simp add: record_neighbor_def Let_def)

lemma record_stores:
  "TTL n \<noteq> 0 \<Longrightarrow> fst (record_neighbor n now r) =
     r\<lparr>rxNeighbors := AList.update (nbInterface n) (stored n now r) (rxNeighbors r),
       rxExpires := AList.update (nbInterface n) (frame_end (n, now)) (rxExpires r)\<rparr>"
  unfolding record_neighbor_def stored_def frame_end_def
  by (cases "map_of (rxNeighbors r) (nbInterface n)") (simp_all add: Let_def)

lemma stored_entry:
  assumes "map_of (rxNeighbors r) (nbInterface n) = entry fs" "map_of (rxExpires r) (nbInterface n) = entry_end fs"
    and "TTL n \<noteq> 0"
  shows "Some (stored n now r) = entry ((n, now) # fs)"
proof (cases fs)
  case Nil
  then show ?thesis using assms by (simp add: stored_def)
next
  case (Cons f gs)
  show ?thesis
  proof (cases "TTL (fst f) = 0")
    case True
    then show ?thesis using assms Cons by (simp add: stored_def continues_def)
  next
    case False
    then have "expires r (nbInterface n) = frame_end f" using assms Cons by (simp add: expires_def)
    then show ?thesis
      using assms(1,3) Cons False
      by (simp add: stored_def continues_def not_less sameNeighbor_def)
  qed
qed

lemma record_same:
  assumes "map_of (rxNeighbors r) (nbInterface n) = entry fs" "map_of (rxExpires r) (nbInterface n) = entry_end fs"
  shows "map_of (rxNeighbors (fst (record_neighbor n now r))) (nbInterface n) = entry ((n, now) # fs)
    \<and> map_of (rxExpires (fst (record_neighbor n now r))) (nbInterface n) = entry_end ((n, now) # fs)"
proof (cases "TTL n = 0")
  case True
  then show ?thesis by (simp add: record_shutdown delete_conv')
next
  case False
  have "Some (stored n now r) = entry ((n, now) # fs)" by (rule stored_entry [OF assms False])
  then show ?thesis
    using False by (simp add: record_stores update_conv' del: entry.simps)
qed

lemma record_other:
  assumes "i \<noteq> nbInterface n"
  shows "map_of (rxNeighbors (fst (record_neighbor n now r))) i = map_of (rxNeighbors r) i
    \<and> map_of (rxExpires (fst (record_neighbor n now r))) i = map_of (rxExpires r) i"
  using assms by (cases "TTL n = 0") (simp_all add: record_shutdown record_stores update_conv' delete_conv')

lemma table_of_frames:
  "map_of (rxNeighbors (receive_all fs)) i = entry (on_iface i fs)
   \<and> map_of (rxExpires (receive_all fs)) i = entry_end (on_iface i fs)"
proof (induction fs rule: rev_induct)
  case Nil
  then show ?case by (simp add: newReceiver_def on_iface_def)
next
  case (snoc f fs)
  obtain n t where f: "f = (n, t)" by (cases f)
  show ?case
  proof (cases "nbInterface n = i")
    case True
    then show ?thesis
      using snoc record_same [of "receive_all fs" n "on_iface i fs" t]
      by (simp add: f receive_all_snoc on_iface_snoc del: entry.simps entry_end.simps)
  next
    case False
    then show ?thesis
      using snoc record_other [of i n t "receive_all fs"] by (simp add: f receive_all_snoc on_iface_snoc)
  qed
qed

lemma distinct_table: "distinct (map fst (rxNeighbors (receive_all fs)))"
proof (induction fs rule: rev_induct)
  case (snoc f fs)
  obtain n t where f: "f = (n, t)" by (cases f)
  show ?case
    using snoc
    by (cases "TTL n = 0") (simp_all add: f receive_all_snoc record_shutdown record_stores distinct_update distinct_delete)
qed (simp add: newReceiver_def)

lemma entry_iface: "entry (on_iface i fs) = Some m \<Longrightarrow> nbInterface m = i"
proof -
  assume e: "entry (on_iface i fs) = Some m"
  then obtain f gs where f: "on_iface i fs = f # gs" by (cases "on_iface i fs") simp_all
  then have "f \<in> set (on_iface i fs)" by simp
  then have "nbInterface (fst f) = i" by (auto simp: on_iface_def)
  then show ?thesis using e f by (auto split: if_splits)
qed

lemma in_table: "(i, m) \<in> set (rxNeighbors (receive_all fs)) \<longleftrightarrow> entry (on_iface i fs) = Some m"
  using map_of_eq_Some_iff [OF distinct_table, of fs i m] table_of_frames [of fs i] by simp

lemma expires_entry:
  "entry (on_iface i fs) = Some m \<Longrightarrow> expires (receive_all fs) i = frame_end (hd (on_iface i fs))"
  using table_of_frames [of fs i] by (cases "on_iface i fs") (auto simp: expires_def split: if_splits)

lemma table_keys: "(i, m) \<in> set (rxNeighbors (receive_all fs)) \<Longrightarrow> nbInterface m = i"
  by (simp add: in_table entry_iface)

lemma distinct_list: "distinct (map nbInterface (list_neighbors (receive_all fs) now))"
proof -
  let ?al = "filter (\<lambda>(i, n). expires (receive_all fs) i > now) (rxNeighbors (receive_all fs))"
  have eq: "map nbInterface (map snd ?al) = map fst ?al"
    using table_keys by (auto simp: case_prod_beta)
  have "distinct (map fst ?al)" by (rule distinct_map_filter [OF distinct_table])
  then have "distinct (map nbInterface (map snd ?al))" by (simp only: eq)
  then have "distinct (map snd ?al)" "inj_on nbInterface (set (map snd ?al))"
    by (simp_all only: distinct_map [of nbInterface])
  then show ?thesis
    unfolding list_neighbors_def distinct_map [of nbInterface] by (simp only: distinct_sort set_sort simp_thms)
qed

lemma set_list:
  "set (list_neighbors (receive_all fs) now) =
     {m. \<exists>i. entry (on_iface i fs) = Some m \<and> now < frame_end (hd (on_iface i fs))}" (is "?L = ?R")
proof -
  have "?L = {m. \<exists>i. (i, m) \<in> set (rxNeighbors (receive_all fs)) \<and> now < expires (receive_all fs) i}"
    unfolding list_neighbors_def set_sort set_map set_filter by (auto simp: image_iff)
  also have "\<dots> = ?R" unfolding in_table by (simp add: expires_entry cong: conj_cong)
  finally show ?thesis .
qed

lemma distinct_str_key: "distinct (map f xs) \<Longrightarrow> distinct (map (\<lambda>x. str_key (f x)) xs)"
  unfolding distinct_map inj_on_def by (simp add: inj_eq [OF inj_str_key])


text \<open>A neighbour whose time to live passed and that comes back unchanged counts as a change.\<close>

definition sample_nb :: Neighbor where
  "sample_nb = \<lparr>ChassisID = ''c'', ChassisIDSubtype = ''local'', PortID = ''p'', PortIDSubtype = ''ifname'', PortDescription = [],
     SystemName = ''s'', nbDescription = [], Capabilities = [], EnabledCapabilities = [], MgmtAddresses = [], nbVLAN = 0,
     VLANNames = [], nbLinkAggregation = None, nbMACPHY = None, MaxFrameSize = 0, nbInventory = None,
     nbInterface = ''eth0'', TTL = 120, FirstSeen = 0, LastSeen = 0, Changes = 0\<rparr>"

lemma return_counts_as_change:
  "map Changes (list_neighbors (receive_all [(sample_nb, 0), (sample_nb, 121 * second)]) (122 * second)) = [1]"
  by code_simp

subsection \<open>The waits\<close>

text \<open>Waiting ends with no interface missing only when each one with a carrier has a neighbour, and with
  some missing only at the end of the context; it ends by then.\<close>

lemma wait_loop_result:
  "wait_loop ifaces settle ps = Some missing \<Longrightarrow>
     \<exists>p\<in>set ps. missing = missingNeighbors (carrier_missing p) ifaces (seen p) \<and> (missing \<noteq> [] \<longrightarrow> ctx_done p)"
  by (induction ps) (auto simp: Let_def split: if_splits)

lemma wait_loop_ends: "list_ex ctx_done ps \<Longrightarrow> \<exists>missing. wait_loop ifaces settle ps = Some missing"
  by (induction ps) (auto simp: Let_def)

lemma missing_spec:
  "i \<in> set (missingNeighbors c ifaces ns) \<longleftrightarrow> i \<in> set ifaces \<and> c i \<and> i \<notin> nbInterface ` set ns"
  by (auto simp: missingNeighbors_def list_ex_iff)

subsection \<open>The timer\<close>

lemma tx_start_lowers: "0 < tx_next t \<Longrightarrow> tx_next (tx_start now j t) \<le> tx_next t"
  by (simp add: tx_start_def Let_def)

lemma tx_start_within: "0 \<le> j \<Longrightarrow> j < txJitter \<Longrightarrow> tx_next (tx_start now j t) \<le> now + second + txJitter div 2"
  by (auto simp: tx_start_def Let_def txFastInterval_def txJitter_def)

lemma tx_fired_gap:
  "0 \<le> j \<Longrightarrow> j < txJitter \<Longrightarrow>
     now < tx_next (tx_fired now j t) \<and> tx_next (tx_fired now j t) < now + 30 * second + txJitter div 2"
  by (simp add: tx_fired_def Let_def txFastInterval_def txInterval_def txJitter_def)

text \<open>After a start the first three frames are followed by short waits, and all others by long ones.\<close>

fun fire_all :: "(int \<times> int) list \<Rightarrow> txTimer \<Rightarrow> txTimer" where
  "fire_all [] t = t"
| "fire_all ((now, j) # xs) t = fire_all xs (tx_fired now j t)"

lemma tx_fast_count: "0 \<le> tx_fast t \<Longrightarrow> tx_fast (fire_all xs t) = max 0 (tx_fast t - int (length xs))"
proof (induction xs t rule: fire_all.induct)
  case (2 now j xs t)
  have "tx_fast (tx_fired now j t) = max 0 (tx_fast t - 1)"
    using "2.prems" by (auto simp: tx_fired_def Let_def)
  then show ?case using "2.IH" by auto
qed simp

end
