(* ===== verification/Spec2Isabelle.thy ===== *)
theory Spec2Isabelle
  imports BFD_Manager Watchdog Log_Redact Run_Modes DHCP_Frame DHCP_Client Grub_Exec AB_Layout FIB_Select LLDP_Table
begin

text \<open>
  \<^bold>\<open>Verification of BOOTy.\<close> BOOTy runs in a ramdisk as the first process of a bare-metal host. It
  brings up the network, takes its configuration from the server CAPRF, and then provisions,
  deprovisions or checks the host or waits for commands. This development models parts of it as
  functions and step relations and proves what they promise.

  \<^bold>\<open>Parts and theories.\<close> Paths are under src/pkg.

  \<^item> \<open>Prelude\<close>: words, byte slices whose range errors are panics, big-endian integers, and two
    interfaces: \<open>codec\<close>, an encoder that a decoder inverts, and \<open>invariant_machine\<close>, a step function
    that keeps an invariant. \<open>Go_Strings\<close>, \<open>Go_Text\<close>: the functions of the Go packages strings and
    path that the code uses.
  \<^item> \<open>BFD_Packet\<close>, \<open>BFD_Session\<close>, \<open>BFD_Manager\<close> (network/bfd): the packet codec, the session with its
    timers, the manager with its sessions, sockets and session loops. Shown: encoding round trip and
    checks of the decoder, the invariant of every history of a session, refinement of the transitions
    of RFC 5880, convergence of two sessions, detection of a silent peer, routing of datagrams, the
    reaction time of the loop, the last packet at shutdown.
  \<^item> \<open>Watchdog\<close> (watchdog, ipmi/watchdog.go): the two kinds of device behind the interface
    \<open>wdt_device\<close>, the supervisor and the global tracker. Shown: the device is petted exactly while the
    active step is within its time, a stall is reported once, nothing pets after the handoff.
  \<^item> \<open>Log_Ring\<close>, \<open>Log_Redact\<close> (caprf/loghandler.go): the bounded log buffer with its sender and the
    redaction. Shown: no line is lost without being counted, a full buffer drops the lowest rank, the
    values of sensitive attributes do not influence what is sent.
  \<^item> \<open>Provision_Errors\<close>, \<open>Provision_Retry\<close>, \<open>Provision_Checkpoint\<close>, \<open>Provision_Run\<close> (provision/errors.go,
    codes.go, retry.go, checkpoint.go, orchestrator.go): failure codes, retries with backoff, the
    checkpoint file and the pipeline of steps. Shown: every failure has a code, the number and order
    of attempts, the closed form of the backoff, the atomic save, the order of the steps, one report
    for each failure, and that a resumed run repeats no destructive step.
  \<^item> \<open>Rescue\<close> (rescue, \<open>RescueConfig\<close> of the orchestrator): the action after a failed run and the root
    password of the rescue shell. Shown: a hash changes only the entry of root.
  \<^item> \<open>Run_Modes\<close> (runmode): the retry loop over the pipeline of \<open>Provision_Run\<close> with the decision of
    \<open>Rescue\<close>, deprovisioning, and standby. Shown: the loop ends after at most four runs, no retry with
    resume repeats a step, commands are acknowledged once and in order with the exceptions that the
    theorem names, a command can not change the live settings, the rate of the polls.
  \<^item> \<open>DHCP_Frame\<close>, \<open>DHCP_Options\<close>, \<open>DHCP_Message\<close>, \<open>DHCP_Client\<close> (network/dhcp4): frames with their
    checksums, the options of a reply and the lease times, the messages that the client sends, and the
    client with its exchanges, renewals and waits. Shown: a frame is accepted with its payload, no frame
    makes the receiver panic, the options are what their copies say as a whole, the lease times are in
    order, the options round trip, the callbacks tell the truth about the lease in every run, the waits
    for the answer to a DISCOVER or a renewal end by the expiry of a lease that is held, and the client
    is well formed after every run. The waits of SELECTING do not look at a lease that was kept; a lemma
    shows it.
  \<^item> \<open>Grub_Words\<close>, \<open>Grub_Script\<close>, \<open>Grub_Exec\<close> (kexec/grubwords.go, default.go): the lexer of grub.cfg, the
    reader that finds the default entry, and a semantics of GRUB scripts to compare it with. Shown: for
    the entry that is found, GRUB expands the kernel line to the same kernel and arguments, under two
    conditions that the reader does not check and the theorem names; the reader returns for every file;
    quoting round trips.
  \<^item> \<open>Partition_Layout\<close>, \<open>AB_Layout\<close> (config/partition.go, ab.go, the A/B part of validate.go): the checks of
    a partition layout and the A/B scheme, whose layout goes through the same checks. Shown: a layout is
    accepted exactly when it meets a declarative specification; an accepted A/B configuration has a
    target slot, and never the active one when the existing system is kept.
  \<^item> \<open>FIB_Select\<close> (network/gobgp/fibselect.go): from the paths of the BGP library to kernel routes. Shown:
    one route for each table with exactly the next hops of equal cost, usable and in order, and that the
    order of the paths does not matter where a table is settled; a lemma shows three paths where it does.
  \<^item> \<open>LLDP_Table\<close> (network/lldp): the table of the receiver, the wait for neighbours and the transmit timer.
    Shown: the list is what the last frames announce, with the start of their unbroken series; a wait ends by
    the end of its context; the timer stays within its bounds.

  \<^bold>\<open>How the model corresponds to the code.\<close> A definition has the name of the function it translates
  where that is possible; a method takes its receiver as an argument and returns it changed. A loop
  is a recursive function: no definition has fuel, and every recursion is proved to terminate, the
  retry loops by the retries left and the readers of bytes by the bytes left. A panic is \<open>None\<close> and
  an error is \<open>Inl\<close>. What comes from outside is an argument: the answers of the system and of the
  server, the clock, random numbers, the end of a context. Effects are logs of events. A wait for a
  context that never ends is the result \<open>Blocked\<close>.

  \<^bold>\<open>Bounds and assumptions.\<close> Durations are unbounded integers except where the code guards against
  overflow of 64 bits (\<open>wrap64\<close>). The jitter is an exact rational, not a float. The strings of a
  checkpoint and of a configuration are valid UTF-8, so JSON keeps them. Keys of log attributes are
  ASCII. The label decoder of the DHCP library, the regular expressions of \<open>logging.RedactText\<close>, the
  bodies of the provisioning steps, the work of \<open>Deprovision\<close>, the merge of a command payload and the
  staged files of a command are arguments of the definitions that use them. The A/B configuration is
  present: the method for defaults on a missing one is not modelled. The paths, attributes and AS segments
  of the BGP library are data with the fields that the code reads.

  \<^bold>\<open>What is not modelled.\<close> Telemetry, the goroutine of the standby heartbeats, the start of dropbear
  and the automatic mounts of the rescue shell, dry-run and check mode, the sockets under the
  DHCP client, decoding a partition layout from JSON, the remaining checks of a configuration, the legacy
  parser of grub.cfg and the load of a kernel with kexec, the BGP sessions and the writer of the kernel
  routes, and the packages that mostly call the kernel or other programs or parse files of other tools:
  disks, images, firmware, EFI, secure boot, TPM, SR-IOV, inventory, cloud-init, DHCPv6, the sockets and the decoder of LLDP, the other
  network packages and the client of CAPRF outside its log handler.
\<close>

end
